(* ===== verification/Hub_Prelude.thy ===== *)
theory Hub_Prelude
  imports Main "HOL-Library.AList" "HOL-Library.Word" "HOL-Library.Char_ord"
    "HOL-Library.List_Lexorder" "HOL-Library.Sublist" "HOL-Library.Multiset"
begin

text \<open>
  Shared vocabulary of the development: hash maps as association lists with distinct keys (the
  list order stands for the iteration order of the Rust \<open>HashMap\<close> or \<open>DashMap\<close>, which the
  language leaves unspecified, so theorems about iteration are stated for every list), the map
  interface as a locale with its interpretation, Rust's iterator helpers, and the named
  collections of rewrite rules that the component theories extend.
\<close>

named_theorems hub_ops \<open>definitions of operations that proofs unfold together\<close>
named_theorems map_laws \<open>lookup after update, removal, modification and retain\<close>
named_theorems wf_intros \<open>every operation keeps the keys of a map distinct\<close>

section \<open>Names of the model's types\<close>

type_synonym ('k, 'v) hmap = "('k \<times> 'v) list"
type_synonym vtoken = string
type_synonym vctx = string
type_synonym instant = nat  \<comment> \<open>nanoseconds on the monotonic clock\<close>
type_synonym u64 = "64 word"

text \<open>\<open>Instant::elapsed\<close> and \<open>saturating_duration_since\<close> never go below zero.\<close>

definition elapsed :: "instant \<Rightarrow> instant \<Rightarrow> nat" where
  "elapsed now t = now - t"

abbreviation secs :: "nat \<Rightarrow> nat" where
  "secs n \<equiv> n * 1000000000"

section \<open>Hash maps\<close>

abbreviation hm_get :: "('k, 'v) hmap \<Rightarrow> 'k \<Rightarrow> 'v option" where
  "hm_get m k \<equiv> map_of m k"

abbreviation hm_insert :: "'k \<Rightarrow> 'v \<Rightarrow> ('k, 'v) hmap \<Rightarrow> ('k, 'v) hmap" where
  "hm_insert k v m \<equiv> AList.update k v m"

abbreviation hm_remove :: "'k \<Rightarrow> ('k, 'v) hmap \<Rightarrow> ('k, 'v) hmap" where
  "hm_remove k m \<equiv> AList.delete k m"

abbreviation hm_contains :: "('k, 'v) hmap \<Rightarrow> 'k \<Rightarrow> bool" where
  "hm_contains m k \<equiv> map_of m k \<noteq> None"

abbreviation hm_wf :: "('k, 'v) hmap \<Rightarrow> bool" where
  "hm_wf m \<equiv> distinct (map fst m)"

text \<open>\<open>get_mut\<close> followed by an assignment through the reference.\<close>

definition hm_modify :: "'k \<Rightarrow> ('v \<Rightarrow> 'v) \<Rightarrow> ('k, 'v) hmap \<Rightarrow> ('k, 'v) hmap" where
  "hm_modify k f m = (case map_of m k of None \<Rightarrow> m | Some v \<Rightarrow> AList.update k (f v) m)"

definition hm_retain :: "('k \<Rightarrow> 'v \<Rightarrow> bool) \<Rightarrow> ('k, 'v) hmap \<Rightarrow> ('k, 'v) hmap" where
  "hm_retain p m = filter (\<lambda>(k, v). p k v) m"

section \<open>Iterator helpers\<close>

fun find_map :: "('a \<Rightarrow> 'b option) \<Rightarrow> 'a list \<Rightarrow> 'b option" where
  "find_map f [] = None"
| "find_map f (x # xs) = (case f x of None \<Rightarrow> find_map f xs | Some y \<Rightarrow> Some y)"

definition opt_filter :: "('a \<Rightarrow> bool) \<Rightarrow> 'a option \<Rightarrow> 'a option" where
  "opt_filter p x = (case x of None \<Rightarrow> None | Some v \<Rightarrow> if p v then Some v else None)"

definition opt_or :: "'a option \<Rightarrow> 'a option \<Rightarrow> 'a option" where
  "opt_or x y = (case x of None \<Rightarrow> y | Some v \<Rightarrow> Some v)"

definition unwrap_or :: "'a \<Rightarrow> 'a option \<Rightarrow> 'a" where
  "unwrap_or d x = (case x of None \<Rightarrow> d | Some v \<Rightarrow> v)"

section \<open>Lemmas on maps\<close>

text \<open>Lookups stay lookups: no rewriting into list membership.\<close>

declare map_of_eq_Some_iff [simp del] Some_eq_map_of_iff [simp del]

lemma map_of_insert [map_laws, simp]:
  "map_of (AList.update k v m) x = (if x = k then Some v else map_of m x)"
  by (simp add: update_conv')

lemma map_of_remove [map_laws, simp]:
  "map_of (AList.delete k m) x = (if x = k then None else map_of m x)"
  by (simp add: AList.delete_conv')

lemma map_of_modify [map_laws, simp]:
  "map_of (hm_modify k f m) x = (if x = k then map_option f (map_of m k) else map_of m x)"
  by (simp add: hm_modify_def split: option.split)

lemma update_present_keys:
  "k \<in> fst ` set m \<Longrightarrow> map fst (AList.update k v m) = map fst m"
  by (induction m) auto

lemma keys_modify [simp]: "map fst (hm_modify k f m) = map fst m"
proof (cases "map_of m k")
  case None
  then show ?thesis by (simp add: hm_modify_def)
next
  case (Some v)
  then have "k \<in> fst ` set m" by (force dest: map_of_SomeD)
  with Some show ?thesis by (simp add: hm_modify_def update_present_keys)
qed

lemma map_of_filter_keys:
  "distinct (map fst m) \<Longrightarrow> map_of (filter (\<lambda>(k, v). p k v) m) x =
     (case map_of m x of None \<Rightarrow> None | Some v \<Rightarrow> if p x v then Some v else None)"
proof (induction m)
  case Nil
  then show ?case by simp
next
  case (Cons a m)
  obtain k v where a: "a = (k, v)" by fastforce
  have "map_of m k = None" using Cons.prems a by (simp add: map_of_eq_None_iff)
  with Cons a show ?case by (auto split: option.split)
qed

lemma map_of_retain [map_laws]:
  "hm_wf m \<Longrightarrow> map_of (hm_retain p m) x =
     (case map_of m x of None \<Rightarrow> None | Some v \<Rightarrow> if p x v then Some v else None)"
  by (simp add: hm_retain_def map_of_filter_keys)

lemma wf_insert [wf_intros]: "hm_wf m \<Longrightarrow> hm_wf (AList.update k v m)"
  by (rule distinct_update)

lemma wf_remove [wf_intros]: "hm_wf m \<Longrightarrow> hm_wf (AList.delete k m)"
  by (rule distinct_delete)

lemma wf_modify [wf_intros]: "hm_wf m \<Longrightarrow> hm_wf (hm_modify k f m)"
  by simp

lemma wf_retain [wf_intros]: "hm_wf m \<Longrightarrow> hm_wf (hm_retain p m)"
  unfolding hm_retain_def by (induction m) auto

lemma length_insert:
  "length (AList.update k v m) = (if hm_contains m k then length m else Suc (length m))"
  by (induction m) auto

lemma length_remove_le: "length (AList.delete k m) \<le> length m"
  by (rule length_delete_le)

lemma length_remove_less: "hm_contains m k \<Longrightarrow> length (AList.delete k m) < length m"
proof (induction m)
  case Nil
  then show ?case by simp
next
  case (Cons a m)
  show ?case
  proof (cases "fst a = k")
    case True
    then show ?thesis using length_delete_le [of k m] by (simp add: delete_simps)
  next
    case False
    with Cons show ?thesis by (cases a) (auto simp: delete_simps)
  qed
qed

lemma length_modify [simp]: "length (hm_modify k f m) = length m"
  by (metis keys_modify length_map)

lemma length_retain: "length (hm_retain p m) \<le> length m"
  by (simp add: hm_retain_def)

lemma in_values_iff:
  "hm_wf m \<Longrightarrow> v \<in> snd ` set m \<longleftrightarrow> (\<exists>k. map_of m k = Some v)"
  by (force simp: image_iff map_of_eq_Some_iff)

section \<open>Lemmas on iterators\<close>

lemma find_map_Some: "find_map f xs = Some y \<Longrightarrow> \<exists>x \<in> set xs. f x = Some y"
  by (induction xs) (auto split: option.splits)

lemma find_map_None: "find_map f xs = None \<longleftrightarrow> (\<forall>x \<in> set xs. f x = None)"
  by (induction xs) (auto split: option.splits)

lemma opt_filter_Some [simp]: "opt_filter p x = Some v \<longleftrightarrow> x = Some v \<and> p v"
  by (auto simp: opt_filter_def split: option.splits)

lemma opt_filter_simps [simp]:
  "opt_filter p None = None" "opt_filter p (Some v) = (if p v then Some v else None)"
  by (simp_all add: opt_filter_def)

lemma opt_filter_None: "opt_filter p x = None \<longleftrightarrow> (\<forall>v. x = Some v \<longrightarrow> \<not> p v)"
  by (auto simp: opt_filter_def split: option.splits)

lemma opt_or_simps [simp]: "opt_or None y = y" "opt_or (Some v) y = Some v"
  by (simp_all add: opt_or_def)

lemma unwrap_or_simps [simp]: "unwrap_or d None = d" "unwrap_or d (Some v) = v"
  by (simp_all add: unwrap_or_def)

section \<open>Lemmas on machine integers\<close>

lemma sint_small: "unat (w :: u64) < 2 ^ 63 \<Longrightarrow> sint w = int (unat w)"
proof -
  assume "unat w < 2 ^ 63"
  then have "int (unat w) < int (2 ^ 63)" by (simp only: of_nat_less_iff)
  then have "uint w < 2 ^ 63" by simp
  moreover have "- (2 ^ 63) \<le> uint w" by (rule order_trans [OF _ uint_ge_0]) simp
  ultimately have "signed_take_bit 63 (uint w) = uint w" by (intro signed_take_bit_int_eq_self)
  then show ?thesis by (simp add: sint_uint)
qed

lemma unat_Suc_small: "unat (w :: u64) < 2 ^ 63 \<Longrightarrow> unat (w + 1) = Suc (unat w)"
proof -
  assume "unat w < 2 ^ 63"
  then have "unat w + 1 < 2 ^ 64" by simp
  then have "unat w + unat (1 :: u64) < 2 ^ LENGTH(64)" by simp
  then have "unat (w + 1) = unat w + unat (1 :: u64)" by (rule unat_add_lem [THEN iffD1])
  then show ?thesis by simp
qed

section \<open>The map interface\<close>

text \<open>
  What a component relies on when it keeps its state in a hash map: lookups after every mutation,
  and that each mutation keeps the keys distinct.
\<close>

locale keyed_map =
  fixes get :: "'m \<Rightarrow> 'k \<Rightarrow> 'v option"
    and ins :: "'k \<Rightarrow> 'v \<Rightarrow> 'm \<Rightarrow> 'm"
    and rem :: "'k \<Rightarrow> 'm \<Rightarrow> 'm"
    and adjust :: "'k \<Rightarrow> ('v \<Rightarrow> 'v) \<Rightarrow> 'm \<Rightarrow> 'm"
    and keep :: "('k \<Rightarrow> 'v \<Rightarrow> bool) \<Rightarrow> 'm \<Rightarrow> 'm"
    and wf :: "'m \<Rightarrow> bool"
  assumes get_ins: "get (ins k v m) x = (if x = k then Some v else get m x)"
    and get_rem: "get (rem k m) x = (if x = k then None else get m x)"
    and get_adjust: "get (adjust k f m) x = (if x = k then map_option f (get m k) else get m x)"
    and get_keep: "wf m \<Longrightarrow> get (keep p m) x = opt_filter (p x) (get m x)"
    and wf_ins: "wf m \<Longrightarrow> wf (ins k v m)"
    and wf_rem: "wf m \<Longrightarrow> wf (rem k m)"
    and wf_adjust: "wf m \<Longrightarrow> wf (adjust k f m)"
    and wf_keep: "wf m \<Longrightarrow> wf (keep p m)"
begin

lemma rem_ins_same: "get (rem k (ins k v m)) = get (rem k m)"
  by (simp add: fun_eq_iff get_ins get_rem)

lemma ins_frame: "x \<noteq> k \<Longrightarrow> get (ins k v m) x = get m x"
  by (simp add: get_ins)

lemma adjust_absent: "get m k = None \<Longrightarrow> get (adjust k f m) = get m"
  by (auto simp: fun_eq_iff get_adjust)

lemma keep_subset: "wf m \<Longrightarrow> get (keep p m) x = Some v \<Longrightarrow> get m x = Some v \<and> p x v"
  by (simp add: get_keep)

end

interpretation hm: keyed_map map_of AList.update AList.delete hm_modify hm_retain hm_wf
proof
  show "hm_wf m \<Longrightarrow> map_of (hm_retain p m) x = opt_filter (p x) (map_of m x)"
    for m :: "('k, 'v) hmap" and p x
    by (simp add: map_of_retain opt_filter_def)
qed (auto intro: wf_insert wf_remove wf_retain)

end
