(* ===== verification/Rust_Str.thy ===== *)
theory Rust_Str
  imports Hub_Prelude
begin

text \<open>
  The part of Rust's \<open>str\<close> and integer parsing that the hub uses.  A Rust string is modelled by its
  UTF-8 bytes, one \<open>char\<close> per byte: \<open>len()\<close> is the list length, slicing is by byte, comparison is
  bytewise.  \<open>trim\<close> strips the encodings of the Unicode White_Space code points.  The lemmas give
  the round trips (decimal print and parse, prefix and split) that the protocol code relies on.
\<close>

named_theorems str_simps \<open>string functions evaluated on literals\<close>

section \<open>Prefixes, suffixes and splitting\<close>

definition starts_with :: "string \<Rightarrow> string \<Rightarrow> bool" where
  "starts_with s p \<longleftrightarrow> take (length p) s = p"

definition strip_prefix :: "string \<Rightarrow> string \<Rightarrow> string option" where
  "strip_prefix s p = (if take (length p) s = p then Some (drop (length p) s) else None)"

definition strip_suffix :: "string \<Rightarrow> string \<Rightarrow> string option" where
  "strip_suffix s p = map_option rev (strip_prefix (rev s) (rev p))"

text \<open>\<open>str::split_once\<close>: the text before and after the first occurrence of a non-empty pattern.\<close>

fun split_once :: "string \<Rightarrow> string \<Rightarrow> (string \<times> string) option" where
  "split_once p [] = (if p = [] then Some ([], []) else None)"
| "split_once p (c # s) = (if take (length p) (c # s) = p then Some ([], drop (length p) (c # s))
     else map_option (\<lambda>(a, b). (c # a, b)) (split_once p s))"

text \<open>\<open>str::rsplit_once\<close> and \<open>rfind\<close>: the same at the last occurrence.\<close>

definition rsplit_once :: "string \<Rightarrow> string \<Rightarrow> (string \<times> string) option" where
  "rsplit_once p s = map_option (\<lambda>(a, b). (rev b, rev a)) (split_once (rev p) (rev s))"

text \<open>\<open>str::split\<close> on one byte; a string without the byte is its own single part.\<close>

fun split_char :: "char \<Rightarrow> string \<Rightarrow> string list" where
  "split_char d [] = [[]]"
| "split_char d (c # s) = (if c = d then [] # split_char d s
     else (case split_char d s of [] \<Rightarrow> [[c]] | w # ws \<Rightarrow> (c # w) # ws))"

fun join :: "string \<Rightarrow> string list \<Rightarrow> string" where
  "join sep [] = []"
| "join sep [x] = x"
| "join sep (x # y # xs) = x @ sep @ join sep (y # xs)"

fun contains_str :: "string \<Rightarrow> string \<Rightarrow> bool" where
  "contains_str p [] = (p = [])"
| "contains_str p (c # s) = (take (length p) (c # s) = p \<or> contains_str p s)"

section \<open>White space\<close>

text \<open>The UTF-8 encodings of the code points with property White_Space.\<close>

definition ws_enc :: "string list" where
  "ws_enc = [[CHR 0x09], [CHR 0x0A], [CHR 0x0B], [CHR 0x0C], [CHR 0x0D], [CHR 0x20],
     [CHR 0xC2, CHR 0x85], [CHR 0xC2, CHR 0xA0], [CHR 0xE1, CHR 0x9A, CHR 0x80],
     [CHR 0xE2, CHR 0x80, CHR 0x80], [CHR 0xE2, CHR 0x80, CHR 0x81], [CHR 0xE2, CHR 0x80, CHR 0x82],
     [CHR 0xE2, CHR 0x80, CHR 0x83], [CHR 0xE2, CHR 0x80, CHR 0x84], [CHR 0xE2, CHR 0x80, CHR 0x85],
     [CHR 0xE2, CHR 0x80, CHR 0x86], [CHR 0xE2, CHR 0x80, CHR 0x87], [CHR 0xE2, CHR 0x80, CHR 0x88],
     [CHR 0xE2, CHR 0x80, CHR 0x89], [CHR 0xE2, CHR 0x80, CHR 0x8A], [CHR 0xE2, CHR 0x80, CHR 0xA8],
     [CHR 0xE2, CHR 0x80, CHR 0xA9], [CHR 0xE2, CHR 0x80, CHR 0xAF], [CHR 0xE2, CHR 0x81, CHR 0x9F],
     [CHR 0xE3, CHR 0x80, CHR 0x80]]"

definition strip_any :: "string list \<Rightarrow> string \<Rightarrow> string option" where
  "strip_any encs s = find_map (\<lambda>e. if e = [] then None else strip_prefix s e) encs"

lemma strip_prefix_length: "p \<noteq> [] \<Longrightarrow> strip_prefix s p = Some t \<Longrightarrow> length t < length s"
  by (cases s; cases p) (auto simp: strip_prefix_def split: if_splits)

lemma strip_any_length: "strip_any encs s = Some t \<Longrightarrow> length t < length s"
  unfolding strip_any_def by (drule find_map_Some) (auto split: if_splits intro: strip_prefix_length)

function trim_with :: "string list \<Rightarrow> string \<Rightarrow> string" where
  "trim_with encs s = (case strip_any encs s of None \<Rightarrow> s | Some t \<Rightarrow> trim_with encs t)"
  by pat_completeness auto
termination by (relation "measure (\<lambda>(encs, s). length s)") (auto dest: strip_any_length)

declare trim_with.simps [simp del]

definition trim_start :: "string \<Rightarrow> string" where
  "trim_start s = trim_with ws_enc s"

definition trim_end :: "string \<Rightarrow> string" where
  "trim_end s = rev (trim_with (map rev ws_enc) (rev s))"

definition trim :: "string \<Rightarrow> string" where
  "trim s = trim_end (trim_start s)"

text \<open>
  \<open>str::split_whitespace().next()\<close> style cuts: the text up to the first white space and the rest
  (the white space included), the whole string when there is none.
\<close>

fun split_at_ws :: "string \<Rightarrow> string \<times> string" where
  "split_at_ws [] = ([], [])"
| "split_at_ws (c # s) = (if strip_any ws_enc (c # s) \<noteq> None then ([], c # s)
     else (case split_at_ws s of (a, b) \<Rightarrow> (c # a, b)))"

section \<open>ASCII case and characters\<close>

definition ascii_lower :: "char \<Rightarrow> char" where
  "ascii_lower c = (let n = (of_char c :: nat) in
     if 65 \<le> n \<and> n \<le> 90 then char_of (n + 32) else c)"

definition to_ascii_lowercase :: "string \<Rightarrow> string" where
  "to_ascii_lowercase s = map ascii_lower s"

definition eq_ignore_ascii_case :: "string \<Rightarrow> string \<Rightarrow> bool" where
  "eq_ignore_ascii_case a b \<longleftrightarrow> map ascii_lower a = map ascii_lower b"

text \<open>A byte that continues a multi-byte code point.\<close>

definition is_cont :: "char \<Rightarrow> bool" where
  "is_cont c \<longleftrightarrow> 128 \<le> (of_char c :: nat) \<and> (of_char c :: nat) < 192"

definition chars_count :: "string \<Rightarrow> nat" where
  "chars_count s = length (filter (\<lambda>c. \<not> is_cont c) s)"

text \<open>\<open>chars().take(n)\<close>: the longest prefix with at most \<open>n\<close> code points.\<close>

fun chars_take :: "nat \<Rightarrow> string \<Rightarrow> string" where
  "chars_take n [] = []"
| "chars_take n (c # s) = (if is_cont c then c # chars_take n s
     else (case n of 0 \<Rightarrow> [] | Suc m \<Rightarrow> c # chars_take m s))"

section \<open>Integers\<close>

definition digit_val :: "char \<Rightarrow> nat option" where
  "digit_val c = (let n = (of_char c :: nat) in if 48 \<le> n \<and> n \<le> 57 then Some (n - 48) else None)"

fun parse_digits :: "nat \<Rightarrow> nat \<Rightarrow> string \<Rightarrow> nat option" where
  "parse_digits mx acc [] = Some acc"
| "parse_digits mx acc (c # cs) = (case digit_val c of None \<Rightarrow> None
     | Some d \<Rightarrow> if acc * 10 + d > mx then None else parse_digits mx (acc * 10 + d) cs)"

text \<open>
  \<open>str::parse\<close> for an unsigned type with maximum \<open>mx\<close>: an optional plus sign, at least one digit,
  no overflow.
\<close>

definition parse_unsigned :: "nat \<Rightarrow> string \<Rightarrow> nat option" where
  "parse_unsigned mx s = (case s of [] \<Rightarrow> None
     | c # cs \<Rightarrow> if c = CHR ''+'' then (if cs = [] then None else parse_digits mx 0 cs)
                 else parse_digits mx 0 s)"

definition u64_max :: nat where
  "u64_max = 2 ^ 64 - 1"

definition parse_u64 :: "string \<Rightarrow> nat option" where
  "parse_u64 s = parse_unsigned u64_max s"

definition digit_char :: "nat \<Rightarrow> char" where
  "digit_char d = char_of (48 + d)"

fun show_nat :: "nat \<Rightarrow> string" where
  "show_nat n = (if n < 10 then [digit_char n] else show_nat (n div 10) @ [digit_char (n mod 10)])"

declare show_nat.simps [simp del]

definition show_int :: "int \<Rightarrow> string" where
  "show_int i = (if i < 0 then CHR ''-'' # show_nat (nat (- i)) else show_nat (nat i))"

section \<open>Lemmas on prefixes and splitting\<close>

lemma strip_prefix_iff: "strip_prefix s p = Some t \<longleftrightarrow> s = p @ t"
  by (auto simp: strip_prefix_def) (metis append_take_drop_id)

lemma strip_prefix_append [simp]: "strip_prefix (p @ s) p = Some s"
  by (simp add: strip_prefix_iff)

lemma strip_suffix_iff: "strip_suffix s p = Some t \<longleftrightarrow> s = t @ p"
  by (auto simp: strip_suffix_def strip_prefix_iff) (metis rev_append rev_rev_ident)+

lemma starts_with_iff: "starts_with s p \<longleftrightarrow> prefix p s"
  by (auto simp: starts_with_def prefix_def) (metis append_take_drop_id)

lemma split_once_Some: "split_once p s = Some (a, b) \<Longrightarrow> s = a @ p @ b"
proof (induction s arbitrary: a)
  case Nil
  then show ?case by (auto split: if_splits)
next
  case (Cons c s)
  then show ?case
    by (auto split: if_splits) (metis append_take_drop_id)
qed

lemma split_once_char: "c \<notin> set a \<Longrightarrow> split_once [c] (a @ c # b) = Some (a, b)"
  by (induction a) auto

lemma split_once_char_None: "split_once [c] s = None \<longleftrightarrow> c \<notin> set s"
  by (induction s) auto

lemma split_once_char_notin: "split_once [c] s = Some (a, b) \<Longrightarrow> c \<notin> set a"
  by (induction s arbitrary: a) (auto split: if_splits)

lemma rsplit_once_Some: "rsplit_once p s = Some (a, b) \<Longrightarrow> s = a @ p @ b"
proof -
  assume "rsplit_once p s = Some (a, b)"
  then have "split_once (rev p) (rev s) = Some (rev b, rev a)"
    by (auto simp: rsplit_once_def)
  from split_once_Some [OF this] have "rev (rev s) = rev (rev b @ rev p @ rev a)" by (rule arg_cong)
  then show ?thesis by simp
qed

lemma rsplit_once_char: "c \<notin> set b \<Longrightarrow> rsplit_once [c] (a @ c # b) = Some (a, b)"
  using split_once_char [of c "rev b" "rev a"] by (simp add: rsplit_once_def)

lemma split_char_nonempty [simp]: "split_char d s \<noteq> []"
  by (induction s) (auto split: list.splits)

lemma join_Cons: "xs \<noteq> [] \<Longrightarrow> join sep (x # xs) = x @ sep @ join sep xs"
  by (cases xs) auto

lemma join_split_char [simp]: "join [d] (split_char d s) = s"
proof (induction s)
  case Nil
  then show ?case by simp
next
  case (Cons c s)
  obtain w ws where w: "split_char d s = w # ws" by (cases "split_char d s") auto
  show ?case
  proof (cases "c = d")
    case True
    then show ?thesis using Cons w by (simp add: join_Cons)
  next
    case False
    with Cons w show ?thesis by (cases ws) auto
  qed
qed

lemma split_char_notin: "w \<in> set (split_char d s) \<Longrightarrow> d \<notin> set w"
  by (induction s arbitrary: w) (auto split: if_splits list.splits)

section \<open>Lemmas on trimming\<close>

lemma strip_any_suffix: "strip_any encs s = Some t \<Longrightarrow> suffix t s"
  unfolding strip_any_def
  by (drule find_map_Some) (auto simp: suffix_def strip_prefix_iff split: if_splits)

lemma trim_with_suffix: "suffix (trim_with encs s) s"
proof (induction encs s rule: trim_with.induct)
  case (1 encs s)
  then show ?case
    by (subst trim_with.simps)
      (auto split: option.split dest: strip_any_suffix intro: suffix_order.trans)
qed

lemma trim_with_done: "strip_any encs (trim_with encs s) = None"
proof (induction encs s rule: trim_with.induct)
  case (1 encs s)
  then show ?case
    by (cases "strip_any encs s") (simp_all add: trim_with.simps [of encs s])
qed

lemma trim_with_id: "strip_any encs s = None \<Longrightarrow> trim_with encs s = s"
  by (simp add: trim_with.simps)

lemma strip_prefix_mono: "prefix y x \<Longrightarrow> strip_prefix x p = None \<Longrightarrow> strip_prefix y p = None"
  by (cases "strip_prefix y p") (auto simp: strip_prefix_iff prefix_def)

lemma strip_any_mono: "prefix y x \<Longrightarrow> strip_any encs x = None \<Longrightarrow> strip_any encs y = None"
  unfolding strip_any_def find_map_None by (metis strip_prefix_mono)

lemma trim_start_idem: "strip_any ws_enc s = None \<Longrightarrow> trim_start s = s"
  by (simp add: trim_start_def trim_with_id)

lemma trim_end_prefix: "prefix (trim_end s) s"
  using trim_with_suffix [of "map rev ws_enc" "rev s"] by (simp add: trim_end_def suffix_to_prefix)

lemma trim_end_idem: "trim_end (trim_end s) = trim_end s"
  by (simp add: trim_end_def trim_with_id [OF trim_with_done])

lemma trim_no_leading: "strip_any ws_enc (trim s) = None"
  unfolding trim_def trim_start_def
  by (rule strip_any_mono [OF trim_end_prefix trim_with_done])

lemma trim_idem [simp]: "trim (trim s) = trim s"
proof -
  have "trim_start (trim s) = trim s" by (rule trim_start_idem [OF trim_no_leading])
  then have "trim (trim s) = trim_end (trim s)" by (simp add: trim_def [of "trim s"])
  also have "\<dots> = trim s" by (simp add: trim_def trim_end_idem)
  finally show ?thesis .
qed

lemma trim_length: "length (trim s) \<le> length s"
proof -
  have "length (trim s) \<le> length (trim_start s)"
    unfolding trim_def by (rule prefix_length_le [OF trim_end_prefix])
  also have "\<dots> \<le> length s"
    unfolding trim_start_def by (rule suffix_length_le [OF trim_with_suffix])
  finally show ?thesis .
qed

text \<open>A string that starts and ends with a printing ASCII character is its own trim.\<close>

definition graphic :: "char \<Rightarrow> bool" where
  "graphic c \<longleftrightarrow> 33 \<le> (of_char c :: nat) \<and> (of_char c :: nat) \<le> 126"

lemma ws_enc_not_graphic:
  "e \<in> set ws_enc \<Longrightarrow> e \<noteq> [] \<and> \<not> graphic (hd e) \<and> \<not> graphic (last e)"
  by (auto simp: ws_enc_def graphic_def)

lemma strip_prefix_hd: "p \<noteq> [] \<Longrightarrow> s = [] \<or> hd s \<noteq> hd p \<Longrightarrow> strip_prefix s p = None"
  by (cases p; cases s) (auto simp: strip_prefix_def)

lemma strip_any_graphic: "s = [] \<or> graphic (hd s) \<Longrightarrow> strip_any ws_enc s = None"
  using ws_enc_not_graphic
  by (auto simp: strip_any_def find_map_None intro!: strip_prefix_hd)

lemma strip_any_graphic_rev: "s = [] \<or> graphic (last s) \<Longrightarrow> strip_any (map rev ws_enc) (rev s) = None"
  using ws_enc_not_graphic
  by (auto simp: strip_any_def find_map_None hd_rev intro!: strip_prefix_hd)

lemma trim_graphic: "s = [] \<or> graphic (hd s) \<and> graphic (last s) \<Longrightarrow> trim s = s"
  by (auto simp: trim_def trim_start_def trim_end_def strip_any_graphic strip_any_graphic_rev
      trim_with_id strip_any_graphic_rev [of "[]", simplified] strip_any_graphic [of "[]", simplified])

section \<open>Lemmas on code points and case\<close>

lemma chars_take_prefix: "prefix (chars_take n s) s"
  by (induction n s rule: chars_take.induct) (auto split: nat.split)

lemma chars_take_count: "chars_count (chars_take n s) \<le> n"
  by (induction n s rule: chars_take.induct) (auto simp: chars_count_def split: nat.split)

lemma chars_take_all: "chars_count s \<le> n \<Longrightarrow> chars_take n s = s"
  by (induction n s rule: chars_take.induct) (auto simp: chars_count_def split: nat.split if_splits)

lemma chars_take_exact: "n \<le> chars_count s \<Longrightarrow> chars_count (chars_take n s) = n"
  by (induction n s rule: chars_take.induct) (auto simp: chars_count_def split: nat.split if_splits)

section \<open>Decimal round trip\<close>

lemma digit_val_char: "d < 10 \<Longrightarrow> digit_val (digit_char d) = Some d"
  by (simp add: digit_val_def digit_char_def)

lemma digit_char_graphic: "d < 10 \<Longrightarrow> graphic (digit_char d)"
  by (simp add: graphic_def digit_char_def)

lemma digit_char_not_plus: "d < 10 \<Longrightarrow> digit_char d \<noteq> CHR ''+''"
proof
  assume "d < 10" "digit_char d = CHR ''+''"
  then have "(of_char (digit_char d) :: nat) = of_char (CHR ''+'')" by simp
  with \<open>d < 10\<close> show False by (simp add: digit_char_def)
qed

lemma parse_digits_append:
  "parse_digits mx a (xs @ ys) = Option.bind (parse_digits mx a xs) (\<lambda>b. parse_digits mx b ys)"
  by (induction xs arbitrary: a) (auto split: option.split)

lemma show_nat_digits: "c \<in> set (show_nat n) \<Longrightarrow> \<exists>d < 10. c = digit_char d"
proof (induction n rule: show_nat.induct)
  case (1 n)
  have "n mod 10 < 10" by simp
  then have "\<exists>d < 10. digit_char (n mod 10) = digit_char d" by blast
  with 1 show ?case by (auto simp: show_nat.simps [of n] split: if_splits)
qed

lemma show_nat_nonempty [simp]: "show_nat n \<noteq> []"
  by (subst show_nat.simps) simp

lemma parse_digits_show: "n \<le> mx \<Longrightarrow> parse_digits mx 0 (show_nat n) = Some n"
proof (induction n rule: show_nat.induct)
  case (1 n)
  have *: "n div 10 * 10 + n mod 10 = n" by simp
  show ?case
  proof (cases "n < 10")
    case True
    then show ?thesis using 1 by (simp add: show_nat.simps [of n] digit_val_char)
  next
    case False
    then have "parse_digits mx 0 (show_nat (n div 10)) = Some (n div 10)" using 1 by simp
    then show ?thesis using 1 False *
      by (simp add: show_nat.simps [of n] parse_digits_append digit_val_char)
  qed
qed

lemma show_nat_hd_last:
  "graphic (hd (show_nat n))" "graphic (last (show_nat n))" "hd (show_nat n) \<noteq> CHR ''+''"
  using show_nat_digits [of "hd (show_nat n)" n] show_nat_digits [of "last (show_nat n)" n]
  by (auto simp: digit_char_graphic dest: digit_char_not_plus)

lemma trim_show_nat [simp]: "trim (show_nat n) = show_nat n"
  by (simp add: trim_graphic show_nat_hd_last)

lemma parse_show_nat: "n \<le> mx \<Longrightarrow> parse_unsigned mx (show_nat n) = Some n"
  using show_nat_hd_last(3) [of n] parse_digits_show [of n mx]
  by (cases "show_nat n") (auto simp: parse_unsigned_def)

lemma le_pred_iff: "0 < (m :: nat) \<Longrightarrow> n \<le> m - 1 \<longleftrightarrow> n < m"
  by auto

lemma le_u64_max: "n \<le> u64_max \<longleftrightarrow> n < 2 ^ 64"
  unfolding u64_max_def by (rule le_pred_iff) (rule zero_less_power, simp)

lemma parse_u64_show [simp]: "n < 2 ^ 64 \<Longrightarrow> parse_u64 (show_nat n) = Some n"
  unfolding parse_u64_def by (rule parse_show_nat) (simp only: le_u64_max)

lemma show_nat_inj: "show_nat m = show_nat n \<longleftrightarrow> m = n"
proof
  assume "show_nat m = show_nat n"
  then have "parse_unsigned (max m n) (show_nat m) = parse_unsigned (max m n) (show_nat n)"
    by (rule arg_cong)
  then have "Some m = Some n" by (simp only: parse_show_nat max.cobounded1 max.cobounded2)
  then show "m = n" by simp
qed simp

lemma parse_digits_bound: "parse_digits mx a s = Some n \<Longrightarrow> a \<le> mx \<Longrightarrow> n \<le> mx"
  by (induction s arbitrary: a) (auto split: option.splits if_splits)

lemma parse_unsigned_bound: "parse_unsigned mx s = Some n \<Longrightarrow> n \<le> mx"
  by (auto simp: parse_unsigned_def split: list.splits if_splits option.splits
      dest!: parse_digits_bound)

lemma parse_u64_bound: "parse_u64 s = Some n \<Longrightarrow> n < 2 ^ 64"
  unfolding parse_u64_def by (drule parse_unsigned_bound) (simp only: le_u64_max)

end
