(* ===== verification/Ilink_Types.thy ===== *)
theory Ilink_Types
  imports Rust_Str
begin

text \<open>
  The wire types of \<open>ilink/types.rs\<close>: messages, their items and the hub's extension field, the
  request and response bodies of the bot API, and the pure functions on them (displayed text,
  media detection, reply builders, outbound normalisation, outbound id generation, the
  acknowledgement watermark).  Generated values (UUIDs, clock readings, the process-wide counter)
  are arguments.  \<open>serde_json::Value\<close> is the datatype \<open>json\<close>; a non-integral number is kept as its
  text since the hub reads numbers only through \<open>as_i64\<close>.
\<close>

section \<open>JSON values\<close>

datatype json = JNull | JBool bool | JInt int | JFloat string | JStr string
  | JArr "json list" | JObj "(string \<times> json) list"

fun as_object :: "json \<Rightarrow> (string \<times> json) list option" where
  "as_object (JObj o') = Some o'"
| "as_object _ = None"

fun as_str :: "json \<Rightarrow> string option" where
  "as_str (JStr s) = Some s"
| "as_str _ = None"

fun as_i64 :: "json \<Rightarrow> int option" where
  "as_i64 (JInt i) = (if - (2 ^ 63) \<le> i \<and> i < 2 ^ 63 then Some i else None)"
| "as_i64 _ = None"

definition json_get :: "string \<Rightarrow> json \<Rightarrow> json option" where
  "json_get k v = (case as_object v of None \<Rightarrow> None | Some o' \<Rightarrow> map_of o' k)"

section \<open>Messages\<close>

definition msg_type_TEXT :: int where "msg_type_TEXT = 1"
definition msg_type_IMAGE :: int where "msg_type_IMAGE = 2"
definition msg_type_VOICE :: int where "msg_type_VOICE = 3"
definition msg_type_FILE :: int where "msg_type_FILE = 4"
definition msg_type_VIDEO :: int where "msg_type_VIDEO = 5"
definition message_state_FINISH :: int where "message_state_FINISH = 2"

lemmas msg_consts = msg_type_TEXT_def msg_type_IMAGE_def msg_type_VOICE_def msg_type_FILE_def
  msg_type_VIDEO_def message_state_FINISH_def

record TextItem =
  ti_text :: "string option"

record VoiceItem =
  vi_text :: "string option"

record CDNMedia =
  cdn_encrypt_query_param :: "string option"
  cdn_aes_key :: "string option"
  cdn_encrypt_type :: "int option"
  cdn_full_url :: "string option"

record ImageItem =
  img_media :: "CDNMedia option"
  img_thumb_media :: "CDNMedia option"
  img_mid_size :: "nat option"
  img_thumb_size :: "nat option"
  img_cdn_url :: "string option"
  img_md5 :: "string option"
  img_media_id :: "string option"

record FileItem =
  file_file_name :: "string option"
  file_cdn_url :: "string option"
  file_file_size :: "nat option"
  file_md5 :: "string option"
  file_media_id :: "string option"

record VideoItem =
  vid_cdn_url :: "string option"
  vid_duration_ms :: "nat option"
  vid_md5 :: "string option"
  vid_media_id :: "string option"

record MessageItem =
  item_type :: "int option"
  text_item :: "TextItem option"
  voice_item :: "VoiceItem option"
  image_item :: "ImageItem option"
  file_item :: "FileItem option"
  video_item :: "VideoItem option"
  extra :: json

definition MessageItem_default :: MessageItem where
  "MessageItem_default = \<lparr>item_type = None, text_item = None, voice_item = None,
     image_item = None, file_item = None, video_item = None, extra = JNull\<rparr>"

record HubExt =
  ext_session_id :: "string option"
  ext_session_name :: "string option"
  ext_cli_session_id :: "string option"
  ext_a2a_call_id :: "string option"
  ext_a2a_depth :: "nat option"
  ext_usage :: "json option"

definition HubExt_default :: HubExt where
  "HubExt_default = \<lparr>ext_session_id = None, ext_session_name = None, ext_cli_session_id = None,
     ext_a2a_call_id = None, ext_a2a_depth = None, ext_usage = None\<rparr>"

record WeixinMessage =
  seq :: "int option"
  message_id :: "int option"
  from_user_id :: "string option"
  to_user_id :: "string option"
  client_id :: "string option"
  create_time_ms :: "int option"
  update_time_ms :: "int option"
  session_id :: "string option"
  group_id :: "string option"
  message_type :: "int option"
  message_state :: "int option"
  item_list :: "MessageItem list option"
  context_token :: "string option"
  ilink_hub_ext :: "HubExt option"

definition WeixinMessage_default :: WeixinMessage where
  "WeixinMessage_default = \<lparr>seq = None, message_id = None, from_user_id = None,
     to_user_id = None, client_id = None, create_time_ms = None, update_time_ms = None,
     session_id = None, group_id = None, message_type = None, message_state = None,
     item_list = None, context_token = None, ilink_hub_ext = None\<rparr>"

lemmas type_defaults = MessageItem_default_def HubExt_default_def WeixinMessage_default_def

section \<open>Message accessors\<close>

definition item_text :: "MessageItem \<Rightarrow> string option" where
  "item_text it = Option.bind (text_item it) ti_text"

definition item_voice_text :: "MessageItem \<Rightarrow> string option" where
  "item_voice_text it = Option.bind (voice_item it) vi_text"

definition msg_text :: "WeixinMessage \<Rightarrow> string option" where
  "msg_text m = (case item_list m of None \<Rightarrow> None
     | Some items \<Rightarrow> opt_or (find_map item_text items) (find_map item_voice_text items))"

definition first_item_type :: "WeixinMessage \<Rightarrow> int option" where
  "first_item_type m = (case item_list m of None \<Rightarrow> None | Some [] \<Rightarrow> None
     | Some (it # _) \<Rightarrow> item_type it)"

definition has_content :: "WeixinMessage \<Rightarrow> bool" where
  "has_content m = (case item_list m of None \<Rightarrow> False | Some l \<Rightarrow> l \<noteq> [])"

definition has_media_content :: "WeixinMessage \<Rightarrow> bool" where
  "has_media_content m = (case item_list m of None \<Rightarrow> False
     | Some l \<Rightarrow> list_ex (\<lambda>it. item_type it \<noteq> Some msg_type_TEXT \<and> item_type it \<noteq> None) l)"

section \<open>Outbound messages\<close>

text \<open>
  \<open>new_outbound_msg_id\<close> on a clock reading in milliseconds and the value of the process counter;
  the second component is the counter after \<open>fetch_add\<close>.
\<close>

definition new_outbound_msg_id :: "u64 \<Rightarrow> u64 \<Rightarrow> int \<times> u64" where
  "new_outbound_msg_id millis counter =
     (let n = counter mod 1000000 in (sint (millis * 1000000 + n), counter + 1))"

definition new_client_id :: "string \<Rightarrow> string" where
  "new_client_id uuid = ''ilink-hub:'' @ uuid"

definition ensure_outbound :: "string \<Rightarrow> int \<Rightarrow> WeixinMessage \<Rightarrow> WeixinMessage" where
  "ensure_outbound uuid fresh_id m =
     (let m1 = m\<lparr>from_user_id := Some []\<rparr>;
          m2 = (if message_type m1 = None then m1\<lparr>message_type := Some 2\<rparr> else m1);
          m3 = (if message_state m2 = None then m2\<lparr>message_state := Some message_state_FINISH\<rparr> else m2);
          m4 = (if (case client_id m3 of None \<Rightarrow> True | Some s \<Rightarrow> s = [])
                then m3\<lparr>client_id := Some (new_client_id uuid)\<rparr> else m3)
      in if message_id m4 = None then m4\<lparr>message_id := Some fresh_id\<rparr> else m4)"

definition build_reply :: "string \<Rightarrow> int \<Rightarrow> string \<Rightarrow> MessageItem \<Rightarrow> WeixinMessage" where
  "build_reply uuid fresh_id ctx item = ensure_outbound uuid fresh_id
     (WeixinMessage_default\<lparr>context_token := Some ctx, message_type := Some 2,
        message_state := Some message_state_FINISH, from_user_id := Some [],
        client_id := Some (new_client_id uuid), item_list := Some [item]\<rparr>)"

definition build_text_reply :: "string \<Rightarrow> int \<Rightarrow> string \<Rightarrow> string \<Rightarrow> WeixinMessage" where
  "build_text_reply uuid fresh_id ctx t = build_reply uuid fresh_id ctx
     (MessageItem_default\<lparr>item_type := Some msg_type_TEXT, text_item := Some \<lparr>ti_text = Some t\<rparr>\<rparr>)"

definition build_image_reply :: "string \<Rightarrow> int \<Rightarrow> string \<Rightarrow> string \<Rightarrow> WeixinMessage" where
  "build_image_reply uuid fresh_id ctx media_id = build_reply uuid fresh_id ctx
     (MessageItem_default\<lparr>item_type := Some msg_type_IMAGE, image_item := Some
        \<lparr>img_media = None, img_thumb_media = None, img_mid_size = None, img_thumb_size = None,
         img_cdn_url = None, img_md5 = None, img_media_id = Some media_id\<rparr>\<rparr>)"

definition build_file_reply :: "string \<Rightarrow> int \<Rightarrow> string \<Rightarrow> string \<Rightarrow> string option \<Rightarrow> WeixinMessage" where
  "build_file_reply uuid fresh_id ctx media_id fname = build_reply uuid fresh_id ctx
     (MessageItem_default\<lparr>item_type := Some msg_type_FILE, file_item := Some
        \<lparr>file_file_name = fname, file_cdn_url = None, file_file_size = None, file_md5 = None,
         file_media_id = Some media_id\<rparr>\<rparr>)"

section \<open>Requests and responses\<close>

record GetUpdatesRequest =
  get_updates_buf :: string
  last_ack_id :: "int option"
  timeout :: "nat option"

definition ack_watermark :: "GetUpdatesRequest \<Rightarrow> nat option" where
  "ack_watermark r =
     (let from_buf = parse_u64 (trim (get_updates_buf r));
          from_field = (case last_ack_id r of None \<Rightarrow> None
                        | Some i \<Rightarrow> if 0 \<le> i then Some (nat i) else None)
      in case (from_buf, from_field) of
           (Some a, Some b) \<Rightarrow> Some (max a b)
         | (Some a, None) \<Rightarrow> Some a
         | (None, Some b) \<Rightarrow> Some b
         | (None, None) \<Rightarrow> None)"

record GetUpdatesResponse =
  gu_ret :: "int option"
  gu_errcode :: "int option"
  gu_errmsg :: "string option"
  gu_msgs :: "WeixinMessage list option"
  gu_buf :: "string option"

record SendMessageResponse =
  sm_ret :: "int option"
  sm_errmsg :: "string option"

definition SendMessageResponse_ok :: SendMessageResponse where
  "SendMessageResponse_ok = \<lparr>sm_ret = Some 0, sm_errmsg = None\<rparr>"

definition SendMessageResponse_err :: "int \<Rightarrow> string \<Rightarrow> SendMessageResponse" where
  "SendMessageResponse_err code msg = \<lparr>sm_ret = Some code, sm_errmsg = Some msg\<rparr>"

definition reply_text :: "string \<Rightarrow> int \<Rightarrow> string \<Rightarrow> string \<Rightarrow> string \<Rightarrow> string option \<Rightarrow> WeixinMessage" where
  "reply_text uuid fresh_id ctx t to cli =
     (let m = build_text_reply uuid fresh_id ctx t;
          m1 = (if to \<noteq> [] then m\<lparr>to_user_id := Some to\<rparr> else m)
      in if cli \<noteq> None then m1\<lparr>ilink_hub_ext := Some (HubExt_default\<lparr>ext_cli_session_id := cli\<rparr>)\<rparr>
         else m1)"

definition pack_client_version :: "32 word \<Rightarrow> 32 word \<Rightarrow> 32 word \<Rightarrow> 32 word" where
  "pack_client_version major minor patch =
     or (or (push_bit 16 (and major 0xff)) (push_bit 8 (and minor 0xff))) (and patch 0xff)"

section \<open>Lemmas\<close>

text \<open>A message that has passed \<open>ensure_outbound\<close> carries every field the upstream requires.\<close>

definition outbound_ready :: "WeixinMessage \<Rightarrow> bool" where
  "outbound_ready m \<longleftrightarrow> from_user_id m = Some [] \<and> message_type m \<noteq> None \<and> message_state m \<noteq> None
     \<and> message_id m \<noteq> None \<and> (case client_id m of None \<Rightarrow> False | Some s \<Rightarrow> s \<noteq> [])"

lemma ensure_outbound_ready: "outbound_ready (ensure_outbound uuid i m)"
  by (auto simp: ensure_outbound_def outbound_ready_def Let_def new_client_id_def split: option.split)

lemma ensure_outbound_id: "outbound_ready m \<Longrightarrow> ensure_outbound uuid i m = m"
  by (cases m) (auto simp: ensure_outbound_def outbound_ready_def Let_def split: option.splits)

lemma ensure_outbound_keeps [simp]:
  "item_list (ensure_outbound uuid i m) = item_list m"
  "context_token (ensure_outbound uuid i m) = context_token m"
  "to_user_id (ensure_outbound uuid i m) = to_user_id m"
  "ilink_hub_ext (ensure_outbound uuid i m) = ilink_hub_ext m"
  "session_id (ensure_outbound uuid i m) = session_id m"
  "group_id (ensure_outbound uuid i m) = group_id m"
  by (simp_all add: ensure_outbound_def Let_def)

lemma ensure_outbound_message_id [simp]:
  "message_id (ensure_outbound uuid i m) = Some (unwrap_or i (message_id m))"
  by (cases "message_id m") (simp_all add: ensure_outbound_def Let_def)

lemma msg_text_ensure [simp]: "msg_text (ensure_outbound uuid i m) = msg_text m"
  by (simp add: msg_text_def)

lemma msg_text_build [simp]: "msg_text (build_text_reply uuid i ctx t) = Some t"
  by (simp add: build_text_reply_def build_reply_def msg_text_def item_text_def type_defaults)

lemma build_reply_fields [simp]:
  "context_token (build_reply uuid i ctx it) = Some ctx"
  "item_list (build_reply uuid i ctx it) = Some [it]"
  "message_id (build_reply uuid i ctx it) = Some i"
  "to_user_id (build_reply uuid i ctx it) = None"
  "ilink_hub_ext (build_reply uuid i ctx it) = None"
  by (simp_all add: build_reply_def type_defaults)

lemma has_media_content_imp: "has_media_content m \<Longrightarrow> has_content m"
  by (auto simp: has_media_content_def has_content_def split: option.splits)

lemma text_reply_no_media: "\<not> has_media_content (build_text_reply uuid i ctx t)"
  by (simp add: has_media_content_def build_text_reply_def msg_consts)

lemma image_reply_media: "has_media_content (build_image_reply uuid i ctx mid)"
  by (simp add: has_media_content_def build_image_reply_def msg_consts)

text \<open>Generated ids do not overflow while the clock stays below \<open>i64::MAX / 10^6\<close> milliseconds.\<close>

lemma new_outbound_msg_id_value:
  assumes "unat millis < 9223372036854"
  shows "fst (new_outbound_msg_id millis counter) =
    int (unat millis * 1000000 + unat counter mod 1000000)"
proof -
  have c: "unat (counter mod 1000000) = unat counter mod 1000000"
    by (simp add: unat_mod)
  have lt: "unat millis * 1000000 + unat counter mod 1000000 < 2 ^ 63"
    using assms mod_less_divisor [of 1000000 "unat counter"] by simp
  have "unat (millis * 1000000) = unat millis * 1000000"
    using lt by (subst unat_mult_lem [THEN iffD1]) simp_all
  then have u: "unat (millis * 1000000 + counter mod 1000000) =
      unat millis * 1000000 + unat counter mod 1000000"
    using lt c by (subst unat_add_lem [THEN iffD1]) simp_all
  then show ?thesis using lt by (simp only: new_outbound_msg_id_def Let_def fst_conv sint_small)
qed

lemma ack_watermark_echo:
  "n < 2 ^ 64 \<Longrightarrow> get_updates_buf r = show_nat n \<Longrightarrow> last_ack_id r = None \<Longrightarrow> ack_watermark r = Some n"
  by (simp only: ack_watermark_def Let_def trim_show_nat parse_u64_show option.case prod.case)

lemma ack_watermark_bound:
  assumes "ack_watermark r = Some n" "\<And>i. last_ack_id r = Some i \<Longrightarrow> i < 2 ^ 63"
  shows "n < 2 ^ 64"
proof -
  have "m < 2 ^ 64" if "last_ack_id r = Some i" "0 \<le> i" "m = nat i" for i m
    using assms(2) [OF that(1)] that(2,3) by simp
  with assms(1) show ?thesis
    by (auto simp: ack_watermark_def Let_def max_def dest!: parse_u64_bound
        split: option.splits if_splits)
qed

lemma pack_client_version_fields:
  "take_bit 8 (drop_bit 16 (pack_client_version a b c)) = and a 0xff"
  "take_bit 8 (drop_bit 8 (pack_client_version a b c)) = and b 0xff"
  "take_bit 8 (pack_client_version a b c) = and c 0xff"
proof -
  have m: "(0xff :: 32 word) = mask 8" by (simp add: mask_eq_exp_minus_1)
  show "take_bit 8 (drop_bit 16 (pack_client_version a b c)) = and a 0xff"
    "take_bit 8 (drop_bit 8 (pack_client_version a b c)) = and b 0xff"
    "take_bit 8 (pack_client_version a b c) = and c 0xff"
    unfolding pack_client_version_def m
    by (rule bit_word_eqI; auto simp: bit_simps)+
qed

end
