(* ===== verification/Message_Queue.thy ===== *)
theory Message_Queue
  imports Ilink_Types
begin

text \<open>
  The per-client message queue of \<open>hub/queue.rs\<close>: the slot (buffer, delivery-id allocator and the
  wake-up permit of its \<open>Notify\<close>), the in-memory queue as a map of slots, and the contract of the
  \<open>MessageQueue\<close> trait as the locale \<open>delivery_queue\<close>, interpreted on the in-memory queue.  Delivery
  ids are 64-bit words handed out as \<open>i64\<close>, so the invariant bounds the allocator by \<open>2^63\<close>.
\<close>

section \<open>Slots\<close>

definition DEFAULT_MAX_QUEUE_SIZE :: nat where
  "DEFAULT_MAX_QUEUE_SIZE = 200"

record PollBatch =
  pb_msgs :: "WeixinMessage list"
  pb_cursor :: u64

definition PollBatch_default :: PollBatch where
  "PollBatch_default = \<lparr>pb_msgs = [], pb_cursor = 0\<rparr>"

definition batch_is_empty :: "PollBatch \<Rightarrow> bool" where
  "batch_is_empty b \<longleftrightarrow> pb_msgs b = []"

text \<open>
  \<open>permit\<close> and \<open>waiters\<close> are the state of tokio's \<open>Notify\<close>: \<open>notify_one\<close> wakes a waiting task or
  stores one permit for the next \<open>notified()\<close>.
\<close>

record PerClientSlot =
  messages :: "WeixinMessage list"
  next_seq :: u64
  permit :: bool
  waiters :: nat
  max_queue_size :: nat

definition PerClientSlot_new :: "nat \<Rightarrow> PerClientSlot" where
  "PerClientSlot_new limit = \<lparr>messages = [], next_seq = 1, permit = False, waiters = 0,
     max_queue_size = limit\<rparr>"

definition notify_one :: "PerClientSlot \<Rightarrow> PerClientSlot" where
  "notify_one s = (if waiters s > 0 then s\<lparr>waiters := waiters s - 1\<rparr> else s\<lparr>permit := True\<rparr>)"

definition slot_push :: "PerClientSlot \<Rightarrow> WeixinMessage \<Rightarrow> bool \<times> PerClientSlot" where
  "slot_push s m =
     (if length (messages s) \<ge> max_queue_size s then (True, s)
      else (False, notify_one (s\<lparr>messages := messages s @ [m\<lparr>seq := Some (sint (next_seq s))\<rparr>],
                                 next_seq := next_seq s + 1\<rparr>)))"

definition saturating_pred :: "u64 \<Rightarrow> u64" where
  "saturating_pred w = (if w = 0 then 0 else w - 1)"

definition acked :: "u64 \<Rightarrow> WeixinMessage \<Rightarrow> bool" where
  "acked watermark m = (case seq m of None \<Rightarrow> False
     | Some q \<Rightarrow> 0 \<le> q \<and> (word_of_int q :: u64) \<le> watermark)"

definition slot_poll :: "PerClientSlot \<Rightarrow> u64 option \<Rightarrow> PollBatch \<times> PerClientSlot" where
  "slot_poll s ack =
     (let allocated_max = saturating_pred (next_seq s);
          watermark = map_option (\<lambda>a. min a allocated_max) ack;
          msgs = (case watermark of None \<Rightarrow> messages s | Some w \<Rightarrow> dropWhile (acked w) (messages s));
          last_seq = (if msgs = [] then None else seq (last msgs));
          last_u64 = Option.bind last_seq (\<lambda>q. if 0 \<le> q then Some (word_of_int q) else None);
          cursor = unwrap_or allocated_max (opt_or last_u64 watermark)
      in (\<lparr>pb_msgs = msgs, pb_cursor = cursor\<rparr>, s\<lparr>messages := msgs\<rparr>))"

definition slot_len :: "PerClientSlot \<Rightarrow> nat" where
  "slot_len s = length (messages s)"

section \<open>The in-memory queue\<close>

record InMemoryQueue =
  slots :: "(vtoken, PerClientSlot) hmap"
  queue_limit :: nat

definition with_limit :: "nat \<Rightarrow> InMemoryQueue" where
  "with_limit n = \<lparr>slots = [], queue_limit = n\<rparr>"

definition InMemoryQueue_new :: InMemoryQueue where
  "InMemoryQueue_new = with_limit DEFAULT_MAX_QUEUE_SIZE"

definition get_or_create :: "InMemoryQueue \<Rightarrow> vtoken \<Rightarrow> PerClientSlot \<times> InMemoryQueue" where
  "get_or_create q v = (case map_of (slots q) v of Some s \<Rightarrow> (s, q)
     | None \<Rightarrow> (let s = PerClientSlot_new (queue_limit q)
               in (s, q\<lparr>slots := AList.update v s (slots q)\<rparr>)))"

definition queue_push :: "InMemoryQueue \<Rightarrow> vtoken \<Rightarrow> WeixinMessage \<Rightarrow> bool \<times> InMemoryQueue" where
  "queue_push q v m =
     (let (s, q1) = get_or_create q v; (rejected, s1) = slot_push s m
      in (rejected, q1\<lparr>slots := AList.update v s1 (slots q1)\<rparr>))"

definition queue_push_shared ::
  "InMemoryQueue \<Rightarrow> vtoken \<Rightarrow> WeixinMessage \<Rightarrow> string option \<Rightarrow> HubExt option \<Rightarrow> bool \<times> InMemoryQueue"
where
  "queue_push_shared q v base ctx ext =
     queue_push q v (base\<lparr>context_token := ctx, ilink_hub_ext := ext\<rparr>)"

definition queue_poll :: "InMemoryQueue \<Rightarrow> vtoken \<Rightarrow> u64 option \<Rightarrow> PollBatch \<times> InMemoryQueue" where
  "queue_poll q v ack = (case map_of (slots q) v of None \<Rightarrow> (PollBatch_default, q)
     | Some s \<Rightarrow> (let (b, s1) = slot_poll s ack in (b, q\<lparr>slots := AList.update v s1 (slots q)\<rparr>)))"

text \<open>
  \<open>wait_notify\<close> in two steps: entering takes a stored permit (the call returns at once) or registers
  a waiter; a waiter that a push does not wake leaves when its timeout fires.
\<close>

definition wait_enter :: "InMemoryQueue \<Rightarrow> vtoken \<Rightarrow> bool \<times> InMemoryQueue" where
  "wait_enter q v =
     (let (s, q1) = get_or_create q v
      in if permit s then (True, q1\<lparr>slots := AList.update v (s\<lparr>permit := False\<rparr>) (slots q1)\<rparr>)
         else (False, q1\<lparr>slots := AList.update v (s\<lparr>waiters := waiters s + 1\<rparr>) (slots q1)\<rparr>))"

definition wait_timeout :: "InMemoryQueue \<Rightarrow> vtoken \<Rightarrow> InMemoryQueue" where
  "wait_timeout q v = q\<lparr>slots := hm_modify v (\<lambda>s. s\<lparr>waiters := waiters s - 1\<rparr>) (slots q)\<rparr>"

definition remove_client :: "InMemoryQueue \<Rightarrow> vtoken \<Rightarrow> InMemoryQueue" where
  "remove_client q v = q\<lparr>slots := AList.delete v (slots q)\<rparr>"

definition queue_sizes :: "InMemoryQueue \<Rightarrow> (vtoken \<times> nat) list" where
  "queue_sizes q = map (\<lambda>(v, s). (v, slot_len s)) (slots q)"

text \<open>The calls of the trait as data, for statements about sequences of them.\<close>

datatype queue_op = OpPush vtoken WeixinMessage | OpPoll vtoken "u64 option"
  | OpWait vtoken | OpTimeout vtoken | OpRemove vtoken

fun queue_step :: "InMemoryQueue \<Rightarrow> queue_op \<Rightarrow> InMemoryQueue" where
  "queue_step q (OpPush v m) = snd (queue_push q v m)"
| "queue_step q (OpPoll v a) = snd (queue_poll q v a)"
| "queue_step q (OpWait v) = snd (wait_enter q v)"
| "queue_step q (OpTimeout v) = wait_timeout q v"
| "queue_step q (OpRemove v) = remove_client q v"

definition queue_run :: "InMemoryQueue \<Rightarrow> queue_op list \<Rightarrow> InMemoryQueue" where
  "queue_run q ops = foldl queue_step q ops"

definition pending :: "InMemoryQueue \<Rightarrow> vtoken \<Rightarrow> WeixinMessage list" where
  "pending q v = (case map_of (slots q) v of None \<Rightarrow> [] | Some s \<Rightarrow> messages s)"

text \<open>The number of ids a vtoken's slot has handed out.\<close>

definition allocated :: "InMemoryQueue \<Rightarrow> vtoken \<Rightarrow> nat" where
  "allocated q v = (case map_of (slots q) v of None \<Rightarrow> 0 | Some s \<Rightarrow> unat (next_seq s) - 1)"

section \<open>Contract of the queue trait\<close>

definition delivery_id :: "WeixinMessage \<Rightarrow> nat" where
  "delivery_id m = (case seq m of None \<Rightarrow> 0 | Some q \<Rightarrow> nat q)"

definition unacked :: "u64 option \<Rightarrow> WeixinMessage list \<Rightarrow> WeixinMessage list" where
  "unacked ack ms = (case ack of None \<Rightarrow> ms | Some a \<Rightarrow> filter (\<lambda>m. unat a < delivery_id m) ms)"

text \<open>
  What the documentation of \<open>MessageQueue\<close> promises: a rejected push changes nothing, an accepted
  one appends the message stamped with the next id, a poll retires exactly the acknowledged ids and
  returns all the others, the cursor covers the batch and never exceeds the allocated ids.
\<close>

locale delivery_queue =
  fixes inv :: "'q \<Rightarrow> bool"
    and pend :: "'q \<Rightarrow> vtoken \<Rightarrow> WeixinMessage list"
    and alloc :: "'q \<Rightarrow> vtoken \<Rightarrow> nat"
    and push :: "'q \<Rightarrow> vtoken \<Rightarrow> WeixinMessage \<Rightarrow> bool \<times> 'q"
    and poll :: "'q \<Rightarrow> vtoken \<Rightarrow> u64 option \<Rightarrow> PollBatch \<times> 'q"
  assumes push_rejected: "push q v m = (True, q') \<Longrightarrow> pend q' = pend q \<and> alloc q' = alloc q"
    and push_accepted: "\<lbrakk>inv q; alloc q v < 2 ^ 63 - 1; push q v m = (False, q')\<rbrakk> \<Longrightarrow>
      pend q' = (pend q)(v := pend q v @ [m\<lparr>seq := Some (int (Suc (alloc q v)))\<rparr>]) \<and>
      alloc q' = (alloc q)(v := Suc (alloc q v))"
    and push_inv: "\<lbrakk>inv q; alloc q v < 2 ^ 63 - 1\<rbrakk> \<Longrightarrow> inv (snd (push q v m))"
    and poll_batch: "inv q \<Longrightarrow> pb_msgs (fst (poll q v a)) = unacked a (pend q v)"
    and poll_pend: "inv q \<Longrightarrow> pend (snd (poll q v a)) = (pend q)(v := unacked a (pend q v))"
    and poll_alloc: "inv q \<Longrightarrow> alloc (snd (poll q v a)) = alloc q"
    and poll_inv: "inv q \<Longrightarrow> inv (snd (poll q v a))"
    and ids_ascend: "inv q \<Longrightarrow> sorted_wrt (<) (map delivery_id (pend q v))"
    and ids_bounded: "\<lbrakk>inv q; m \<in> set (pend q v)\<rbrakk> \<Longrightarrow> 1 \<le> delivery_id m \<and> delivery_id m \<le> alloc q v"
    and cursor_covers: "\<lbrakk>inv q; m \<in> set (pb_msgs (fst (poll q v a)))\<rbrakk> \<Longrightarrow>
      delivery_id m \<le> unat (pb_cursor (fst (poll q v a)))"
    and cursor_bounded: "inv q \<Longrightarrow> unat (pb_cursor (fst (poll q v a))) \<le> alloc q v"
begin

lemma redelivery: "inv q \<Longrightarrow> pb_msgs (fst (poll (snd (poll q v a)) v None)) = pb_msgs (fst (poll q v a))"
  by (simp add: poll_batch poll_inv poll_pend unacked_def)

lemma echo_retires_batch:
  assumes "inv q"
  shows "pb_msgs (fst (poll (snd (poll q v a)) v (Some (pb_cursor (fst (poll q v a)))))) = []"
  using assms cursor_covers [of q _ v a]
  by (auto simp: poll_batch poll_inv poll_pend unacked_def filter_empty_conv not_less)

lemma accepted_is_delivered_last:
  assumes "inv q" "alloc q v < 2 ^ 63 - 1" "push q v m = (False, q')"
  shows "pb_msgs (fst (poll q' v None)) = pend q v @ [m\<lparr>seq := Some (int (Suc (alloc q v)))\<rparr>]"
proof -
  have "inv q'" using push_inv [OF assms(1,2), of m] assms(3) by simp
  then show ?thesis using push_accepted [OF assms] by (simp add: poll_batch unacked_def)
qed

lemma retained_by_push:
  assumes "inv q" "alloc q u < 2 ^ 63 - 1" "m \<in> set (pend q v)"
  shows "m \<in> set (pend (snd (push q u m')) v)"
proof -
  obtain r q' where p: "push q u m' = (r, q')" by fastforce
  show ?thesis
    using push_rejected [of q u m' q'] push_accepted [of q u m' q'] assms p by (cases r) auto
qed

lemma retained_by_poll:
  assumes "inv q" "m \<in> set (pend q v)" "u = v \<Longrightarrow> (case a of None \<Rightarrow> True | Some w \<Rightarrow> unat w < delivery_id m)"
  shows "m \<in> set (pend (snd (poll q u a)) v)"
  using assms by (auto simp: poll_pend unacked_def split: option.splits)

lemma ids_distinct: "inv q \<Longrightarrow> distinct (map delivery_id (pend q v))"
  using ids_ascend [of q v] by (simp add: strict_sorted_iff)

end

section \<open>The invariant of slots\<close>

text \<open>Ids in a slot are consecutive and end just below the allocator.\<close>

definition slot_ok :: "PerClientSlot \<Rightarrow> bool" where
  "slot_ok s \<longleftrightarrow> unat (next_seq s) \<le> 2 ^ 63 \<and> length (messages s) < unat (next_seq s)
     \<and> length (messages s) \<le> max_queue_size s
     \<and> map seq (messages s) =
         map (Some \<circ> int) [unat (next_seq s) - length (messages s) ..< unat (next_seq s)]"

definition queue_ok :: "InMemoryQueue \<Rightarrow> bool" where
  "queue_ok q \<longleftrightarrow> hm_wf (slots q) \<and>
     (\<forall>v s. map_of (slots q) v = Some s \<longrightarrow> slot_ok s \<and> max_queue_size s = queue_limit q)"

lemma slot_ok_new: "slot_ok (PerClientSlot_new n)"
  by (simp add: slot_ok_def PerClientSlot_new_def)

lemma slot_ok_notify [simp]: "slot_ok (notify_one s) = slot_ok s"
  by (simp add: notify_one_def slot_ok_def)

lemma notify_one_fields [simp]:
  "messages (notify_one s) = messages s" "next_seq (notify_one s) = next_seq s"
  "max_queue_size (notify_one s) = max_queue_size s"
  by (simp_all add: notify_one_def)

lemma slot_ok_push:
  assumes "slot_ok s" "unat (next_seq s) < 2 ^ 63"
  shows "slot_ok (snd (slot_push s m))"
proof -
  have n: "unat (next_seq s + 1) = Suc (unat (next_seq s))" by (rule unat_Suc_small [OF assms(2)])
  have "sint (next_seq s) = int (unat (next_seq s))" by (rule sint_small [OF assms(2)])
  then show ?thesis using assms n
    by (simp add: slot_push_def slot_ok_def upt_Suc del: of_nat_unat)
qed

lemma delivery_id_Some: "seq m = Some (int i) \<Longrightarrow> delivery_id m = i"
  by (simp add: delivery_id_def)

lemma slot_ok_delivery_ids:
  assumes "slot_ok s"
  shows "map delivery_id (messages s) =
    [unat (next_seq s) - length (messages s) ..< unat (next_seq s)]"
proof -
  have "map delivery_id (messages s) = map (\<lambda>x. case x of None \<Rightarrow> 0 | Some q \<Rightarrow> nat q) (map seq (messages s))"
    by (simp add: delivery_id_def comp_def)
  also have "\<dots> = [unat (next_seq s) - length (messages s) ..< unat (next_seq s)]"
    using assms by (simp add: slot_ok_def comp_def)
  finally show ?thesis .
qed

lemma slot_ok_seq:
  assumes "slot_ok s" "m \<in> set (messages s)"
  shows "seq m = Some (int (delivery_id m))" "delivery_id m < unat (next_seq s)" "1 \<le> delivery_id m"
proof -
  have "map seq (messages s) =
      map (Some \<circ> int) [unat (next_seq s) - length (messages s) ..< unat (next_seq s)]"
    using assms(1) by (simp add: slot_ok_def)
  then have "seq m \<in> set (map (Some \<circ> int) [unat (next_seq s) - length (messages s) ..< unat (next_seq s)])"
    using assms(2) by (metis image_eqI set_map)
  then obtain i where i: "seq m = Some (int i)" "i < unat (next_seq s)"
      "unat (next_seq s) - length (messages s) \<le> i"
    by auto
  moreover from i(1) have "delivery_id m = i" by (rule delivery_id_Some)
  moreover have "length (messages s) < unat (next_seq s)" using assms(1) by (simp add: slot_ok_def)
  ultimately show "seq m = Some (int (delivery_id m))" "delivery_id m < unat (next_seq s)"
      "1 \<le> delivery_id m" by auto
qed

lemma word_of_nat_small_le: "i < 2 ^ 63 \<Longrightarrow> (word_of_nat i :: u64) \<le> w \<longleftrightarrow> i \<le> unat w"
proof -
  assume "i < 2 ^ 63"
  then have "unat (word_of_nat i :: u64) = i" by (simp add: unat_of_nat take_bit_nat_eq_self)
  then show ?thesis by (simp add: word_le_nat_alt)
qed

lemma acked_iff:
  assumes "slot_ok s" "m \<in> set (messages s)"
  shows "acked w m \<longleftrightarrow> delivery_id m \<le> unat w"
proof -
  have "delivery_id m < 2 ^ 63" using slot_ok_seq(2) [OF assms] assms(1) by (simp add: slot_ok_def)
  then show ?thesis using slot_ok_seq(1) [OF assms] by (simp add: acked_def word_of_nat_small_le)
qed

lemma dropWhile_upt_filter:
  "map f xs = [a ..< b] \<Longrightarrow> dropWhile (\<lambda>x. f x \<le> w) xs = filter (\<lambda>x. w < f x) xs"
proof (induction xs arbitrary: a)
  case Nil
  then show ?case by simp
next
  case (Cons x xs)
  from Cons.prems have "[a ..< b] = f x # map f xs" by simp
  then have ab: "f x = a" "map f xs = [Suc a ..< b]" by (auto simp: upt_eq_Cons_conv)
  have "\<forall>y \<in> set xs. Suc a \<le> f y" using arg_cong [OF ab(2), of set] by auto
  then have "a > w \<Longrightarrow> filter (\<lambda>x. w < f x) xs = xs" by (auto simp: filter_id_conv)
  with Cons.IH [OF ab(2)] ab(1) show ?case by auto
qed

lemma unat_saturating_pred: "unat (saturating_pred w) = unat w - 1"
  by (cases "w = 0") (simp_all add: saturating_pred_def unat_minus_one)

lemma unat_min: "unat (min a b :: u64) = min (unat a) (unat b)"
  by (simp add: min_def word_le_nat_alt)

text \<open>Clamping the acknowledgement does not change which queued messages it retires.\<close>

lemma slot_poll_messages:
  assumes "slot_ok s"
  shows "messages (snd (slot_poll s ack)) = unacked ack (messages s)"
proof (cases ack)
  case None
  then show ?thesis by (simp add: slot_poll_def unacked_def Let_def)
next
  case (Some a)
  let ?w = "min a (saturating_pred (next_seq s))"
  have "dropWhile (acked ?w) (messages s) = dropWhile (\<lambda>m. delivery_id m \<le> unat ?w) (messages s)"
    by (rule dropWhile_cong) (simp_all add: acked_iff [OF assms])
  also have "\<dots> = filter (\<lambda>m. unat ?w < delivery_id m) (messages s)"
    by (rule dropWhile_upt_filter [OF slot_ok_delivery_ids [OF assms]])
  also have "\<dots> = filter (\<lambda>m. unat a < delivery_id m) (messages s)"
    by (intro filter_cong refl)
      (drule slot_ok_seq(2) [OF assms], auto simp: unat_min unat_saturating_pred min_less_iff_disj)
  finally show ?thesis using Some by (simp add: slot_poll_def unacked_def Let_def)
qed

lemma slot_poll_batch: "pb_msgs (fst (slot_poll s ack)) = messages (snd (slot_poll s ack))"
  by (simp add: slot_poll_def Let_def)

lemma slot_poll_keeps:
  "next_seq (snd (slot_poll s ack)) = next_seq s" "max_queue_size (snd (slot_poll s ack)) = max_queue_size s"
  "permit (snd (slot_poll s ack)) = permit s" "waiters (snd (slot_poll s ack)) = waiters s"
  by (simp_all add: slot_poll_def Let_def)

lemma slot_poll_suffix: "\<exists>k. messages (snd (slot_poll s ack)) = drop k (messages s)"
proof (cases ack)
  case None
  then show ?thesis by (auto simp: slot_poll_def Let_def intro: exI [of _ 0])
next
  case (Some a)
  then show ?thesis
    by (auto simp: slot_poll_def Let_def dropWhile_eq_drop)
qed

lemma slot_ok_poll:
  assumes "slot_ok s"
  shows "slot_ok (snd (slot_poll s ack))"
proof -
  obtain k where k: "messages (snd (slot_poll s ack)) = drop k (messages s)"
    using slot_poll_suffix by blast
  have "map seq (drop k (messages s)) = drop k (map seq (messages s))" by (rule drop_map [symmetric])
  then show ?thesis using assms unfolding slot_ok_def slot_poll_keeps k
    by (cases "k \<le> length (messages s)") (auto simp: drop_map algebra_simps)
qed

lemma unat_of_small_id: "i < 2 ^ 63 \<Longrightarrow> unat (word_of_nat i :: u64) = i"
  by (simp add: unat_of_nat take_bit_nat_eq_self)

lemma slot_poll_cursor:
  assumes "slot_ok s"
  shows "unat (pb_cursor (fst (slot_poll s ack))) =
    (let ms = messages (snd (slot_poll s ack)); top = unat (next_seq s) - 1
     in if ms \<noteq> [] then delivery_id (last ms)
        else (case ack of None \<Rightarrow> top | Some a \<Rightarrow> min (unat a) top))"
proof (cases "messages (snd (slot_poll s ack)) = []")
  case True
  then show ?thesis
    by (auto simp: slot_poll_def Let_def unat_saturating_pred unat_min split: option.splits)
next
  case False
  let ?ms = "messages (snd (slot_poll s ack))"
  have ok: "slot_ok (snd (slot_poll s ack))" by (rule slot_ok_poll [OF assms])
  have l: "last ?ms \<in> set ?ms" using False by simp
  have sq: "seq (last ?ms) = Some (int (delivery_id (last ?ms)))" by (rule slot_ok_seq(1) [OF ok l])
  have "delivery_id (last ?ms) < 2 ^ 63"
    using slot_ok_seq(2) [OF ok l] assms by (simp add: slot_ok_def slot_poll_keeps)
  then have "unat (word_of_nat (delivery_id (last ?ms)) :: u64) = delivery_id (last ?ms)"
    by (rule unat_of_small_id)
  then show ?thesis using False sq by (simp add: slot_poll_def Let_def)
qed

lemma slot_ids_ascend: "slot_ok s \<Longrightarrow> sorted_wrt (<) (map delivery_id (messages s))"
  by (simp add: slot_ok_delivery_ids)

lemma last_id_max: "slot_ok s \<Longrightarrow> m \<in> set (messages s) \<Longrightarrow> delivery_id m \<le> delivery_id (last (messages s))"
proof -
  assume ok: "slot_ok s" and m: "m \<in> set (messages s)"
  then have "sorted (map delivery_id (messages s))" using slot_ids_ascend by (simp add: strict_sorted_iff)
  moreover have "messages s = butlast (messages s) @ [last (messages s)]" using m by (cases "messages s") auto
  ultimately have "sorted (map delivery_id (butlast (messages s) @ [last (messages s)]))" by simp
  moreover have "m \<in> set (butlast (messages s)) \<or> m = last (messages s)"
    using m by (metis append_butlast_last_id empty_iff empty_set in_set_conv_nth insert_iff list.set(2) Un_iff set_append)
  ultimately show ?thesis by (auto simp: sorted_append)
qed

section \<open>Queue operations keep the invariant\<close>

lemma queue_ok_new: "queue_ok (with_limit n)"
  by (simp add: queue_ok_def with_limit_def)

lemma queue_okD: "queue_ok q \<Longrightarrow> map_of (slots q) v = Some s \<Longrightarrow> slot_ok s \<and> max_queue_size s = queue_limit q"
  by (simp add: queue_ok_def)

lemma queue_ok_update:
  "queue_ok q \<Longrightarrow> slot_ok s \<Longrightarrow> max_queue_size s = queue_limit q \<Longrightarrow>
     queue_ok (q\<lparr>slots := AList.update v s (slots q)\<rparr>)"
  by (simp add: queue_ok_def wf_insert)

lemma PerClientSlot_new_fields [simp]:
  "messages (PerClientSlot_new n) = []" "next_seq (PerClientSlot_new n) = 1"
  "permit (PerClientSlot_new n) = False" "waiters (PerClientSlot_new n) = 0"
  "max_queue_size (PerClientSlot_new n) = n"
  by (simp_all add: PerClientSlot_new_def)

lemma view_update:
  "pending (q\<lparr>slots := AList.update v s (slots q)\<rparr>) = (pending q)(v := messages s)"
  "allocated (q\<lparr>slots := AList.update v s (slots q)\<rparr>) = (allocated q)(v := unat (next_seq s) - 1)"
  by (auto simp: pending_def allocated_def)

lemma view_same:
  "map_of (slots q) v = Some s \<Longrightarrow> pending q v = messages s \<and> allocated q v = unat (next_seq s) - 1"
  "map_of (slots q) v = None \<Longrightarrow> pending q v = [] \<and> allocated q v = 0"
  by (simp_all add: pending_def allocated_def)

lemma get_or_create_ok:
  "queue_ok q \<Longrightarrow> get_or_create q v = (s, q1) \<Longrightarrow> queue_ok q1 \<and> slot_ok s \<and> max_queue_size s = queue_limit q1"
  by (cases "map_of (slots q) v")
    (auto simp: get_or_create_def Let_def queue_ok_update slot_ok_new dest: queue_okD)

lemma get_or_create_view:
  "get_or_create q v = (s, q1) \<Longrightarrow> messages s = pending q v \<and> unat (next_seq s) - 1 = allocated q v
     \<and> pending q1 = pending q \<and> allocated q1 = allocated q"
  using view_same [of q v]
  by (cases "map_of (slots q) v")
    (auto simp: get_or_create_def Let_def view_update fun_upd_idem)

lemma slot_push_size: "max_queue_size (snd (slot_push s m)) = max_queue_size s"
  by (simp add: slot_push_def)

lemma next_seq_small:
  "slot_ok s \<Longrightarrow> unat (next_seq s) - 1 < 2 ^ 63 - 1 \<Longrightarrow> unat (next_seq s) < 2 ^ 63"
  by (auto simp: slot_ok_def)

lemma queue_ok_push:
  assumes "queue_ok q" "allocated q v < 2 ^ 63 - 1"
  shows "queue_ok (snd (queue_push q v m))"
proof -
  obtain s q1 where g: "get_or_create q v = (s, q1)" by fastforce
  from get_or_create_ok [OF assms(1) g] have ok: "queue_ok q1" "slot_ok s" "max_queue_size s = queue_limit q1"
    by simp_all
  have "unat (next_seq s) < 2 ^ 63"
    using next_seq_small [OF ok(2)] get_or_create_view [OF g] assms(2) by simp
  then have "slot_ok (snd (slot_push s m))" by (rule slot_ok_push [OF ok(2)])
  then show ?thesis using g ok slot_push_size [of s m]
    by (auto simp: queue_push_def Let_def intro!: queue_ok_update split: prod.splits)
qed

lemma queue_ok_poll:
  assumes "queue_ok q"
  shows "queue_ok (snd (queue_poll q v a))"
proof (cases "map_of (slots q) v")
  case None
  then show ?thesis using assms by (simp add: queue_poll_def)
next
  case (Some s)
  with assms have "slot_ok s" "max_queue_size s = queue_limit q" by (auto dest: queue_okD)
  then have "queue_ok (q\<lparr>slots := AList.update v (snd (slot_poll s a)) (slots q)\<rparr>)"
    using assms by (intro queue_ok_update slot_ok_poll) (simp_all add: slot_poll_keeps)
  then show ?thesis using Some by (simp add: queue_poll_def case_prod_beta)
qed

lemma slot_ok_wait: "slot_ok (s\<lparr>permit := b\<rparr>) = slot_ok s" "slot_ok (s\<lparr>waiters := k\<rparr>) = slot_ok s"
  by (simp_all add: slot_ok_def)

lemma queue_ok_wait:
  assumes "queue_ok q"
  shows "queue_ok (snd (wait_enter q v))"
proof -
  obtain s q1 where g: "get_or_create q v = (s, q1)" by fastforce
  from get_or_create_ok [OF assms g] have "queue_ok q1" "slot_ok s" "max_queue_size s = queue_limit q1"
    by simp_all
  then show ?thesis by (auto simp: wait_enter_def g slot_ok_wait intro!: queue_ok_update)
qed

lemma queue_ok_timeout: "queue_ok q \<Longrightarrow> queue_ok (wait_timeout q v)"
  by (auto simp: queue_ok_def wait_timeout_def slot_ok_wait split: if_splits)

lemma queue_ok_remove: "queue_ok q \<Longrightarrow> queue_ok (remove_client q v)"
  by (auto simp: queue_ok_def remove_client_def wf_remove split: if_splits)

lemma wait_keeps_messages:
  "pending (snd (wait_enter q v)) = pending q \<and> allocated (snd (wait_enter q v)) = allocated q"
proof -
  obtain s q1 where g: "get_or_create q v = (s, q1)" by fastforce
  from get_or_create_view [OF g] show ?thesis
    by (simp add: wait_enter_def g view_update fun_upd_idem)
qed

lemma timeout_keeps_messages:
  "pending (wait_timeout q v) = pending q" "allocated (wait_timeout q v) = allocated q"
  by (auto simp: wait_timeout_def pending_def allocated_def fun_eq_iff option.case_eq_if option.map_sel)

lemma remove_client_view:
  "pending (remove_client q v) = (pending q)(v := [])" "allocated (remove_client q v) = (allocated q)(v := 0)"
  by (auto simp: remove_client_def pending_def allocated_def fun_eq_iff)

lemma queue_poll_view:
  assumes "queue_ok q"
  shows "pending (snd (queue_poll q v a)) = (pending q)(v := unacked a (pending q v))"
    "allocated (snd (queue_poll q v a)) = allocated q"
    "pb_msgs (fst (queue_poll q v a)) = unacked a (pending q v)"
proof -
  have "pending (snd (queue_poll q v a)) = (pending q)(v := unacked a (pending q v)) \<and>
    allocated (snd (queue_poll q v a)) = allocated q \<and>
    pb_msgs (fst (queue_poll q v a)) = unacked a (pending q v)"
  proof (cases "map_of (slots q) v")
    case None
    then show ?thesis using view_same(2) [OF None]
      by (auto simp: queue_poll_def PollBatch_default_def unacked_def fun_upd_idem split: option.split)
  next
    case (Some s)
    with assms have ok: "slot_ok s" by (auto dest: queue_okD)
    show ?thesis using Some view_same(1) [OF Some] slot_poll_messages [OF ok, of a]
      by (simp add: queue_poll_def case_prod_beta view_update slot_poll_keeps slot_poll_batch fun_upd_idem)
  qed
  then show "pending (snd (queue_poll q v a)) = (pending q)(v := unacked a (pending q v))"
    "allocated (snd (queue_poll q v a)) = allocated q"
    "pb_msgs (fst (queue_poll q v a)) = unacked a (pending q v)" by simp_all
qed

lemma queue_push_rejected_view:
  assumes "queue_push q v m = (True, q')"
  shows "pending q' = pending q \<and> allocated q' = allocated q"
proof -
  obtain s q1 where g: "get_or_create q v = (s, q1)" by fastforce
  have "q' = q1\<lparr>slots := AList.update v s (slots q1)\<rparr>"
    using assms by (auto simp: queue_push_def g slot_push_def split: if_splits)
  with get_or_create_view [OF g] show ?thesis by (simp add: view_update fun_upd_idem)
qed

lemma queue_push_accepted_view:
  assumes "queue_ok q" "allocated q v < 2 ^ 63 - 1" "queue_push q v m = (False, q')"
  shows "pending q' = (pending q)(v := pending q v @ [m\<lparr>seq := Some (int (Suc (allocated q v)))\<rparr>]) \<and>
    allocated q' = (allocated q)(v := Suc (allocated q v))"
proof -
  obtain s q1 where g: "get_or_create q v = (s, q1)" by fastforce
  note vw = get_or_create_view [OF g]
  from get_or_create_ok [OF assms(1) g] have ok: "slot_ok s" by simp
  have small: "unat (next_seq s) < 2 ^ 63" using next_seq_small [OF ok] vw assms(2) by simp
  have pos: "unat (next_seq s) = Suc (allocated q v)" using vw ok by (auto simp: slot_ok_def)
  have "sint (next_seq s) = int (Suc (allocated q v))" using sint_small [OF small] pos by simp
  moreover have "unat (next_seq s + 1) = Suc (Suc (allocated q v))" using unat_Suc_small [OF small] pos by simp
  moreover have "q' = q1\<lparr>slots := AList.update v (snd (slot_push s m)) (slots q1)\<rparr>"
      "\<not> length (messages s) \<ge> max_queue_size s"
    using assms(3) by (auto simp: queue_push_def g slot_push_def split: if_splits)
  ultimately show ?thesis using vw by (simp add: slot_push_def view_update)
qed

lemma queue_cursor:
  assumes "queue_ok q"
  shows "m \<in> set (pb_msgs (fst (queue_poll q v a))) \<Longrightarrow>
      delivery_id m \<le> unat (pb_cursor (fst (queue_poll q v a)))"
    and "unat (pb_cursor (fst (queue_poll q v a))) \<le> allocated q v"
proof -
  have "(\<forall>m \<in> set (pb_msgs (fst (queue_poll q v a))). delivery_id m \<le> unat (pb_cursor (fst (queue_poll q v a))))
    \<and> unat (pb_cursor (fst (queue_poll q v a))) \<le> allocated q v"
  proof (cases "map_of (slots q) v")
    case None
    then show ?thesis by (simp add: queue_poll_def PollBatch_default_def)
  next
    case (Some s)
    with assms have ok: "slot_ok s" by (auto dest: queue_okD)
    let ?s' = "snd (slot_poll s a)"
    have ok': "slot_ok ?s'" by (rule slot_ok_poll [OF ok])
    have "messages ?s' \<noteq> [] \<Longrightarrow> delivery_id (last (messages ?s')) < unat (next_seq s)"
      using slot_ok_seq(2) [OF ok', of "last (messages ?s')"] by (simp add: slot_poll_keeps)
    then show ?thesis
      using Some view_same(1) [OF Some] slot_poll_cursor [OF ok, of a] last_id_max [OF ok']
      by (auto simp: queue_poll_def case_prod_beta slot_poll_batch Let_def split: option.splits)
  qed
  then show "m \<in> set (pb_msgs (fst (queue_poll q v a))) \<Longrightarrow>
      delivery_id m \<le> unat (pb_cursor (fst (queue_poll q v a)))"
    "unat (pb_cursor (fst (queue_poll q v a))) \<le> allocated q v" by blast+
qed

lemma queue_ids:
  assumes "queue_ok q"
  shows "sorted_wrt (<) (map delivery_id (pending q v))"
    and "m \<in> set (pending q v) \<Longrightarrow> 1 \<le> delivery_id m \<and> delivery_id m \<le> allocated q v"
proof -
  have "sorted_wrt (<) (map delivery_id (pending q v)) \<and>
    (\<forall>m \<in> set (pending q v). 1 \<le> delivery_id m \<and> delivery_id m \<le> allocated q v)"
  proof (cases "map_of (slots q) v")
    case None
    then show ?thesis by (simp add: view_same)
  next
    case (Some s)
    with assms have ok: "slot_ok s" by (auto dest: queue_okD)
    then show ?thesis using slot_ids_ascend [OF ok] slot_ok_seq(2,3) [OF ok]
      by (fastforce simp: view_same(1) [OF Some])
  qed
  then show "sorted_wrt (<) (map delivery_id (pending q v))"
    "m \<in> set (pending q v) \<Longrightarrow> 1 \<le> delivery_id m \<and> delivery_id m \<le> allocated q v" by blast+
qed

interpretation mq: delivery_queue queue_ok pending allocated queue_push queue_poll
  by unfold_locales
    (erule queue_push_rejected_view queue_push_accepted_view queue_ok_push queue_poll_view
       queue_ok_poll queue_cursor queue_ids; assumption)+

section \<open>Sequences of calls\<close>

fun op_vtoken :: "queue_op \<Rightarrow> vtoken" where
  "op_vtoken (OpPush v m) = v"
| "op_vtoken (OpPoll v a) = v"
| "op_vtoken (OpWait v) = v"
| "op_vtoken (OpTimeout v) = v"
| "op_vtoken (OpRemove v) = v"

text \<open>Every slot's allocator grows by at most one per call.\<close>

lemma step_allocated:
  assumes "queue_ok q" "\<And>u. allocated q u \<le> n" "n < 2 ^ 63 - 1"
  shows "queue_ok (queue_step q op) \<and> (\<forall>u. allocated (queue_step q op) u \<le> Suc n)"
proof (cases op)
  case (OpPush v m)
  have small: "allocated q v < 2 ^ 63 - 1" using assms(2) [of v] assms(3) by simp
  obtain r q' where p: "queue_push q v m = (r, q')" by fastforce
  have "allocated q' u \<le> Suc n" for u
    using queue_push_rejected_view [of q v m q'] queue_push_accepted_view [OF assms(1) small, of m q'] p
      assms(2) [of u] assms(2) [of v] by (cases r) auto
  then show ?thesis using queue_ok_push [OF assms(1) small, of m] OpPush p by simp
qed (use assms queue_ok_poll queue_ok_wait queue_ok_timeout queue_ok_remove in
    \<open>auto simp: queue_poll_view wait_keeps_messages timeout_keeps_messages remove_client_view le_SucI\<close>)

lemma run_ok:
  "queue_ok q \<Longrightarrow> (\<And>u. allocated q u \<le> n) \<Longrightarrow> n + length ops < 2 ^ 63 \<Longrightarrow>
     queue_ok (queue_run q ops) \<and> (\<forall>u. allocated (queue_run q ops) u \<le> n + length ops)"
proof (induction ops arbitrary: q n)
  case Nil
  then show ?case by (simp add: queue_run_def)
next
  case (Cons op ops)
  have "n < 2 ^ 63 - 1" using Cons.prems(3) by simp
  from step_allocated [OF Cons.prems(1,2) this, of op] have
    "queue_ok (queue_step q op)" "\<And>u. allocated (queue_step q op) u \<le> Suc n" by blast+
  from Cons.IH [OF this] Cons.prems(3) show ?case by (simp add: queue_run_def)
qed

text \<open>A call that may retire the message with delivery id \<open>i\<close> of \<open>v\<close>.\<close>

fun may_retire :: "vtoken \<Rightarrow> nat \<Rightarrow> queue_op \<Rightarrow> bool" where
  "may_retire v i (OpPoll u (Some a)) = (u = v \<and> i \<le> unat a)"
| "may_retire v i (OpRemove u) = (u = v)"
| "may_retire v i _ = False"

lemma step_retains:
  assumes "queue_ok q" "allocated q (op_vtoken op) < 2 ^ 63 - 1" "m \<in> set (pending q v)"
    "\<not> may_retire v (delivery_id m) op"
  shows "m \<in> set (pending (queue_step q op) v)"
proof (cases op)
  case (OpPush u m')
  then show ?thesis using mq.retained_by_push [OF assms(1) _ assms(3)] assms(2) by simp
next
  case (OpPoll u a)
  then show ?thesis using mq.retained_by_poll [OF assms(1,3), of u a] assms(4)
    by (cases a) (auto simp: not_le)
next
  case (OpWait u)
  then show ?thesis using assms(3) by (simp add: wait_keeps_messages)
next
  case (OpTimeout u)
  then show ?thesis using assms(3) by (simp add: timeout_keeps_messages)
next
  case (OpRemove u)
  then show ?thesis using assms(3,4) by (simp add: remove_client_view)
qed

lemma run_retains:
  "queue_ok q \<Longrightarrow> (\<And>u. allocated q u \<le> n) \<Longrightarrow> n + length ops < 2 ^ 63 \<Longrightarrow> m \<in> set (pending q v) \<Longrightarrow>
     list_all (\<lambda>op. \<not> may_retire v (delivery_id m) op) ops \<Longrightarrow> m \<in> set (pending (queue_run q ops) v)"
proof (induction ops arbitrary: q n)
  case Nil
  then show ?case by (simp add: queue_run_def)
next
  case (Cons op ops)
  have n: "n < 2 ^ 63 - 1" using Cons.prems(3) by simp
  have "allocated q (op_vtoken op) < 2 ^ 63 - 1" using Cons.prems(2) [of "op_vtoken op"] n by linarith
  then have m: "m \<in> set (pending (queue_step q op) v)"
    using step_retains [OF Cons.prems(1) _ Cons.prems(4)] Cons.prems(5) by simp
  from step_allocated [OF Cons.prems(1,2) n, of op] have
    "queue_ok (queue_step q op)" "\<And>u. allocated (queue_step q op) u \<le> Suc n" by blast+
  from Cons.IH [OF this _ m] Cons.prems(3,5) show ?case by (simp add: queue_run_def)
qed

text \<open>Pushes append to what is pending, with ids above every id allocated before.\<close>

lemma pushes_append:
  "queue_ok q \<Longrightarrow> allocated q v + length ms < 2 ^ 63 - 1 \<Longrightarrow>
     queue_ok (queue_run q (map (OpPush v) ms)) \<and>
     (\<exists>zs. pending (queue_run q (map (OpPush v) ms)) v = pending q v @ zs \<and>
           (\<forall>z \<in> set zs. allocated q v < delivery_id z))"
proof (induction ms arbitrary: q)
  case Nil
  then show ?case by (simp add: queue_run_def)
next
  case (Cons m ms)
  obtain r q2 where p: "queue_push q v m = (r, q2)" by fastforce
  have small: "allocated q v < 2 ^ 63 - 1" using Cons.prems(2) by simp
  have ok2: "queue_ok q2" using queue_ok_push [OF Cons.prems(1) small, of m] p by simp
  have run: "queue_run q (map (OpPush v) (m # ms)) = queue_run q2 (map (OpPush v) ms)"
    using p by (simp add: queue_run_def)
  show ?case
  proof (cases r)
    case True
    with p have "pending q2 = pending q \<and> allocated q2 = allocated q"
      using queue_push_rejected_view by simp
    then show ?thesis using Cons.IH [OF ok2] Cons.prems(2) unfolding run by simp
  next
    case False
    let ?m = "m\<lparr>seq := Some (int (Suc (allocated q v)))\<rparr>"
    have view: "pending q2 v = pending q v @ [?m]" "allocated q2 v = Suc (allocated q v)"
      using queue_push_accepted_view [OF Cons.prems(1) small, of m q2] False p by simp_all
    then obtain zs where z: "queue_ok (queue_run q2 (map (OpPush v) ms))"
        "pending (queue_run q2 (map (OpPush v) ms)) v = pending q2 v @ zs"
        "\<forall>z \<in> set zs. allocated q2 v < delivery_id z"
      using Cons.IH [OF ok2] Cons.prems(2) by auto
    have "delivery_id ?m = Suc (allocated q v)" by (simp add: delivery_id_def)
    then have "pending (queue_run q2 (map (OpPush v) ms)) v = pending q v @ (?m # zs)"
        "\<forall>z \<in> set (?m # zs). allocated q v < delivery_id z"
      using z view by auto
    then show ?thesis unfolding run using z(1) by blast
  qed
qed

text \<open>Echoing the cursor retires exactly the batch it came with: after further pushes, the next batch is what was
  pushed in between.\<close>

lemma queue_echo_exact:
  assumes "queue_ok q" "allocated q v + length ms < 2 ^ 63 - 1"
  shows "pb_msgs (fst (queue_poll (queue_run (snd (queue_poll q v a)) (map (OpPush v) ms)) v
             (Some (pb_cursor (fst (queue_poll q v a)))))) =
         drop (length (pb_msgs (fst (queue_poll q v a))))
           (pending (queue_run (snd (queue_poll q v a)) (map (OpPush v) ms)) v)"
proof -
  let ?c = "pb_cursor (fst (queue_poll q v a))" and ?q1 = "snd (queue_poll q v a)"
  have "allocated ?q1 v + length ms < 2 ^ 63 - 1" using assms by (simp add: queue_poll_view)
  from pushes_append [OF queue_ok_poll [OF assms(1)] this] obtain zs where
    z: "pending (queue_run ?q1 (map (OpPush v) ms)) v = pending ?q1 v @ zs"
      "\<forall>m \<in> set zs. allocated ?q1 v < delivery_id m" "queue_ok (queue_run ?q1 (map (OpPush v) ms))"
    by blast
  have "filter (\<lambda>m. unat ?c < delivery_id m) (pending ?q1 v) = []"
    using queue_cursor(1) [OF assms(1), of _ v a]
    by (auto simp: queue_poll_view [OF assms(1)] filter_empty_conv not_less)
  moreover have "filter (\<lambda>m. unat ?c < delivery_id m) zs = zs"
    using z(2) queue_cursor(2) [OF assms(1), of v a]
    by (fastforce simp: filter_id_conv queue_poll_view(2) [OF assms(1)])
  ultimately show ?thesis using z(1)
    by (simp add: queue_poll_view [OF z(3)] unacked_def queue_poll_view(1,3) [OF assms(1)])
qed

section \<open>Properties\<close>

text \<open>C8: At-least-once delivery.  Starting from an empty queue and after any calls, a message that a
  push accepts is stamped with the next delivery id, and every later poll by its client that has not
  acknowledged that id returns it, whatever pushes, polls, waits and timeouts (of this or other
  clients) happen in between, as long as the client is not removed.\<close>

theorem queue_at_least_once:
  assumes "Suc (length ops1 + length ops2) < 2 ^ 63"
    and "queue_push (queue_run (with_limit n) ops1) v m = (False, q)"
    and "i = Suc (allocated (queue_run (with_limit n) ops1) v)"
    and "list_all (\<lambda>op. \<not> may_retire v i op) ops2"
    and "\<not> may_retire v i (OpPoll v a)"
  shows "m\<lparr>seq := Some (int i)\<rparr> \<in> set (pb_msgs (fst (queue_poll (queue_run q ops2) v a)))"
proof -
  let ?q0 = "queue_run (with_limit n) ops1" and ?m = "m\<lparr>seq := Some (int i)\<rparr>"
  have a0: "allocated (with_limit n) u \<le> 0" for u by (simp add: allocated_def with_limit_def)
  have r: "queue_ok ?q0" "\<And>u. allocated ?q0 u \<le> length ops1"
    using run_ok [OF queue_ok_new a0, of ops1] assms(1) by auto
  have small: "allocated ?q0 v < 2 ^ 63 - 1" using r(2) [of v] assms(1) by simp
  have st: "queue_ok q" "\<And>u. allocated q u \<le> Suc (length ops1)"
    using step_allocated [OF r, of "OpPush v m"] assms(1,2) by auto
  have d: "delivery_id ?m = i" by (simp add: delivery_id_def)
  have "?m \<in> set (pending q v)"
    using queue_push_accepted_view [OF r(1) small assms(2)] assms(3) by simp
  then have p: "?m \<in> set (pending (queue_run q ops2) v)"
    using run_retains [OF st, of ops2 ?m v] assms(1,4) d by simp
  have "queue_ok (queue_run q ops2)" using run_ok [OF st, of ops2] assms(1) by simp
  with p assms(5) d show ?thesis
    by (cases a) (simp_all add: queue_poll_view unacked_def not_le)
qed

theorem queue_at_least_once_witness:
  "WeixinMessage_default\<lparr>seq := Some 2\<rparr> \<in> set (pb_msgs (fst (queue_poll
     (queue_run (snd (queue_push (queue_run (with_limit 3) [OpPush ''a'' WeixinMessage_default, OpWait ''b'']) ''a''
        WeixinMessage_default)) [OpPoll ''a'' (Some 1), OpPush ''b'' WeixinMessage_default]) ''a'' None)))"
proof -
  let ?ops = "[OpPush ''a'' WeixinMessage_default, OpWait ''b'']"
  have 1: "Suc (length ?ops + length [OpPoll ''a'' (Some 1), OpPush ''b'' WeixinMessage_default]) < 2 ^ 63"
    by simp
  have 2: "queue_push (queue_run (with_limit 3) ?ops) ''a'' WeixinMessage_default =
      (False, snd (queue_push (queue_run (with_limit 3) ?ops) ''a'' WeixinMessage_default))"
    by code_simp
  have 3: "2 = Suc (allocated (queue_run (with_limit 3) ?ops) ''a'')" by code_simp
  have 4: "list_all (\<lambda>op. \<not> may_retire ''a'' 2 op)
      [OpPoll ''a'' (Some 1), OpPush ''b'' WeixinMessage_default]" by simp
  have 5: "\<not> may_retire ''a'' 2 (OpPoll ''a'' None)" by simp
  show ?thesis using queue_at_least_once [OF 1 2 3 4 5] by (simp only: of_nat_numeral)
qed

text \<open>Whatever calls are made on a fresh queue, each client's buffer stays within the configured
  limit, and the delivery ids in it are consecutive and end at the number of messages accepted so
  far: ids are never reused, never skipped and never reordered.\<close>

theorem queue_run_ids_consecutive:
  assumes "length ops < 2 ^ 63"
  shows "let q = queue_run (with_limit n) ops; k = length (pending q v)
    in k \<le> n \<and> k \<le> allocated q v \<and>
       map seq (pending q v) = map (Some \<circ> int) [Suc (allocated q v) - k ..< Suc (allocated q v)]"
proof -
  let ?q = "queue_run (with_limit n) ops"
  have "allocated (with_limit n) u \<le> 0" for u by (simp add: allocated_def with_limit_def)
  from run_ok [OF queue_ok_new this, of ops] assms have ok: "queue_ok ?q" by simp
  have lim: "queue_limit (queue_run q ops) = queue_limit q" for q
  proof (induction ops arbitrary: q)
    case (Cons op ops)
    have "queue_limit (queue_step q op) = queue_limit q"
      by (cases op) (auto simp: queue_push_def queue_poll_def wait_enter_def wait_timeout_def
          remove_client_def get_or_create_def Let_def split: option.split prod.split)
    with Cons.IH show ?case by (simp add: queue_run_def)
  qed (simp add: queue_run_def)
  show ?thesis
  proof (cases "map_of (slots ?q) v")
    case None
    then show ?thesis by (simp add: view_same)
  next
    case (Some s)
    with ok lim have s: "slot_ok s" "max_queue_size s = n"
      by (auto dest!: queue_okD simp: with_limit_def)
    then have a: "Suc (allocated ?q v) = unat (next_seq s)"
      by (auto simp: slot_ok_def view_same(1) [OF Some])
    have "length (messages s) < Suc (allocated ?q v)" using s(1) unfolding a by (simp add: slot_ok_def)
    then show ?thesis using s unfolding Let_def a by (simp add: slot_ok_def view_same(1) [OF Some])
  qed
qed

theorem queue_run_ids_consecutive_witness:
  "let q = queue_run (with_limit 2) [OpPush ''a'' WeixinMessage_default, OpPush ''a'' WeixinMessage_default,
       OpPoll ''a'' (Some 1), OpPush ''a'' WeixinMessage_default]; k = length (pending q ''a'')
    in k = 2 \<and> k \<le> allocated q ''a'' \<and>
       map seq (pending q ''a'') = map (Some \<circ> int) [Suc (allocated q ''a'') - k ..< Suc (allocated q ''a'')]"
proof -
  let ?ops = "[OpPush ''a'' WeixinMessage_default, OpPush ''a'' WeixinMessage_default,
       OpPoll ''a'' (Some 1), OpPush ''a'' WeixinMessage_default]"
  have 1: "length ?ops < 2 ^ 63" by simp
  have 2: "length (pending (queue_run (with_limit 2) ?ops) ''a'') = 2" by code_simp
  show ?thesis using queue_run_ids_consecutive [OF 1, of 2 "''a''"] 2 by (simp only: Let_def simp_thms)
qed

text \<open>Clients do not interfere: calls for other vtokens leave a client's pending messages, its id
  allocator and the batch and cursor its next poll returns unchanged.\<close>

theorem queue_isolation:
  assumes "list_all (\<lambda>op. op_vtoken op \<noteq> v) ops"
  shows "map_of (slots (queue_run q ops)) v = map_of (slots q) v \<and>
    fst (queue_poll (queue_run q ops) v a) = fst (queue_poll q v a)"
proof -
  have "map_of (slots (queue_run q ops)) v = map_of (slots q) v"
    using assms
  proof (induction ops arbitrary: q)
    case (Cons op ops)
    have "map_of (slots (queue_step q op)) v = map_of (slots q) v"
      using Cons.prems by (cases op) (auto simp: queue_push_def queue_poll_def wait_enter_def
          wait_timeout_def remove_client_def get_or_create_def Let_def split: option.split prod.split)
    with Cons show ?case by (simp add: queue_run_def)
  qed (simp add: queue_run_def)
  then show ?thesis by (simp add: queue_poll_def split: option.split prod.split)
qed

theorem queue_isolation_witness:
  "fst (queue_poll (queue_run (queue_run (with_limit 1) [OpPush ''a'' WeixinMessage_default])
      [OpPush ''b'' WeixinMessage_default, OpRemove ''b'']) ''a'' None)
   = \<lparr>pb_msgs = [WeixinMessage_default\<lparr>seq := Some 1\<rparr>], pb_cursor = 1\<rparr>"
proof -
  let ?q = "queue_run (with_limit 1) [OpPush ''a'' WeixinMessage_default]"
  have 1: "list_all (\<lambda>op. op_vtoken op \<noteq> ''a'') [OpPush ''b'' WeixinMessage_default, OpRemove ''b'']"
    by simp
  have 2: "fst (queue_poll ?q ''a'' None)
      = \<lparr>pb_msgs = [WeixinMessage_default\<lparr>seq := Some 1\<rparr>], pb_cursor = 1\<rparr>" by code_simp
  show ?thesis using queue_isolation [OF 1, of ?q None] 2 by simp
qed



text \<open>The clamp bounds the acknowledgement by the allocated ids, not by the delivered ones.  After
  a client's slot is created afresh (hub restart or removal), the first message pushed to it is
  retired undelivered by any poll that still carries an old non-zero cursor.\<close>

theorem queue_stale_cursor_drops_undelivered:
  assumes "map_of (slots q) v = None" "queue_push q v m = (False, q1)" "a \<noteq> 0"
  shows "pb_msgs (fst (queue_poll q1 v (Some a))) = [] \<and> pending (snd (queue_poll q1 v (Some a))) v = []"
proof -
  have "1 \<le> a" using assms(3) by (metis word_gt_0 inc_le add_0)
  then show ?thesis using assms(1,2)
    by (auto simp: queue_push_def get_or_create_def slot_push_def notify_one_def queue_poll_def Let_def
        slot_poll_def acked_def saturating_pred_def pending_def split: if_splits)
qed

theorem queue_stale_cursor_drops_undelivered_witness:
  "pb_msgs (fst (queue_poll (snd (queue_push (remove_client (queue_run (with_limit 5)
      [OpPush ''a'' WeixinMessage_default]) ''a'') ''a'' WeixinMessage_default)) ''a'' (Some 7))) = []"
proof -
  let ?q = "remove_client (queue_run (with_limit 5) [OpPush ''a'' WeixinMessage_default]) ''a''"
  have 1: "map_of (slots ?q) ''a'' = None" by (simp add: remove_client_def)
  have 2: "queue_push ?q ''a'' WeixinMessage_default =
      (False, snd (queue_push ?q ''a'' WeixinMessage_default))" by code_simp
  have 3: "(7 :: u64) \<noteq> 0" by simp
  show ?thesis using queue_stale_cursor_drops_undelivered [OF 1 2 3] by simp
qed

end
