(* ===== verification/Agent_Acl.thy ===== *)
theory Agent_Acl
  imports Rust_Str
begin

text \<open>
  The agent allowlist of \<open>hub/acl.rs\<close>: the parser of the comma-separated specification, the
  agent-to-agent (A2A) check, the A2A visibility set and the WeChat visibility set.  The reference
  semantics of a specification is \<open>classify\<close>, which says what one entry means; the lemmas relate
  the parser and its queries to it.
\<close>

section \<open>The code\<close>

definition WILDCARD :: string where
  "WILDCARD = ''*''"

record AgentAcl =
  a2a :: "(string, string set) hmap"
  wechat_users :: "(string, string set) hmap"
  wechat_public :: "string set"
  spec_present :: bool

definition AgentAcl_default :: AgentAcl where
  "AgentAcl_default = \<lparr>a2a = [], wechat_users = [], wechat_public = {}, spec_present = False\<rparr>"

text \<open>\<open>map.entry(k).or_default().insert(v)\<close>\<close>

definition entry_insert :: "string \<Rightarrow> string \<Rightarrow> (string, string set) hmap \<Rightarrow> (string, string set) hmap" where
  "entry_insert k v m = AList.update k (insert v (unwrap_or {} (map_of m k))) m"

definition acl_entry :: "AgentAcl \<Rightarrow> string \<Rightarrow> AgentAcl" where
  "acl_entry acl raw =
     (let entry = trim raw in
      if entry = [] then acl
      else let acl = acl\<lparr>spec_present := True\<rparr> in
        (case split_once ''->'' entry of
           Some (l, r) \<Rightarrow>
             (let lhs = trim l; rhs = trim r in
              if lhs = [] \<or> rhs = [] then acl
              else (case strip_prefix lhs ''user:'' of
                  Some u \<Rightarrow> (let uid = trim u in
                     if uid = [] \<or> uid = WILDCARD \<or> rhs = WILDCARD then acl
                     else acl\<lparr>wechat_users := entry_insert uid rhs (wechat_users acl)\<rparr>)
                | None \<Rightarrow> acl\<lparr>a2a := entry_insert lhs rhs (a2a acl)\<rparr>))
         | None \<Rightarrow>
             (if entry = WILDCARD then acl\<lparr>a2a := entry_insert WILDCARD WILDCARD (a2a acl)\<rparr>
              else if strip_prefix entry ''user:'' \<noteq> None then acl
              else acl\<lparr>wechat_public := insert entry (wechat_public acl)\<rparr>)))"

definition acl_parse :: "string \<Rightarrow> AgentAcl" where
  "acl_parse spec = foldl acl_entry AgentAcl_default (split_char CHR '','' spec)"

definition acl_from_env :: "string option \<Rightarrow> AgentAcl" where
  "acl_from_env env = (case env of
     Some spec \<Rightarrow> if trim spec \<noteq> [] then acl_parse spec else AgentAcl_default
   | None \<Rightarrow> AgentAcl_default)"

definition acl_is_configured :: "AgentAcl \<Rightarrow> bool" where
  "acl_is_configured acl = spec_present acl"

definition a2a_edge_count :: "AgentAcl \<Rightarrow> nat" where
  "a2a_edge_count acl = sum_list (map (card \<circ> snd) (a2a acl))"

definition wechat_entry_count :: "AgentAcl \<Rightarrow> nat" where
  "wechat_entry_count acl = card (wechat_public acl) + sum_list (map (card \<circ> snd) (wechat_users acl))"

definition allows_a2a :: "AgentAcl \<Rightarrow> string \<Rightarrow> string \<Rightarrow> bool" where
  "allows_a2a acl caller target =
     (let grants = (\<lambda>ts. target \<in> ts \<or> WILDCARD \<in> ts);
          some_and = (\<lambda>x. case x of None \<Rightarrow> False | Some ts \<Rightarrow> grants ts)
      in some_and (map_of (a2a acl) caller) \<or> some_and (map_of (a2a acl) WILDCARD))"

definition visible_targets_for_agent :: "AgentAcl \<Rightarrow> string \<Rightarrow> string set option" where
  "visible_targets_for_agent acl caller =
     (let add = (\<lambda>vis key. case vis of None \<Rightarrow> None
           | Some vs \<Rightarrow> (case map_of (a2a acl) key of None \<Rightarrow> Some vs
                | Some ts \<Rightarrow> if WILDCARD \<in> ts then None else Some (vs \<union> ts)))
      in foldl add (Some {}) [caller, WILDCARD])"

definition wechat_visible :: "AgentAcl \<Rightarrow> string \<Rightarrow> string list \<Rightarrow> string set option" where
  "wechat_visible acl uid registered =
     (if wechat_public acl = {} \<and> wechat_users acl = [] then None
      else Some (Set.filter (\<lambda>n. list_ex (\<lambda>r. r = n) registered)
                   (wechat_public acl \<union> unwrap_or {} (map_of (wechat_users acl) uid))))"

section \<open>What one entry means\<close>

datatype acl_item = Ignored | A2aEdge string string | UserEdge string string | PublicBackend string

definition classify :: "string \<Rightarrow> acl_item" where
  "classify raw =
     (let entry = trim raw in
      case split_once ''->'' entry of
        Some (l, r) \<Rightarrow>
          if trim l = [] \<or> trim r = [] then Ignored
          else (case strip_prefix (trim l) ''user:'' of
              Some u \<Rightarrow> if trim u = [] \<or> trim u = WILDCARD \<or> trim r = WILDCARD then Ignored
                        else UserEdge (trim u) (trim r)
            | None \<Rightarrow> A2aEdge (trim l) (trim r))
      | None \<Rightarrow>
          if entry = [] then Ignored
          else if entry = WILDCARD then A2aEdge WILDCARD WILDCARD
          else if strip_prefix entry ''user:'' \<noteq> None then Ignored
          else PublicBackend entry)"

definition spec_items :: "string \<Rightarrow> acl_item list" where
  "spec_items spec = map classify (split_char CHR '','' spec)"

section \<open>Lemmas\<close>

lemma map_of_entry_insert [simp]:
  "map_of (entry_insert k v m) x =
     (if x = k then Some (insert v (unwrap_or {} (map_of m k))) else map_of m x)"
  by (simp add: entry_insert_def)

definition edge_in :: "(string, string set) hmap \<Rightarrow> string \<Rightarrow> string \<Rightarrow> bool" where
  "edge_in m k v \<longleftrightarrow> (\<exists>s. map_of m k = Some s \<and> v \<in> s)"

lemma edge_in_insert: "edge_in (entry_insert k v m) a b \<longleftrightarrow> edge_in m a b \<or> a = k \<and> b = v"
  by (cases "map_of m k") (auto simp: edge_in_def)

lemma edge_in_Nil [simp]: "\<not> edge_in [] a b"
  by (simp add: edge_in_def)

lemma acl_entry_classify:
  "acl_entry acl e =
     (let acl' = (if trim e = [] then acl else acl\<lparr>spec_present := True\<rparr>) in
      case classify e of Ignored \<Rightarrow> acl'
      | A2aEdge c t \<Rightarrow> acl'\<lparr>a2a := entry_insert c t (a2a acl)\<rparr>
      | UserEdge u b \<Rightarrow> acl'\<lparr>wechat_users := entry_insert u b (wechat_users acl)\<rparr>
      | PublicBackend b \<Rightarrow> acl'\<lparr>wechat_public := insert b (wechat_public acl)\<rparr>)"
proof (cases "trim e = []")
  case True
  then show ?thesis by (simp add: acl_entry_def classify_def Let_def)
next
  case False
  then show ?thesis
    by (cases "split_once ''->'' (trim e)") (auto simp: acl_entry_def classify_def Let_def split: option.split)
qed

lemma entry_insert_nonempty [simp]: "entry_insert k v m \<noteq> []"
  by (cases m) (auto simp: entry_insert_def)

lemma entry_a2a:
  "edge_in (a2a (acl_entry acl e)) c t \<longleftrightarrow> edge_in (a2a acl) c t \<or> A2aEdge c t = classify e"
  by (cases "classify e") (simp_all add: acl_entry_classify Let_def edge_in_insert)

lemma entry_users:
  "edge_in (wechat_users (acl_entry acl e)) u b \<longleftrightarrow> edge_in (wechat_users acl) u b \<or> UserEdge u b = classify e"
  by (cases "classify e") (simp_all add: acl_entry_classify Let_def edge_in_insert)

lemma entry_public:
  "b \<in> wechat_public (acl_entry acl e) \<longleftrightarrow> b \<in> wechat_public acl \<or> PublicBackend b = classify e"
  by (cases "classify e") (auto simp add: acl_entry_classify Let_def)

lemma entry_no_users:
  "wechat_users (acl_entry acl e) = [] \<longleftrightarrow> wechat_users acl = [] \<and> (\<forall>u b. UserEdge u b \<noteq> classify e)"
  by (cases "classify e") (simp_all add: acl_entry_classify Let_def)

lemma acl_parse_items:
  "edge_in (a2a (acl_parse spec)) c t \<longleftrightarrow> A2aEdge c t \<in> set (spec_items spec)"
  "edge_in (wechat_users (acl_parse spec)) u b \<longleftrightarrow> UserEdge u b \<in> set (spec_items spec)"
  "b \<in> wechat_public (acl_parse spec) \<longleftrightarrow> PublicBackend b \<in> set (spec_items spec)"
  "wechat_users (acl_parse spec) = [] \<longleftrightarrow> (\<forall>u b. UserEdge u b \<notin> set (spec_items spec))"
proof -
  have "edge_in (a2a (foldl acl_entry acl es)) c t \<longleftrightarrow> edge_in (a2a acl) c t \<or> A2aEdge c t \<in> classify ` set es"
    for acl es by (induction es arbitrary: acl) (simp_all add: entry_a2a disj_assoc)
  then show "edge_in (a2a (acl_parse spec)) c t \<longleftrightarrow> A2aEdge c t \<in> set (spec_items spec)"
    by (simp add: acl_parse_def AgentAcl_default_def spec_items_def)
  have "edge_in (wechat_users (foldl acl_entry acl es)) u b \<longleftrightarrow>
      edge_in (wechat_users acl) u b \<or> UserEdge u b \<in> classify ` set es"
    for acl es by (induction es arbitrary: acl) (simp_all add: entry_users disj_assoc)
  then show "edge_in (wechat_users (acl_parse spec)) u b \<longleftrightarrow> UserEdge u b \<in> set (spec_items spec)"
    by (simp add: acl_parse_def AgentAcl_default_def spec_items_def)
  have "b \<in> wechat_public (foldl acl_entry acl es) \<longleftrightarrow> b \<in> wechat_public acl \<or> PublicBackend b \<in> classify ` set es"
    for acl es by (induction es arbitrary: acl) (simp_all add: entry_public disj_assoc)
  then show "b \<in> wechat_public (acl_parse spec) \<longleftrightarrow> PublicBackend b \<in> set (spec_items spec)"
    by (simp add: acl_parse_def AgentAcl_default_def spec_items_def)
  have "wechat_users (foldl acl_entry acl es) = [] \<longleftrightarrow>
      wechat_users acl = [] \<and> (\<forall>u b. UserEdge u b \<notin> classify ` set es)"
    for acl es by (induction es arbitrary: acl) (simp_all add: entry_no_users conj_assoc all_conj_distrib)
  then show "wechat_users (acl_parse spec) = [] \<longleftrightarrow> (\<forall>u b. UserEdge u b \<notin> set (spec_items spec))"
    by (simp add: acl_parse_def AgentAcl_default_def spec_items_def)
qed

lemma allows_a2a_edges:
  "allows_a2a acl c t \<longleftrightarrow> (\<exists>k \<in> {c, WILDCARD}. \<exists>v \<in> {t, WILDCARD}. edge_in (a2a acl) k v)"
  by (auto simp: allows_a2a_def Let_def edge_in_def split: option.splits)

lemma visible_targets_edges:
  "visible_targets_for_agent acl c =
     (if edge_in (a2a acl) c WILDCARD \<or> edge_in (a2a acl) WILDCARD WILDCARD then None
      else Some {t. edge_in (a2a acl) c t \<or> edge_in (a2a acl) WILDCARD t})"
  by (auto simp: visible_targets_for_agent_def Let_def edge_in_def split: option.split)

section \<open>Properties\<close>

text \<open>C29: The A2A check is default deny and grants exactly what the specification lists: a call is
  allowed if and only if some entry is an edge whose caller side is the caller or the wildcard and
  whose target side is the target or the wildcard.  Malformed entries are \<open>Ignored\<close> and grant nothing.\<close>

theorem acl_allows_exactly_edges:
  "allows_a2a (acl_parse spec) caller target \<longleftrightarrow>
     (\<exists>c t. A2aEdge c t \<in> set (spec_items spec) \<and> (c = caller \<or> c = WILDCARD) \<and> (t = target \<or> t = WILDCARD))"
  unfolding allows_a2a_edges acl_parse_items by blast

text \<open>C39: What \<open>list_agents\<close> shows is what \<open>call_agent\<close> accepts: for every allowlist, a target is in
  the visible set of a caller (or the set is unrestricted) if and only if the A2A check allows it.\<close>

theorem acl_visible_iff_allowed:
  "allows_a2a acl caller target \<longleftrightarrow>
     (case visible_targets_for_agent acl caller of None \<Rightarrow> True | Some vis \<Rightarrow> target \<in> vis)"
  unfolding allows_a2a_edges visible_targets_edges by auto

text \<open>The WeChat visibility of a parsed specification: with no well-formed WeChat entry every
  backend is visible; otherwise exactly the registered backends that are public or listed for that
  user.\<close>

theorem acl_wechat_visible_exact:
  "wechat_visible (acl_parse spec) uid registered =
     (if (\<forall>b. PublicBackend b \<notin> set (spec_items spec)) \<and> (\<forall>u b. UserEdge u b \<notin> set (spec_items spec)) then None
      else Some {b \<in> set registered. PublicBackend b \<in> set (spec_items spec) \<or> UserEdge uid b \<in> set (spec_items spec)})"
proof -
  have 1: "wechat_public (acl_parse spec) = {} \<longleftrightarrow> (\<forall>b. PublicBackend b \<notin> set (spec_items spec))"
    by (auto simp: acl_parse_items(3) [symmetric])
  have 2: "b \<in> unwrap_or {} (map_of (wechat_users (acl_parse spec)) uid) \<longleftrightarrow> UserEdge uid b \<in> set (spec_items spec)" for b
    unfolding acl_parse_items(2) [symmetric] by (cases "map_of (wechat_users (acl_parse spec)) uid") (simp_all add: edge_in_def)
  show ?thesis unfolding wechat_visible_def 1 acl_parse_items(4)
    by (auto simp: list_ex_iff 2 acl_parse_items(3))
qed


end
