(* ===== verification/Hub_Auth.thy ===== *)
theory Hub_Auth
  imports Rust_Str
begin

text \<open>
  Credentials: the token hash of \<open>hub/vtoken_hash.rs\<close>, the bearer-token checks of
  \<open>server/routes/auth.rs\<close> and the admin configuration of \<open>hub/state.rs\<close>.  SHA-256 (the crate
  \<open>ring\<close>) is the parameter \<open>sha\<close>, known only to return 32 bytes; the constant-time comparison of
  the crate \<open>subtle\<close> is the parameter \<open>ct_eq\<close>.
\<close>

section \<open>Token hashes\<close>

definition HEX :: string where
  "HEX = ''0123456789abcdef''"

definition hex_lower :: "8 word list \<Rightarrow> string" where
  "hex_lower bytes = concat (map (\<lambda>b. [HEX ! unat (drop_bit 4 b), HEX ! unat (and b 0x0f)]) bytes)"

definition hash_vtoken :: "(string \<Rightarrow> 8 word list) \<Rightarrow> string \<Rightarrow> string" where
  "hash_vtoken sha plain = hex_lower (sha plain)"

definition is_ascii_hexdigit :: "char \<Rightarrow> bool" where
  "is_ascii_hexdigit c \<longleftrightarrow> (let n = (of_char c :: nat) in
     48 \<le> n \<and> n \<le> 57 \<or> 97 \<le> n \<and> n \<le> 102 \<or> 65 \<le> n \<and> n \<le> 70)"

definition is_ascii_uppercase :: "char \<Rightarrow> bool" where
  "is_ascii_uppercase c \<longleftrightarrow> (let n = (of_char c :: nat) in 65 \<le> n \<and> n \<le> 90)"

definition is_vtoken_hash :: "string \<Rightarrow> bool" where
  "is_vtoken_hash s \<longleftrightarrow> length s = 64 \<and> list_all (\<lambda>b. is_ascii_hexdigit b \<and> \<not> is_ascii_uppercase b) s"

definition is_valid_vtoken :: "string \<Rightarrow> bool" where
  "is_valid_vtoken s = (case strip_prefix s ''vhub_'' of None \<Rightarrow> False
     | Some rest \<Rightarrow> length rest = 32 \<and> list_all (\<lambda>b. is_ascii_hexdigit b \<and> \<not> is_ascii_uppercase b) rest)"

section \<open>Request authentication\<close>

text \<open>\<open>HeaderValue::to_str\<close>: only visible ASCII (and tab) converts.\<close>

definition header_to_str :: "string \<Rightarrow> string option" where
  "header_to_str v = (if list_all (\<lambda>c. let n = (of_char c :: nat) in 32 \<le> n \<and> n < 127 \<or> n = 9) v
     then Some v else None)"

definition bearer :: "string option \<Rightarrow> string option" where
  "bearer hdr = Option.bind (Option.bind hdr header_to_str) (\<lambda>s. strip_prefix s ''Bearer '')"

definition extract_vtoken :: "(string \<Rightarrow> 8 word list) \<Rightarrow> string option \<Rightarrow> string option" where
  "extract_vtoken sha hdr = map_option (hash_vtoken sha) (opt_filter is_valid_vtoken (bearer hdr))"

record AdminConfig =
  token :: "string option"
  insecure_no_auth :: bool
  outbound_origin_label :: "string option"

definition AdminConfig_from_env :: "string option \<Rightarrow> string option \<Rightarrow> string option \<Rightarrow> AdminConfig" where
  "AdminConfig_from_env env_token env_insecure env_label =
     (let tok = opt_filter (\<lambda>s. s \<noteq> []) env_token;
          insecure = (tok = None \<and> (case env_insecure of None \<Rightarrow> False
             | Some v \<Rightarrow> to_ascii_lowercase (trim v) \<in> {''1'', ''true'', ''yes''}))
      in \<lparr>token = tok, insecure_no_auth = insecure, outbound_origin_label = env_label\<rparr>)"

definition check_admin_auth :: "(string \<Rightarrow> string \<Rightarrow> bool) \<Rightarrow> AdminConfig \<Rightarrow> string option \<Rightarrow> bool" where
  "check_admin_auth ct_eq admin hdr = (case token admin of
     Some required \<Rightarrow> ct_eq (unwrap_or [] (bearer hdr)) required
   | None \<Rightarrow> insecure_no_auth admin)"

datatype http_rejection = Unauthorized401

definition admin_guard :: "(string \<Rightarrow> string \<Rightarrow> bool) \<Rightarrow> AdminConfig \<Rightarrow> string option \<Rightarrow> http_rejection + unit" where
  "admin_guard ct_eq admin hdr = (if check_admin_auth ct_eq admin hdr then Inr () else Inl Unauthorized401)"

section \<open>Lemmas\<close>

definition hex_char :: "char \<Rightarrow> bool" where
  "hex_char c \<longleftrightarrow> is_ascii_hexdigit c \<and> \<not> is_ascii_uppercase c"

lemma HEX_props: "length HEX = 16" "distinct HEX" "list_all hex_char HEX"
  by (simp_all add: HEX_def hex_char_def is_ascii_hexdigit_def is_ascii_uppercase_def)

lemma HEX_nth_hex: "i < 16 \<Longrightarrow> hex_char (HEX ! i)"
  using HEX_props by (simp add: list_all_length)

lemma nibble_bounds: "unat (drop_bit 4 (b :: 8 word)) < 16" "unat (and b 0x0f) < 16"
proof -
  have "unat b < 2 ^ LENGTH(8)" by (rule unsigned_less)
  then have "unat b < 256" by simp
  then show "unat (drop_bit 4 b) < 16" by (simp add: drop_bit_eq_div unat_div)
  have "and b 0x0f = take_bit 4 b" by (simp add: take_bit_eq_mask mask_eq_exp_minus_1)
  then show "unat (and b 0x0f) < 16" by (simp add: unat_mod take_bit_eq_mod)
qed

lemma nibbles_determine: "drop_bit 4 a = drop_bit 4 b \<Longrightarrow> and a 0x0f = and b 0x0f \<Longrightarrow> a = (b :: 8 word)"
proof -
  assume a: "drop_bit 4 a = drop_bit 4 b" "and a 0x0f = and b 0x0f"
  have "(0x0f :: 8 word) = mask 4" by (simp add: mask_eq_exp_minus_1)
  with a have "take_bit 4 a = take_bit 4 b" by (simp add: take_bit_eq_mask)
  with a(1) show ?thesis by (metis bits_ident)
qed

lemma hex_lower_length [simp]: "length (hex_lower bs) = 2 * length bs"
  by (induction bs) (simp_all add: hex_lower_def)

lemma hex_lower_hex: "list_all hex_char (hex_lower bs)"
  by (induction bs) (simp_all add: hex_lower_def HEX_nth_hex nibble_bounds)

lemma hex_lower_inj: "hex_lower as = hex_lower bs \<Longrightarrow> as = bs"
proof (induction as arbitrary: bs)
  case Nil
  then show ?case by (cases bs) (simp_all add: hex_lower_def)
next
  case (Cons a as)
  then obtain b bs' where bs: "bs = b # bs'" by (cases bs) (simp_all add: hex_lower_def)
  with Cons.prems have e: "HEX ! unat (drop_bit 4 a) = HEX ! unat (drop_bit 4 b)"
      "HEX ! unat (and a 0x0f) = HEX ! unat (and b 0x0f)" "hex_lower as = hex_lower bs'"
    by (simp_all add: hex_lower_def)
  have "unat (drop_bit 4 a) = unat (drop_bit 4 b)"
    using e(1) by (simp only: nth_eq_iff_index_eq [OF HEX_props(2)] HEX_props(1) nibble_bounds)
  moreover have "unat (and a 0x0f) = unat (and b 0x0f)"
    using e(2) by (simp only: nth_eq_iff_index_eq [OF HEX_props(2)] HEX_props(1) nibble_bounds)
  ultimately have "a = b" by (rule nibbles_determine [OF word_unat_eq_iff [THEN iffD2] word_unat_eq_iff [THEN iffD2]])
  with Cons.IH [OF e(3)] bs show ?case by simp
qed

lemma hash_is_vtoken_hash: "length (sha s) = 32 \<Longrightarrow> is_vtoken_hash (hash_vtoken sha s)"
  using hex_lower_hex [of "sha s"] by (simp add: is_vtoken_hash_def hash_vtoken_def hex_char_def list_all_iff)

lemma v_not_hex: "\<not> hex_char CHR ''v''"
  by (simp add: hex_char_def is_ascii_hexdigit_def)

lemma hash_not_bearer: "\<not> is_valid_vtoken (hash_vtoken sha s)"
proof
  assume "is_valid_vtoken (hash_vtoken sha s)"
  then obtain rest where "hash_vtoken sha s = ''vhub_'' @ rest"
    by (auto simp: is_valid_vtoken_def strip_prefix_iff split: option.splits)
  then have "CHR ''v'' \<in> set (hash_vtoken sha s)" by simp
  then show False using hex_lower_hex [of "sha s"] v_not_hex by (auto simp: hash_vtoken_def list_all_iff)
qed

lemma header_to_str_SomeD: "header_to_str v = Some s \<Longrightarrow> s = v"
  by (simp add: header_to_str_def split: if_splits)

lemma bearer_Some:
  "bearer hdr = Some t \<longleftrightarrow> hdr = Some (''Bearer '' @ t) \<and> header_to_str (''Bearer '' @ t) \<noteq> None"
proof (cases hdr)
  case None
  then show ?thesis by (simp add: bearer_def)
next
  case (Some v)
  show ?thesis
  proof (cases "header_to_str v")
    case None
    then show ?thesis using Some by (auto simp: bearer_def)
  next
    case (Some s)
    then have "s = v" by (rule header_to_str_SomeD)
    then have "bearer hdr = strip_prefix v ''Bearer ''" using Some \<open>hdr = Some v\<close> by (simp add: bearer_def)
    then show ?thesis using Some \<open>hdr = Some v\<close> by (auto simp: strip_prefix_iff)
  qed
qed

lemma extract_vtoken_Some:
  "extract_vtoken sha hdr = Some h \<longleftrightarrow>
     (\<exists>tok. bearer hdr = Some tok \<and> is_valid_vtoken tok \<and> h = hash_vtoken sha tok)"
  by (auto simp: extract_vtoken_def)

section \<open>Properties\<close>

text \<open>Stored token hashes carry no authority.  For any 32-byte digest, the canonical hash is a
  well-formed 64-character lower-case hex string, two tokens share a hash only when their digests
  collide, and presenting a stored hash as a bearer credential authenticates as nobody.\<close>

theorem vtoken_hash_no_authority:
  assumes "\<And>s. length (sha s) = 32"
  shows "is_vtoken_hash (hash_vtoken sha t) \<and>
    (hash_vtoken sha t = hash_vtoken sha u \<longleftrightarrow> sha t = sha u) \<and>
    extract_vtoken sha (Some (''Bearer '' @ hash_vtoken sha t)) = None"
proof (intro conjI)
  show "is_vtoken_hash (hash_vtoken sha t)" using assms by (rule hash_is_vtoken_hash)
  show "hash_vtoken sha t = hash_vtoken sha u \<longleftrightarrow> sha t = sha u"
    using hex_lower_inj by (auto simp: hash_vtoken_def)
  show "extract_vtoken sha (Some (''Bearer '' @ hash_vtoken sha t)) = None"
  proof (cases "extract_vtoken sha (Some (''Bearer '' @ hash_vtoken sha t))")
    case (Some h)
    then obtain tok where "bearer (Some (''Bearer '' @ hash_vtoken sha t)) = Some tok" "is_valid_vtoken tok"
      unfolding extract_vtoken_Some by blast
    then show ?thesis using hash_not_bearer [of sha t] unfolding bearer_Some by simp
  qed
qed

theorem vtoken_hash_no_authority_witness:
  "extract_vtoken (\<lambda>s. replicate 32 7) (Some (''Bearer '' @ hash_vtoken (\<lambda>s. replicate 32 7) ''vhub_x'')) = None"
proof -
  have "length ((\<lambda>s :: string. replicate 32 (7 :: 8 word)) s) = 32" for s by simp
  from vtoken_hash_no_authority [OF this, of "''vhub_x''"] show ?thesis by blast
qed

text \<open>Admin routes fail closed.  With a comparison that decides equality, a request passes the
  guard only if the environment has a non-empty admin token and the request carries exactly it as a
  bearer credential, or no token is set and the operator opted out with the insecure flag.\<close>

theorem admin_guard_fail_closed:
  assumes "\<And>a b. ct_eq a b \<longleftrightarrow> a = b"
  shows "admin_guard ct_eq (AdminConfig_from_env env_token env_insecure env_label) hdr = Inr () \<longleftrightarrow>
    (case opt_filter (\<lambda>s. s \<noteq> []) env_token of
       Some required \<Rightarrow> hdr = Some (''Bearer '' @ required) \<and> header_to_str (''Bearer '' @ required) \<noteq> None
     | None \<Rightarrow> (\<exists>v. env_insecure = Some v \<and> to_ascii_lowercase (trim v) \<in> {''1'', ''true'', ''yes''}))"
proof (cases "opt_filter (\<lambda>s. s \<noteq> []) env_token")
  case None
  then show ?thesis
    by (auto simp: admin_guard_def check_admin_auth_def AdminConfig_from_env_def Let_def split: option.splits)
next
  case (Some required)
  then have "required \<noteq> []" by simp
  then have "unwrap_or [] (bearer hdr) = required \<longleftrightarrow>
      hdr = Some (''Bearer '' @ required) \<and> header_to_str (''Bearer '' @ required) \<noteq> None"
    unfolding bearer_Some [symmetric] by (cases "bearer hdr") auto
  with Some assms show ?thesis
    by (simp add: admin_guard_def check_admin_auth_def AdminConfig_from_env_def Let_def)
qed

theorem admin_guard_fail_closed_witness:
  "admin_guard (=) (AdminConfig_from_env (Some ''s3cret'') (Some ''1'') None) (Some ''Bearer s3cret'') = Inr ()
   \<and> admin_guard (=) (AdminConfig_from_env (Some '''') None None) (Some ''Bearer '') \<noteq> Inr ()"
proof -
  have 1: "\<And>a b :: string. (a = b) \<longleftrightarrow> a = b" by simp
  have 2: "header_to_str (''Bearer '' @ ''s3cret'') \<noteq> None" by code_simp
  have "admin_guard (=) (AdminConfig_from_env (Some ''s3cret'') (Some ''1'') None) (Some ''Bearer s3cret'') = Inr ()"
    using 2 by (subst admin_guard_fail_closed [OF 1]) simp
  moreover have "admin_guard (=) (AdminConfig_from_env (Some '''') None None) (Some ''Bearer '') \<noteq> Inr ()"
    by (subst admin_guard_fail_closed [OF 1]) simp
  ultimately show ?thesis by (rule conjI)
qed

end
