(* ===== verification/Client_Registry.thy ===== *)
theory Client_Registry
  imports Hub_Auth
begin

text \<open>
  The client registry of \<open>hub/registry.rs\<close>: two hash maps, hashed vtoken to client and name to hashed
  vtoken, with every operation of the type.  Generated UUIDs and clock readings are arguments, the
  digest is the parameter \<open>sha\<close>.  The invariant \<open>reg_ok\<close> says the maps are each other's inverse; the
  locale \<open>client_directory\<close> is the view of the registry that routing and access control rely on.
\<close>

section \<open>The code\<close>

record ClientInfo =
  name :: string
  vtoken :: string
  label :: "string option"
  description :: "string option"
  registered_at :: nat
  online :: bool
  persona_name :: "string option"
  persona_emoji :: "string option"

datatype UpdateClientError = NotFound | NameTaken

record ClientRegistry =
  by_vtoken :: "(string, ClientInfo) hmap"
  by_name :: "(string, string) hmap"

definition registry_new :: ClientRegistry where
  "registry_new = \<lparr>by_vtoken = [], by_name = []\<rparr>"

definition with_hashed_vtoken :: "nat \<Rightarrow> string \<Rightarrow> string option \<Rightarrow> string option \<Rightarrow> string \<Rightarrow> ClientInfo" where
  "with_hashed_vtoken now nm lbl desc h =
     \<lparr>name = nm, vtoken = h, label = lbl, description = desc, registered_at = now, online = False,
      persona_name = None, persona_emoji = None\<rparr>"

text \<open>\<open>ClientInfo::new\<close> on the simple form of a fresh UUID.\<close>

definition ClientInfo_new ::
  "(string \<Rightarrow> 8 word list) \<Rightarrow> string \<Rightarrow> nat \<Rightarrow> string \<Rightarrow> string option \<Rightarrow> string option \<Rightarrow> ClientInfo \<times> string"
where
  "ClientInfo_new sha uuid now nm lbl desc =
     (let plain = ''vhub_'' @ uuid in (with_hashed_vtoken now nm lbl desc (hash_vtoken sha plain), plain))"

definition opt_set :: "'a option \<Rightarrow> 'a option \<Rightarrow> 'a option" where
  "opt_set new old = (if new \<noteq> None then new else old)"

definition touch_existing :: "string option \<Rightarrow> string option \<Rightarrow> ClientInfo \<Rightarrow> ClientInfo" where
  "touch_existing lbl desc i =
     i\<lparr>label := opt_set lbl (label i), description := opt_set desc (description i), online := True\<rparr>"

definition register ::
  "(string \<Rightarrow> 8 word list) \<Rightarrow> string \<Rightarrow> nat \<Rightarrow> string \<Rightarrow> string option \<Rightarrow> string option \<Rightarrow> ClientRegistry
     \<Rightarrow> (string \<times> string \<times> bool) \<times> ClientRegistry"
where
  "register sha uuid now nm lbl desc r = (case map_of (by_name r) nm of
     Some h \<Rightarrow> (([], h, False), r\<lparr>by_vtoken := hm_modify h (touch_existing lbl desc) (by_vtoken r)\<rparr>)
   | None \<Rightarrow> (let (info, plain) = ClientInfo_new sha uuid now nm lbl desc; h = vtoken info
             in ((plain, h, True), r\<lparr>by_name := AList.update nm h (by_name r),
                                    by_vtoken := AList.update h info (by_vtoken r)\<rparr>)))"

definition register_with_vtoken ::
  "(string \<Rightarrow> 8 word list) \<Rightarrow> string \<Rightarrow> nat \<Rightarrow> string \<Rightarrow> string option \<Rightarrow> string option \<Rightarrow> string option
     \<Rightarrow> ClientRegistry \<Rightarrow> (string \<times> bool) \<times> ClientRegistry"
where
  "register_with_vtoken sha uuid now nm lbl desc vt r = (case map_of (by_name r) nm of
     Some h \<Rightarrow> ((h, False), r\<lparr>by_vtoken := hm_modify h (touch_existing lbl desc) (by_vtoken r)\<rparr>)
   | None \<Rightarrow> (let (info, plain_or_hash) = (case vt of
                    Some h \<Rightarrow> (with_hashed_vtoken now nm lbl desc h, h)
                  | None \<Rightarrow> ClientInfo_new sha uuid now nm lbl desc);
                 stored = vtoken info
             in ((plain_or_hash, True), r\<lparr>by_name := AList.update nm stored (by_name r),
                                         by_vtoken := AList.update stored info (by_vtoken r)\<rparr>)))"

definition register_confirmed ::
  "nat \<Rightarrow> string \<Rightarrow> string option \<Rightarrow> string option \<Rightarrow> string \<Rightarrow> ClientRegistry \<Rightarrow> UpdateClientError + ClientRegistry"
where
  "register_confirmed now nm lbl desc h r =
     (if hm_contains (by_name r) nm then Inl NameTaken
      else Inr (r\<lparr>by_name := AList.update nm h (by_name r),
                  by_vtoken := AList.update h (with_hashed_vtoken now nm lbl desc h) (by_vtoken r)\<rparr>))"

definition get_by_vtoken :: "ClientRegistry \<Rightarrow> string \<Rightarrow> ClientInfo option" where
  "get_by_vtoken r h = map_of (by_vtoken r) h"

definition get_by_name :: "ClientRegistry \<Rightarrow> string \<Rightarrow> ClientInfo option" where
  "get_by_name r nm = Option.bind (map_of (by_name r) nm) (map_of (by_vtoken r))"

definition all_clients_in :: "ClientRegistry \<Rightarrow> string set option \<Rightarrow> ClientInfo list" where
  "all_clients_in r allowed = (case allowed of None \<Rightarrow> map snd (by_vtoken r)
     | Some vis \<Rightarrow> filter (\<lambda>c. name c \<in> vis) (map snd (by_vtoken r)))"

definition all_clients :: "ClientRegistry \<Rightarrow> ClientInfo list" where
  "all_clients r = all_clients_in r None"

definition online_clients :: "ClientRegistry \<Rightarrow> ClientInfo list" where
  "online_clients r = filter online (map snd (by_vtoken r))"

definition get_by_alias_in :: "ClientRegistry \<Rightarrow> string \<Rightarrow> string set option \<Rightarrow> ClientInfo option" where
  "get_by_alias_in r nm allowed = (case get_by_name r nm of
     Some c \<Rightarrow> if (case allowed of None \<Rightarrow> True | Some vis \<Rightarrow> name c \<in> vis) then Some c else None
   | None \<Rightarrow> (case parse_u64 nm of None \<Rightarrow> None
       | Some n \<Rightarrow> if n = 0 then None
           else (let sorted = sort_key name (all_clients_in r allowed)
                 in if n - 1 < length sorted then Some (sorted ! (n - 1)) else None)))"

definition get_by_alias :: "ClientRegistry \<Rightarrow> string \<Rightarrow> ClientInfo option" where
  "get_by_alias r nm = get_by_alias_in r nm None"

definition update_metadata ::
  "string \<Rightarrow> string option \<Rightarrow> string option \<Rightarrow> string option \<Rightarrow> string option \<Rightarrow> ClientRegistry \<Rightarrow> ClientRegistry"
where
  "update_metadata h lbl desc pn pe r = r\<lparr>by_vtoken := hm_modify h (\<lambda>i.
     i\<lparr>label := opt_set lbl (label i), description := opt_set desc (description i),
       persona_name := opt_set pn (persona_name i), persona_emoji := opt_set pe (persona_emoji i)\<rparr>) (by_vtoken r)\<rparr>"

definition set_persona :: "string \<Rightarrow> string option \<Rightarrow> string option \<Rightarrow> ClientRegistry \<Rightarrow> ClientRegistry" where
  "set_persona h pn pe r = update_metadata h None None pn pe r"

definition set_description :: "string \<Rightarrow> string option \<Rightarrow> ClientRegistry \<Rightarrow> ClientRegistry" where
  "set_description h desc r = r\<lparr>by_vtoken := hm_modify h (\<lambda>i. i\<lparr>description := desc\<rparr>) (by_vtoken r)\<rparr>"

definition mark_online :: "string \<Rightarrow> ClientRegistry \<Rightarrow> ClientRegistry" where
  "mark_online h r = r\<lparr>by_vtoken := hm_modify h (\<lambda>i. i\<lparr>online := True\<rparr>) (by_vtoken r)\<rparr>"

definition mark_offline :: "string \<Rightarrow> ClientRegistry \<Rightarrow> ClientRegistry" where
  "mark_offline h r = r\<lparr>by_vtoken := hm_modify h (\<lambda>i. i\<lparr>online := False\<rparr>) (by_vtoken r)\<rparr>"

definition rotate_vtoken ::
  "(string \<Rightarrow> 8 word list) \<Rightarrow> string \<Rightarrow> string \<Rightarrow> ClientRegistry \<Rightarrow> (string \<times> string) option \<times> ClientRegistry"
where
  "rotate_vtoken sha uuid nm r = (case map_of (by_name r) nm of None \<Rightarrow> (None, r)
   | Some old_hash \<Rightarrow> (case map_of (by_vtoken r) old_hash of None \<Rightarrow> (None, r)
     | Some info \<Rightarrow>
         (let removed = AList.delete old_hash (by_vtoken r);
              plain = ''vhub_'' @ uuid;
              new_hash = hash_vtoken sha plain;
              info' = info\<lparr>vtoken := new_hash, online := False\<rparr>
          in (Some (plain, new_hash),
              r\<lparr>by_vtoken := AList.update new_hash info' removed,
                by_name := AList.update nm new_hash (by_name r)\<rparr>))))"

definition remove :: "string \<Rightarrow> ClientRegistry \<Rightarrow> bool \<times> ClientRegistry" where
  "remove nm r = (case map_of (by_name r) nm of None \<Rightarrow> (False, r)
   | Some h \<Rightarrow> (True, r\<lparr>by_name := AList.delete nm (by_name r), by_vtoken := AList.delete h (by_vtoken r)\<rparr>))"

definition update_client ::
  "string \<Rightarrow> string \<Rightarrow> string option \<Rightarrow> ClientRegistry \<Rightarrow> (UpdateClientError + string) \<times> ClientRegistry"
where
  "update_client old_name new_name lbl r = (case map_of (by_name r) old_name of
     None \<Rightarrow> (Inl NotFound, r)
   | Some h \<Rightarrow>
       if new_name \<noteq> old_name \<and> hm_contains (by_name r) new_name then (Inl NameTaken, r)
       else (case map_of (by_vtoken r) h of None \<Rightarrow> (Inl NotFound, r)
         | Some info \<Rightarrow>
             (let r1 = (if new_name \<noteq> old_name
                    then r\<lparr>by_name := AList.update new_name h (AList.delete old_name (by_name r)),
                           by_vtoken := hm_modify h (\<lambda>i. i\<lparr>name := new_name\<rparr>) (by_vtoken r)\<rparr>
                    else r);
                  r2 = (case lbl of None \<Rightarrow> r1
                    | Some l \<Rightarrow> r1\<lparr>by_vtoken := hm_modify h (\<lambda>i. i\<lparr>label := Some l\<rparr>) (by_vtoken r1)\<rparr>)
              in (Inr h, r2))))"

definition pick_default_after_remove :: "ClientRegistry \<Rightarrow> string \<Rightarrow> string option" where
  "pick_default_after_remove r removed =
     opt_or (map_option vtoken (List.find (\<lambda>c. vtoken c \<noteq> removed) (online_clients r)))
            (map_option vtoken (List.find (\<lambda>c. vtoken c \<noteq> removed) (all_clients r)))"

section \<open>The directory interface\<close>

text \<open>
  What the rest of the hub relies on: lookups by hash and by name agree, and iteration lists exactly
  the clients that lookups find, each once.
\<close>

locale client_directory =
  fixes inv :: "'r \<Rightarrow> bool"
    and by_tok :: "'r \<Rightarrow> string \<Rightarrow> ClientInfo option"
    and by_nm :: "'r \<Rightarrow> string \<Rightarrow> ClientInfo option"
    and listing :: "'r \<Rightarrow> ClientInfo list"
  assumes tok_law: "\<lbrakk>inv r; by_tok r h = Some c\<rbrakk> \<Longrightarrow> vtoken c = h \<and> by_nm r (name c) = Some c"
    and nm_law: "\<lbrakk>inv r; by_nm r n = Some c\<rbrakk> \<Longrightarrow> name c = n \<and> by_tok r (vtoken c) = Some c"
    and listing_law: "inv r \<Longrightarrow> c \<in> set (listing r) \<longleftrightarrow> by_tok r (vtoken c) = Some c"
    and listing_distinct: "inv r \<Longrightarrow> distinct (map vtoken (listing r))"
begin

lemma name_determines: "\<lbrakk>inv r; c \<in> set (listing r); d \<in> set (listing r); name c = name d\<rbrakk> \<Longrightarrow> c = d"
  by (metis listing_law option.inject tok_law)

lemma listed_names: "inv r \<Longrightarrow> c \<in> set (listing r) \<longleftrightarrow> by_nm r (name c) = Some c"
  by (metis listing_law nm_law tok_law)

lemma distinct_listing: "inv r \<Longrightarrow> distinct (listing r)"
  using listing_distinct [of r] by (simp add: distinct_map)

lemma distinct_names: "inv r \<Longrightarrow> distinct (map name (listing r))"
  using name_determines [of r] distinct_listing [of r] by (auto simp: distinct_map inj_on_def)

end

section \<open>The invariant\<close>

definition reg_ok :: "ClientRegistry \<Rightarrow> bool" where
  "reg_ok r \<longleftrightarrow> hm_wf (by_vtoken r) \<and> hm_wf (by_name r) \<and>
     (\<forall>h c. map_of (by_vtoken r) h = Some c \<longrightarrow> vtoken c = h \<and> map_of (by_name r) (name c) = Some h) \<and>
     (\<forall>n h. map_of (by_name r) n = Some h \<longrightarrow> (\<exists>c. map_of (by_vtoken r) h = Some c \<and> name c = n))"

lemma reg_okD:
  assumes "reg_ok r"
  shows "map_of (by_vtoken r) h = Some c \<Longrightarrow> vtoken c = h"
    and "map_of (by_vtoken r) h = Some c \<Longrightarrow> map_of (by_name r) (name c) = Some h"
    and "map_of (by_name r) n = Some h \<Longrightarrow> \<exists>c. map_of (by_vtoken r) h = Some c \<and> name c = n"
    and "hm_wf (by_vtoken r)" "hm_wf (by_name r)"
  using assms by (auto simp: reg_ok_def)

lemma reg_ok_new: "reg_ok registry_new"
  by (simp add: reg_ok_def registry_new_def)

text \<open>Operations that change neither names nor hashes of clients keep the invariant.\<close>

lemma reg_ok_modify:
  assumes "reg_ok r" "\<And>i. name (f i) = name i \<and> vtoken (f i) = vtoken i"
  shows "reg_ok (r\<lparr>by_vtoken := hm_modify h f (by_vtoken r)\<rparr>)"
  unfolding reg_ok_def
proof (intro conjI allI impI)
  fix k c
  assume "map_of (by_vtoken (r\<lparr>by_vtoken := hm_modify h f (by_vtoken r)\<rparr>)) k = Some c"
  then obtain i where "map_of (by_vtoken r) k = Some i" "name c = name i" "vtoken c = vtoken i"
    using assms(2) by (auto split: if_splits)
  with reg_okD(1,2) [OF assms(1)]
  show "vtoken c = k" "map_of (by_name (r\<lparr>by_vtoken := hm_modify h f (by_vtoken r)\<rparr>)) (name c) = Some k"
    by simp_all
next
  fix n k
  assume "map_of (by_name (r\<lparr>by_vtoken := hm_modify h f (by_vtoken r)\<rparr>)) n = Some k"
  with reg_okD(3) [OF assms(1)] assms(2)
  show "\<exists>c. map_of (by_vtoken (r\<lparr>by_vtoken := hm_modify h f (by_vtoken r)\<rparr>)) k = Some c \<and> name c = n"
    by fastforce
qed (use reg_okD(4,5) [OF assms(1)] in simp_all)

lemma reg_ok_add:
  assumes "reg_ok r" "map_of (by_name r) (name i) = None" "map_of (by_vtoken r) (vtoken i) = None"
  shows "reg_ok (r\<lparr>by_name := AList.update (name i) (vtoken i) (by_name r),
                   by_vtoken := AList.update (vtoken i) i (by_vtoken r)\<rparr>)"
proof -
  let ?r = "r\<lparr>by_name := AList.update (name i) (vtoken i) (by_name r), by_vtoken := AList.update (vtoken i) i (by_vtoken r)\<rparr>"
  have "vtoken c = h \<and> map_of (by_name ?r) (name c) = Some h" if "map_of (by_vtoken ?r) h = Some c" for h c
    using that reg_okD(1,2) [OF assms(1), of h c] assms(2) by (auto split: if_splits)
  moreover have "\<exists>c. map_of (by_vtoken ?r) h = Some c \<and> name c = n" if "map_of (by_name ?r) n = Some h" for n h
    using that reg_okD(3) [OF assms(1), of n h] assms(3) by (auto split: if_splits)
  moreover have "hm_wf (by_vtoken ?r)" "hm_wf (by_name ?r)"
    using reg_okD(4,5) [OF assms(1)] by (simp_all add: wf_insert)
  ultimately show ?thesis unfolding reg_ok_def by blast
qed

lemma touch_existing_keeps: "name (touch_existing l d i) = name i \<and> vtoken (touch_existing l d i) = vtoken i"
  by (simp add: touch_existing_def)

lemma with_hashed_vtoken_fields [simp]:
  "name (with_hashed_vtoken now nm l d h) = nm" "vtoken (with_hashed_vtoken now nm l d h) = h"
  "label (with_hashed_vtoken now nm l d h) = l" "description (with_hashed_vtoken now nm l d h) = d"
  "online (with_hashed_vtoken now nm l d h) = False"
  by (simp_all add: with_hashed_vtoken_def)

text \<open>Token freshness: the hash of the new credential is not one already in use.\<close>

definition fresh_hash :: "ClientRegistry \<Rightarrow> string \<Rightarrow> bool" where
  "fresh_hash r h \<longleftrightarrow> map_of (by_vtoken r) h = None"

lemma reg_ok_register:
  "reg_ok r \<Longrightarrow> fresh_hash r (hash_vtoken sha (''vhub_'' @ uuid)) \<Longrightarrow>
     reg_ok (snd (register sha uuid now nm lbl desc r))"
  using reg_ok_add [of r "with_hashed_vtoken now nm lbl desc (hash_vtoken sha (''vhub_'' @ uuid))"]
  by (simp add: register_def ClientInfo_new_def Let_def fresh_hash_def reg_ok_modify touch_existing_keeps
      split: option.split)

lemma reg_ok_register_with_vtoken:
  "reg_ok r \<Longrightarrow> fresh_hash r (unwrap_or (hash_vtoken sha (''vhub_'' @ uuid)) vt) \<Longrightarrow>
     reg_ok (snd (register_with_vtoken sha uuid now nm lbl desc vt r))"
  using reg_ok_add [of r "with_hashed_vtoken now nm lbl desc (unwrap_or (hash_vtoken sha (''vhub_'' @ uuid)) vt)"]
  by (cases vt) (simp_all add: register_with_vtoken_def ClientInfo_new_def Let_def fresh_hash_def reg_ok_modify
      touch_existing_keeps split: option.split)

lemma reg_ok_register_confirmed:
  "reg_ok r \<Longrightarrow> fresh_hash r h \<Longrightarrow> register_confirmed now nm lbl desc h r = Inr r' \<Longrightarrow> reg_ok r'"
  using reg_ok_add [of r "with_hashed_vtoken now nm lbl desc h"]
  by (auto simp: register_confirmed_def fresh_hash_def split: if_splits)

lemma reg_ok_metadata: "reg_ok r \<Longrightarrow> reg_ok (update_metadata h lbl desc pn pe r)"
  unfolding update_metadata_def by (erule reg_ok_modify) simp

lemma reg_ok_description: "reg_ok r \<Longrightarrow> reg_ok (set_description h desc r)"
  unfolding set_description_def by (erule reg_ok_modify) simp

lemma reg_ok_online: "reg_ok r \<Longrightarrow> reg_ok (mark_online h r)"
  unfolding mark_online_def by (erule reg_ok_modify) simp

lemma reg_ok_offline: "reg_ok r \<Longrightarrow> reg_ok (mark_offline h r)"
  unfolding mark_offline_def by (erule reg_ok_modify) simp

lemma reg_ok_remove: "reg_ok r \<Longrightarrow> reg_ok (snd (remove nm r))"
proof (cases "map_of (by_name r) nm")
  case None
  then show "reg_ok r \<Longrightarrow> ?thesis" by (simp add: remove_def)
next
  case (Some k)
  assume ok: "reg_ok r"
  let ?r = "r\<lparr>by_name := AList.delete nm (by_name r), by_vtoken := AList.delete k (by_vtoken r)\<rparr>"
  obtain c where c: "map_of (by_vtoken r) k = Some c" "name c = nm" using reg_okD(3) [OF ok Some] by blast
  have "vtoken d = h \<and> map_of (by_name ?r) (name d) = Some h" if "map_of (by_vtoken ?r) h = Some d" for h d
    using that reg_okD(1,2) [OF ok, of h d] Some by (auto split: if_splits)
  moreover have "\<exists>d. map_of (by_vtoken ?r) h = Some d \<and> name d = n" if "map_of (by_name ?r) n = Some h" for n h
    using that reg_okD(3) [OF ok, of n h] c by (auto split: if_splits)
  moreover have "hm_wf (by_vtoken ?r)" "hm_wf (by_name ?r)"
    using reg_okD(4,5) [OF ok] by (simp_all add: wf_remove)
  ultimately have "reg_ok ?r" unfolding reg_ok_def by blast
  then show ?thesis using Some by (simp add: remove_def)
qed

lemma reg_ok_rotate:
  assumes ok: "reg_ok r" and fresh: "fresh_hash r (hash_vtoken sha (''vhub_'' @ uuid))"
  shows "reg_ok (snd (rotate_vtoken sha uuid nm r))"
proof (cases "map_of (by_name r) nm")
  case None
  then show ?thesis using ok by (simp add: rotate_vtoken_def)
next
  case (Some old)
  let ?new = "hash_vtoken sha (''vhub_'' @ uuid)"
  obtain i where i: "map_of (by_vtoken r) old = Some i" "name i = nm" using reg_okD(3) [OF ok Some] by blast
  let ?r = "r\<lparr>by_vtoken := AList.update ?new (i\<lparr>vtoken := ?new, online := False\<rparr>) (AList.delete old (by_vtoken r)),
              by_name := AList.update nm ?new (by_name r)\<rparr>"
  have "vtoken d = h \<and> map_of (by_name ?r) (name d) = Some h" if "map_of (by_vtoken ?r) h = Some d" for h d
    using that reg_okD(1,2) [OF ok, of h d] Some i by (auto split: if_splits)
  moreover have "\<exists>d. map_of (by_vtoken ?r) h = Some d \<and> name d = n" if "map_of (by_name ?r) n = Some h" for n h
    using that reg_okD(3) [OF ok, of n h] i fresh by (auto simp: fresh_hash_def split: if_splits)
  moreover have "hm_wf (by_vtoken ?r)" "hm_wf (by_name ?r)"
    using reg_okD(4,5) [OF ok] by (simp_all add: wf_remove wf_insert)
  ultimately have "reg_ok ?r" unfolding reg_ok_def by blast
  then show ?thesis using Some i(1) by (simp add: rotate_vtoken_def Let_def)
qed

lemma reg_ok_rename:
  assumes ok: "reg_ok r" and old: "map_of (by_name r) old = Some h" and free: "map_of (by_name r) new = None"
  shows "reg_ok (r\<lparr>by_name := AList.update new h (AList.delete old (by_name r)),
                   by_vtoken := hm_modify h (\<lambda>i. i\<lparr>name := new\<rparr>) (by_vtoken r)\<rparr>)" (is "reg_ok ?r")
proof -
  obtain i where i: "map_of (by_vtoken r) h = Some i" "name i = old" using reg_okD(3) [OF ok old] by blast
  have "vtoken d = k \<and> map_of (by_name ?r) (name d) = Some k" if "map_of (by_vtoken ?r) k = Some d" for k d
  proof (cases "k = h")
    case True
    then show ?thesis using that i reg_okD(1) [OF ok i(1)] by auto
  next
    case False
    with that have "map_of (by_vtoken r) k = Some d" by simp
    then have "vtoken d = k" "map_of (by_name r) (name d) = Some k" using reg_okD(1,2) [OF ok] by blast+
    with False old free show ?thesis by auto
  qed
  moreover have "\<exists>d. map_of (by_vtoken ?r) k = Some d \<and> name d = n" if "map_of (by_name ?r) n = Some k" for n k
    using that reg_okD(3) [OF ok, of n k] i by (auto split: if_splits)
  moreover have "hm_wf (by_vtoken ?r)" "hm_wf (by_name ?r)"
    using reg_okD(4,5) [OF ok] by (simp_all add: wf_remove wf_insert)
  ultimately show ?thesis unfolding reg_ok_def by blast
qed

lemma reg_ok_update_client:
  assumes ok: "reg_ok r"
  shows "reg_ok (snd (update_client old new lbl r))"
proof -
  have lab: "reg_ok q \<Longrightarrow> reg_ok (case lbl of None \<Rightarrow> q
      | Some l \<Rightarrow> q\<lparr>by_vtoken := hm_modify h (\<lambda>i. i\<lparr>label := Some l\<rparr>) (by_vtoken q)\<rparr>)" for q h
    by (cases lbl) (simp_all add: reg_ok_modify)
  show ?thesis
  proof (cases "map_of (by_name r) old")
    case None
    then show ?thesis using ok by (simp add: update_client_def)
  next
    case (Some h)
    then obtain i where i: "map_of (by_vtoken r) h = Some i" using reg_okD(3) [OF ok Some] by blast
    show ?thesis
    proof (cases "new \<noteq> old \<and> hm_contains (by_name r) new")
      case True
      then show ?thesis using ok Some by (auto simp: update_client_def)
    next
      case False
      then have "new \<noteq> old \<Longrightarrow> map_of (by_name r) new = None" by simp
      then show ?thesis using Some i False lab [OF ok, of h] lab [OF reg_ok_rename [OF ok Some], of new h]
        by (simp add: update_client_def Let_def)
    qed
  qed
qed

interpretation reg: client_directory reg_ok get_by_vtoken get_by_name all_clients
proof
  fix r h c
  assume ok: "reg_ok r"
  show "get_by_vtoken r h = Some c \<Longrightarrow> vtoken c = h \<and> get_by_name r (name c) = Some c"
    using reg_okD(1,2) [OF ok, of h c] by (simp add: get_by_vtoken_def get_by_name_def)
  show "get_by_name r n = Some c \<Longrightarrow> name c = n \<and> get_by_vtoken r (vtoken c) = Some c" for n
    using reg_okD(1) [OF ok, of _ c] reg_okD(3) [OF ok, of n]
    by (auto simp: get_by_vtoken_def get_by_name_def bind_eq_Some_conv)
  show "c \<in> set (all_clients r) \<longleftrightarrow> get_by_vtoken r (vtoken c) = Some c"
    using in_values_iff [OF reg_okD(4) [OF ok], of c] reg_okD(1) [OF ok, of _ c]
    by (auto simp: get_by_vtoken_def all_clients_def all_clients_in_def)
  have "map vtoken (map snd (by_vtoken r)) = map fst (by_vtoken r)"
    using reg_okD(1,4) [OF ok] by (auto simp: map_of_eq_Some_iff)
  then show "distinct (map vtoken (all_clients r))"
    using reg_okD(4) [OF ok] by (simp only: all_clients_def all_clients_in_def option.case)
qed

section \<open>Sequences of operations\<close>

text \<open>The registry's state machine: every operation of the type, with fresh credentials.\<close>

inductive registry_step :: "(string \<Rightarrow> 8 word list) \<Rightarrow> ClientRegistry \<Rightarrow> ClientRegistry \<Rightarrow> bool" for sha where
  register_step: "fresh_hash r (hash_vtoken sha (''vhub_'' @ uuid)) \<Longrightarrow>
     registry_step sha r (snd (register sha uuid now nm lbl desc r))"
| load_step: "fresh_hash r (unwrap_or (hash_vtoken sha (''vhub_'' @ uuid)) vt) \<Longrightarrow>
     registry_step sha r (snd (register_with_vtoken sha uuid now nm lbl desc vt r))"
| confirm_step: "fresh_hash r h \<Longrightarrow> register_confirmed now nm lbl desc h r = Inr r' \<Longrightarrow> registry_step sha r r'"
| metadata_step: "registry_step sha r (update_metadata h lbl desc pn pe r)"
| description_step: "registry_step sha r (set_description h desc r)"
| online_step: "registry_step sha r (mark_online h r)"
| offline_step: "registry_step sha r (mark_offline h r)"
| rotate_step: "fresh_hash r (hash_vtoken sha (''vhub_'' @ uuid)) \<Longrightarrow>
     registry_step sha r (snd (rotate_vtoken sha uuid nm r))"
| remove_step: "registry_step sha r (snd (remove nm r))"
| update_step: "registry_step sha r (snd (update_client old new lbl r))"

inductive registry_reachable :: "(string \<Rightarrow> 8 word list) \<Rightarrow> ClientRegistry \<Rightarrow> bool" for sha where
  start: "registry_reachable sha registry_new"
| step: "registry_reachable sha r \<Longrightarrow> registry_step sha r r' \<Longrightarrow> registry_reachable sha r'"

lemma step_reg_ok: "registry_step sha r r' \<Longrightarrow> reg_ok r \<Longrightarrow> reg_ok r'"
  by (induction rule: registry_step.induct)
    (auto intro: reg_ok_register reg_ok_register_with_vtoken reg_ok_register_confirmed reg_ok_metadata
      reg_ok_description reg_ok_online reg_ok_offline reg_ok_rotate reg_ok_remove reg_ok_update_client)

lemma reachable_reg_ok: "registry_reachable sha r \<Longrightarrow> reg_ok r"
  by (induction rule: registry_reachable.induct) (auto intro: reg_ok_new step_reg_ok)

section \<open>Listings and aliases\<close>

definition permitted :: "string set option \<Rightarrow> ClientInfo \<Rightarrow> bool" where
  "permitted allowed c = (case allowed of None \<Rightarrow> True | Some vis \<Rightarrow> name c \<in> vis)"

lemma all_clients_in_filter: "all_clients_in r allowed = filter (permitted allowed) (all_clients r)"
  by (simp add: all_clients_in_def all_clients_def permitted_def [abs_def] split: option.split)

lemma alias_cases:
  assumes "get_by_alias_in r nm allowed = Some c" "reg_ok r"
  shows "permitted allowed c \<and> get_by_name r (name c) = Some c"
proof (cases "get_by_name r nm")
  case (Some d)
  with assms have "d = c" "permitted allowed c"
    by (auto simp: get_by_alias_in_def permitted_def split: option.splits if_splits)
  with Some reg.nm_law [OF assms(2)] show ?thesis by blast
next
  case None
  with assms(1) obtain n where "n < length (sort_key name (all_clients_in r allowed))"
      "c = sort_key name (all_clients_in r allowed) ! n"
    by (auto simp: get_by_alias_in_def Let_def split: option.splits if_splits)
  then have "c \<in> set (sort_key name (all_clients_in r allowed))" by (metis nth_mem)
  then have "c \<in> set (all_clients r)" "permitted allowed c" by (simp_all add: all_clients_in_filter)
  with reg.listed_names [OF assms(2)] show ?thesis by blast
qed

lemma sorted_listing_unique:
  assumes "reg_ok r" "reg_ok r'" "map_of (by_vtoken r) = map_of (by_vtoken r')"
  shows "sort_key name (all_clients_in r allowed) = sort_key name (all_clients_in r' allowed)"
proof -
  let ?L = "all_clients_in r allowed" and ?L' = "all_clients_in r' allowed"
  have "set (all_clients r) = set (all_clients r')"
    using reg.listing_law [OF assms(1)] reg.listing_law [OF assms(2)] assms(3)
    by (auto simp: get_by_vtoken_def)
  then have eq: "set ?L = set ?L'" by (simp add: all_clients_in_filter)
  have d: "distinct (map name ?L)" "distinct (map name ?L')"
    using reg.distinct_names [OF assms(1)] reg.distinct_names [OF assms(2)]
    by (simp_all add: all_clients_in_filter distinct_map_filter)
  have "distinct (map name (sort_key name ?L))" "distinct (map name (sort_key name ?L'))"
    using d by (simp_all add: distinct_map distinct_sort)
  moreover have "inj_on name (set (sort_key name ?L) \<union> set (sort_key name ?L'))"
    using d eq by (simp add: distinct_map)
  ultimately show ?thesis using eq by (intro map_sorted_distinct_set_unique [of name]) simp_all
qed

section \<open>Properties\<close>

text \<open>C31: In every registry reachable through the operations of the type (with fresh credentials), the
  name index and the token index are inverse to each other: looking a client up by name and by hashed
  token agree, and iteration lists each client exactly once.\<close>

theorem registry_indexes_agree:
  assumes "registry_reachable sha r"
  shows "(get_by_name r n = Some c \<longleftrightarrow> name c = n \<and> get_by_vtoken r (vtoken c) = Some c)
    \<and> (c \<in> set (all_clients r) \<longleftrightarrow> get_by_name r (name c) = Some c)
    \<and> distinct (map name (all_clients r)) \<and> distinct (map vtoken (all_clients r))"
proof -
  have ok: "reg_ok r" by (rule reachable_reg_ok [OF assms])
  show ?thesis
    using reg.nm_law [OF ok, of n c] reg.tok_law [OF ok, of "vtoken c" c] reg.listed_names [OF ok]
      reg.distinct_names [OF ok] reg.listing_distinct [OF ok] by blast
qed

theorem registry_indexes_agree_witness:
  "get_by_name (snd (rotate_vtoken (\<lambda>s. replicate 32 (of_nat (length s))) ''bb'' ''mac''
      (snd (register (\<lambda>s. replicate 32 (of_nat (length s))) ''a'' 0 ''mac'' None None registry_new)))) ''mac'' \<noteq> None
   \<and> distinct (map name (all_clients (snd (rotate_vtoken (\<lambda>s. replicate 32 (of_nat (length s))) ''bb'' ''mac''
      (snd (register (\<lambda>s. replicate 32 (of_nat (length s))) ''a'' 0 ''mac'' None None registry_new))))))"
proof -
  let ?sha = "\<lambda>s. replicate 32 (of_nat (length s)) :: 8 word list"
  let ?r1 = "snd (register ?sha ''a'' 0 ''mac'' None None registry_new)"
  let ?r2 = "snd (rotate_vtoken ?sha ''bb'' ''mac'' ?r1)"
  have "registry_reachable ?sha ?r1"
    by (rule registry_reachable.step [OF registry_reachable.start register_step]) (simp add: fresh_hash_def registry_new_def)
  then have "registry_reachable ?sha ?r2"
    by (rule registry_reachable.step) (rule rotate_step, code_simp)
  from registry_indexes_agree [OF this] have "distinct (map name (all_clients ?r2))" by blast
  moreover have "get_by_name ?r2 ''mac'' \<noteq> None" by code_simp
  ultimately show ?thesis by blast
qed

text \<open>C32: Revocation is complete.  Rotating a client's token removes every path from the old hash to
  the client, makes the new hash resolve to the same client (same label, description, persona and
  registration time, marked offline), and leaves every other client untouched.\<close>

theorem rotate_revokes_old_token:
  assumes "registry_reachable sha r" "fresh_hash r (hash_vtoken sha (''vhub_'' @ uuid))"
    and "get_by_name r nm = Some c"
  shows "let (res, r') = rotate_vtoken sha uuid nm r; h = hash_vtoken sha (''vhub_'' @ uuid) in
    res = Some (''vhub_'' @ uuid, h) \<and> get_by_vtoken r' (vtoken c) = None
    \<and> get_by_vtoken r' h = Some (c\<lparr>vtoken := h, online := False\<rparr>)
    \<and> get_by_name r' nm = Some (c\<lparr>vtoken := h, online := False\<rparr>)
    \<and> (\<forall>k. k \<noteq> vtoken c \<longrightarrow> k \<noteq> h \<longrightarrow> get_by_vtoken r' k = get_by_vtoken r k)"
proof -
  have ok: "reg_ok r" by (rule reachable_reg_ok [OF assms(1)])
  obtain k where k: "map_of (by_name r) nm = Some k" "map_of (by_vtoken r) k = Some c"
    using assms(3) by (auto simp: get_by_name_def bind_eq_Some_conv)
  have "vtoken c = k" by (rule reg_okD(1) [OF ok k(2)])
  moreover from k(2) assms(2) have "k \<noteq> hash_vtoken sha (''vhub_'' @ uuid)" by (auto simp: fresh_hash_def)
  ultimately show ?thesis using k by (simp add: rotate_vtoken_def Let_def get_by_vtoken_def get_by_name_def)
qed

theorem rotate_revokes_old_token_witness:
  "get_by_vtoken (snd (rotate_vtoken (\<lambda>s. replicate 32 (of_nat (length s))) ''bb'' ''mac''
      (snd (register (\<lambda>s. replicate 32 (of_nat (length s))) ''a'' 0 ''mac'' None None registry_new))))
      (hash_vtoken (\<lambda>s. replicate 32 (of_nat (length s))) ''vhub_a'') = None"
proof -
  let ?sha = "\<lambda>s. replicate 32 (of_nat (length s)) :: 8 word list"
  let ?r1 = "snd (register ?sha ''a'' 0 ''mac'' None None registry_new)"
  let ?c = "with_hashed_vtoken 0 ''mac'' None None (hash_vtoken ?sha ''vhub_a'')"
  have 1: "registry_reachable ?sha ?r1"
    by (rule registry_reachable.step [OF registry_reachable.start register_step]) (simp add: fresh_hash_def registry_new_def)
  have 2: "fresh_hash ?r1 (hash_vtoken ?sha (''vhub_'' @ ''bb''))" by code_simp
  have 3: "get_by_name ?r1 ''mac'' = Some ?c" by code_simp
  have "vtoken ?c = hash_vtoken ?sha ''vhub_a''" by simp
  then show ?thesis using rotate_revokes_old_token [OF 1 2 3] by (simp add: case_prod_beta Let_def)
qed

text \<open>Aliases never escape the allowlist and do not depend on hash-map order: whatever a name or
  number resolves to is a registered client the allowlist permits, and two registries with the same
  contents but different iteration orders resolve every alias to the same client.\<close>

theorem alias_sound_and_stable:
  assumes "registry_reachable sha r"
  shows "(get_by_alias_in r nm (Some vis) = Some c \<longrightarrow> name c \<in> vis \<and> get_by_name r (name c) = Some c)
    \<and> (reg_ok r' \<longrightarrow> map_of (by_vtoken r) = map_of (by_vtoken r') \<longrightarrow> map_of (by_name r) = map_of (by_name r') \<longrightarrow>
        get_by_alias_in r' nm allowed = get_by_alias_in r nm allowed)"
proof -
  have ok: "reg_ok r" by (rule reachable_reg_ok [OF assms])
  have 1: "get_by_alias_in r nm (Some vis) = Some c \<Longrightarrow> name c \<in> vis \<and> get_by_name r (name c) = Some c"
    using alias_cases [OF _ ok, of nm "Some vis" c] by (simp add: permitted_def)
  have 2: "get_by_alias_in r' nm allowed = get_by_alias_in r nm allowed"
    if "reg_ok r'" "map_of (by_vtoken r) = map_of (by_vtoken r')" "map_of (by_name r) = map_of (by_name r')"
  proof -
    have "sort_key name (all_clients_in r allowed) = sort_key name (all_clients_in r' allowed)"
      by (rule sorted_listing_unique [OF ok that(1,2)])
    moreover have "get_by_name r' = get_by_name r" by (intro ext) (simp only: get_by_name_def that)
    ultimately show ?thesis by (simp only: get_by_alias_in_def)
  qed
  from 1 2 show ?thesis by blast
qed

theorem alias_sound_and_stable_witness:
  "let r = snd (register (\<lambda>s. replicate 32 (of_nat (length s))) ''bb'' 0 ''alpha'' None None
             (snd (register (\<lambda>s. replicate 32 (of_nat (length s))) ''a'' 0 ''mac'' None None registry_new)))
   in map_option name (get_by_alias_in r ''1'' (Some {''mac''})) = Some ''mac'' \<and> ''mac'' \<in> {''mac''}"
proof -
  let ?sha = "\<lambda>s. replicate 32 (of_nat (length s)) :: 8 word list"
  let ?r1 = "snd (register ?sha ''a'' 0 ''mac'' None None registry_new)"
  let ?r2 = "snd (register ?sha ''bb'' 0 ''alpha'' None None ?r1)"
  have "registry_reachable ?sha ?r1"
    by (rule registry_reachable.step [OF registry_reachable.start register_step]) (simp add: fresh_hash_def registry_new_def)
  then have r: "registry_reachable ?sha ?r2"
    by (rule registry_reachable.step) (rule register_step, code_simp)
  let ?c = "with_hashed_vtoken 0 ''mac'' None None (hash_vtoken ?sha ''vhub_a'')"
  have "get_by_name ?r2 ''1'' = None" "all_clients_in ?r2 (Some {''mac''}) = [?c]" by code_simp+
  moreover have "parse_u64 ''1'' = Some 1"     by (simp add: parse_u64_def parse_unsigned_def digit_val_def u64_max_def)
  ultimately have c: "get_by_alias_in ?r2 ''1'' (Some {''mac''}) = Some ?c"
    unfolding get_by_alias_in_def by simp
  have "name ?c \<in> {''mac''}"
    by (rule alias_sound_and_stable [OF r, THEN conjunct1, rule_format, OF c, THEN conjunct1])
  then show ?thesis unfolding Let_def c by simp
qed

end
