(* ===== verification/Hub_Router.thy ===== *)
theory Hub_Router
  imports Ilink_Types
begin

text \<open>
  The message router of \<open>hub/router.rs\<close>: the parser of the slash commands, the parser of \<open>@backend\<close>
  mentions, and the per-user route table with its decision function.  The local time stamp that names
  a session created without a name is an argument.
\<close>

section \<open>Commands\<close>

datatype HubCommand = ListClients | UseClient string | BroadcastText string | Status | Help
  | SessionList | SessionNew string string | SessionUse string | SessionDelete string

definition first_prefix :: "string \<Rightarrow> string list \<Rightarrow> string option" where
  "first_prefix t ps = find_map (strip_prefix t) ps"

definition is_any :: "string \<Rightarrow> string list \<Rightarrow> bool" where
  "is_any t ws = list_ex (eq_ignore_ascii_case t) ws"

definition session_new_args :: "string \<Rightarrow> string \<Rightarrow> HubCommand" where
  "session_new_args ts rest0 =
     (let rest = trim rest0;
          (n, u) = (case split_once '' '' rest of None \<Rightarrow> (rest, []) | Some (a, b) \<Rightarrow> (a, b));
          nm = trim n
      in SessionNew (if nm = [] then ''session-'' @ ts else nm) (trim u))"

definition parse_hub_command :: "string \<Rightarrow> string \<Rightarrow> HubCommand option" where
  "parse_hub_command ts text0 =
     (let t = trim text0 in
      if is_any t [''/list'', ''/ls''] then Some ListClients
      else if is_any t [''/status'', ''/s''] then Some Status
      else if is_any t [''/help'', ''/?'', ''/h''] then Some Help
      else case first_prefix t [''/use '', ''/u '', ''/switch ''] of
        Some rest \<Rightarrow> Some (UseClient (trim rest))
      | None \<Rightarrow> (case first_prefix t [''/broadcast '', ''/all ''] of
          Some rest \<Rightarrow> Some (BroadcastText (trim rest))
        | None \<Rightarrow>
            if is_any t [''/session list'', ''/session ls'', ''/sl''] then Some SessionList
            else case opt_or (first_prefix t [''/session new '', ''/sn ''])
                        (if is_any t [''/session new'', ''/sn''] then Some [] else None) of
              Some rest \<Rightarrow> Some (session_new_args ts rest)
            | None \<Rightarrow>
                (case opt_filter (\<lambda>r. trim r \<noteq> []) (first_prefix t [''/session use '', ''/su '']) of
                   Some rest \<Rightarrow> Some (SessionUse (trim rest))
                 | None \<Rightarrow>
                    (case opt_filter (\<lambda>r. trim r \<noteq> [])
                            (first_prefix t [''/session delete '', ''/session rm '', ''/session del '', ''/sd '']) of
                       Some rest \<Rightarrow> Some (SessionDelete (trim rest))
                     | None \<Rightarrow> None))))"

section \<open>Mentions\<close>

definition is_ascii :: "char \<Rightarrow> bool" where
  "is_ascii c \<longleftrightarrow> (of_char c :: nat) < 128"

definition ascii_space :: "char \<Rightarrow> bool" where
  "ascii_space c \<longleftrightarrow> (let n = (of_char c :: nat) in 9 \<le> n \<and> n \<le> 13 \<or> n = 32)"

text \<open>\<open>split_once(char::is_whitespace)\<close>\<close>

fun split_once_ws :: "string \<Rightarrow> (string \<times> string) option" where
  "split_once_ws [] = None"
| "split_once_ws (c # s) = (case strip_any ws_enc (c # s) of Some t \<Rightarrow> Some ([], t)
     | None \<Rightarrow> map_option (\<lambda>(a, b). (c # a, b)) (split_once_ws s))"

definition parse_at_mention :: "string \<Rightarrow> (string \<times> string) option" where
  "parse_at_mention text0 = (case strip_prefix (trim_start text0) ''@'' of None \<Rightarrow> None
   | Some rest \<Rightarrow>
      (let starts_with_ascii = (rest \<noteq> [] \<and> is_ascii (hd rest));
           in_name = (\<lambda>c. is_ascii c \<and> \<not> ascii_space c);
           (n, m) = (if starts_with_ascii
              then (takeWhile in_name rest, trim_start (dropWhile in_name rest))
              else (case split_once_ws rest of Some (a, b) \<Rightarrow> (a, b) | None \<Rightarrow> (rest, [])));
           nm = trim n
       in if nm = [] then None else Some (nm, trim m)))"

section \<open>Routes\<close>

datatype RoutingDecision = ForwardTo vtoken "string option" | Broadcast | HubInternal HubCommand

record Router =
  active_routes :: "(string, vtoken) hmap"
  default_client :: "vtoken option"

definition Router_new :: "vtoken option \<Rightarrow> Router" where
  "Router_new d = \<lparr>active_routes = [], default_client = d\<rparr>"

definition set_default :: "vtoken \<Rightarrow> Router \<Rightarrow> Router" where
  "set_default v r = r\<lparr>default_client := Some v\<rparr>"

definition unset_default :: "Router \<Rightarrow> Router" where
  "unset_default r = r\<lparr>default_client := None\<rparr>"

definition set_route :: "string \<Rightarrow> vtoken \<Rightarrow> Router \<Rightarrow> Router" where
  "set_route user v r = r\<lparr>active_routes := AList.update user v (active_routes r)\<rparr>"

definition remove_routes_for_vtoken :: "vtoken \<Rightarrow> vtoken option \<Rightarrow> Router \<Rightarrow> Router" where
  "remove_routes_for_vtoken v new_default r =
     (let r1 = (if default_client r = Some v then r\<lparr>default_client := new_default\<rparr> else r)
      in r1\<lparr>active_routes := hm_retain (\<lambda>_ vt. vt \<noteq> v) (active_routes r1)\<rparr>)"

definition get_route :: "Router \<Rightarrow> string \<Rightarrow> vtoken option" where
  "get_route r user = opt_or (map_of (active_routes r) user) (default_client r)"

definition route :: "string \<Rightarrow> Router \<Rightarrow> WeixinMessage \<Rightarrow> RoutingDecision" where
  "route ts r m = (case Option.bind (msg_text m) (parse_hub_command ts) of
     Some cmd \<Rightarrow> HubInternal cmd
   | None \<Rightarrow> (case get_route r (unwrap_or [] (from_user_id m)) of
        Some v \<Rightarrow> ForwardTo v None
      | None \<Rightarrow> HubInternal Help))"

section \<open>Lemmas on trimming\<close>

lemma trim_with_decompose: "\<exists>es. set es \<subseteq> set encs \<and> [] \<notin> set es \<and> s = concat es @ trim_with encs s"
proof (induction encs s rule: trim_with.induct)
  case (1 encs s)
  show ?case
  proof (cases "strip_any encs s")
    case None
    then show ?thesis by (intro exI [of _ "[]"]) (simp add: trim_with_id)
  next
    case (Some t)
    then obtain e where e: "e \<in> set encs" "e \<noteq> []" "s = e @ t"
      unfolding strip_any_def by (auto simp: strip_prefix_iff dest!: find_map_Some split: if_splits)
    from 1 [OF Some] obtain es where es: "set es \<subseteq> set encs" "[] \<notin> set es" "t = concat es @ trim_with encs t" by blast
    have "trim_with encs s = trim_with encs t" using Some by (simp add: trim_with.simps [of encs s])
    with e es have "s = concat (e # es) @ trim_with encs s" by simp
    with e es show ?thesis by (intro exI [of _ "e # es"]) simp
  qed
qed

lemma strip_any_SomeD: "strip_any encs s = Some t \<Longrightarrow> \<exists>e \<in> set encs. e \<noteq> [] \<and> s = e @ t"
  unfolding strip_any_def by (drule find_map_Some) (auto simp: strip_prefix_iff split: if_splits)

lemma strip_any_member: "e \<in> set encs \<Longrightarrow> e \<noteq> [] \<Longrightarrow> strip_any encs (e @ s) \<noteq> None"
  unfolding strip_any_def find_map_None by (auto intro!: bexI [of _ e])

text \<open>A non-empty string with no white space at its end does not trim to nothing.\<close>

lemma trim_nonempty:
  assumes "strip_any (map rev ws_enc) (rev s) = None" "s \<noteq> []"
  shows "trim s \<noteq> []"
proof
  assume e: "trim s = []"
  obtain es where es: "set es \<subseteq> set ws_enc" "[] \<notin> set es" "s = concat es @ trim_start s"
    using trim_with_decompose [of ws_enc s] by (auto simp: trim_start_def)
  have "trim_start s = []"
  proof (rule ccontr)
    assume n: "trim_start s \<noteq> []"
    have "suffix (trim_start s) s" unfolding trim_start_def by (rule trim_with_suffix)
    then have "strip_any (map rev ws_enc) (rev (trim_start s)) = None"
      using strip_any_mono [OF _ assms(1)] by (simp add: suffix_to_prefix)
    then have "trim s = trim_start s" by (simp add: trim_def trim_end_def trim_with_id)
    with e n show False by simp
  qed
  with es assms(2) have "es \<noteq> []" "s = concat es" by auto
  then have "s = concat (butlast es) @ last es" by (metis append_butlast_last_id concat.simps concat_append append_Nil2)
  then have "rev s = rev (last es) @ rev (concat (butlast es))" by simp
  moreover have "rev (last es) \<in> set (map rev ws_enc)" "rev (last es) \<noteq> []"
    using es \<open>es \<noteq> []\<close> by (auto dest: last_in_set)
  ultimately show False using strip_any_member assms(1) by metis
qed

lemma trim_no_trailing: "strip_any (map rev ws_enc) (rev (trim s)) = None"
  by (simp add: trim_def trim_end_def trim_with_done)

lemma trim_rest_nonempty:
  assumes "trim t = p @ rest" "strip_any (map rev ws_enc) (rev p) \<noteq> None"
  shows "trim rest \<noteq> []"
proof (rule trim_nonempty)
  have none: "strip_any (map rev ws_enc) (rev rest @ rev p) = None"
    using trim_no_trailing [of t] assms(1) by simp
  then show "strip_any (map rev ws_enc) (rev rest) = None" by (rule strip_any_mono [rotated]) simp
  show "rest \<noteq> []" using none assms(2) by auto
qed

lemma trailing_space: "p \<noteq> [] \<Longrightarrow> last p = CHR '' '' \<Longrightarrow> strip_any (map rev ws_enc) (rev p) \<noteq> None"
proof -
  assume "p \<noteq> []" "last p = CHR '' ''"
  then have r: "rev p = [CHR '' ''] @ rev (butlast p)" by (cases p rule: rev_cases) simp_all
  have "[CHR '' ''] \<in> set (map rev ws_enc)" by (simp add: ws_enc_def)
  then show ?thesis unfolding r by (rule strip_any_member) simp
qed

lemma first_prefix_arg:
  assumes "first_prefix (trim t) ps = Some rest" "list_all (\<lambda>p. p \<noteq> [] \<and> last p = CHR '' '') ps"
  shows "trim rest \<noteq> []"
proof -
  obtain p where "p \<in> set ps" "trim t = p @ rest"
    using assms(1) unfolding first_prefix_def by (auto dest!: find_map_Some simp: strip_prefix_iff)
  moreover from this assms(2) have "strip_any (map rev ws_enc) (rev p) \<noteq> None"
    by (intro trailing_space) (auto simp: list_all_iff)
  ultimately show ?thesis by (intro trim_rest_nonempty)
qed

text \<open>The arguments a command carries.\<close>

fun cmd_args :: "HubCommand \<Rightarrow> string list" where
  "cmd_args (UseClient n) = [n]"
| "cmd_args (BroadcastText n) = [n]"
| "cmd_args (SessionNew n u) = [n]"
| "cmd_args (SessionUse n) = [n]"
| "cmd_args (SessionDelete n) = [n]"
| "cmd_args _ = []"

section \<open>Lemmas on parsing a rendered command\<close>

lemma ascii_lower_id: "(of_char c :: nat) < 65 \<or> 90 < (of_char c :: nat) \<Longrightarrow> ascii_lower c = c"
  by (auto simp: ascii_lower_def Let_def)

text \<open>Appending a trimmed argument to a prefix that ends in a space yields a trimmed string.\<close>

lemma ws_enc_space: "e \<in> set ws_enc \<Longrightarrow> CHR '' '' \<in> set e \<Longrightarrow> e = [CHR '' '']"
  by (auto simp: ws_enc_def)

lemma trimmed_append:
  assumes "graphic c" "trim n = n" "n \<noteq> []"
  shows "trim (c # p @ CHR '' '' # n) = c # p @ CHR '' '' # n" (is "trim ?s = ?s")
proof -
  have n: "strip_any (map rev ws_enc) (rev n) = None" using trim_no_trailing [of n] assms(2) by simp
  have "strip_any (map rev ws_enc) (rev ?s) = None"
  proof (rule ccontr)
    assume "strip_any (map rev ws_enc) (rev ?s) \<noteq> None"
    then obtain u where "strip_any (map rev ws_enc) (rev ?s) = Some u" by blast
    from strip_any_SomeD [OF this] obtain e where e: "e \<in> set ws_enc" "rev ?s = rev e @ u" "e \<noteq> []"
      by auto
    have "prefix (rev e) (rev n) \<or> prefix (rev n @ [CHR '' '']) (rev e)"
    proof -
      have "rev e @ u = rev n @ CHR '' '' # (rev p @ [c])" using e(2) by simp
      then have "prefix (rev e) (rev n @ CHR '' '' # (rev p @ [c]))" by (metis prefixI)
      then consider "prefix (rev e) (rev n)"
        | us where "rev e = rev n @ us" "prefix us (CHR '' '' # (rev p @ [c]))"
        unfolding prefix_append by blast
      then show ?thesis by cases (auto simp: prefix_Cons)
    qed
    then show False
    proof
      assume "prefix (rev e) (rev n)"
      then have "strip_any (map rev ws_enc) (rev n) \<noteq> None"
        using strip_any_member [of "rev e" "map rev ws_enc"] e(1,3) by (auto simp: prefix_def)
      with n show False by simp
    next
      assume pr: "prefix (rev n @ [CHR '' '']) (rev e)"
      then have "CHR '' '' \<in> set e" by (metis in_set_conv_decomp set_mono_prefix set_rev subsetD)
      then have "e = [CHR '' '']" by (rule ws_enc_space [OF e(1)])
      with pr assms(3) show False by (simp add: prefix_Cons)
    qed
  qed
  moreover have "strip_any ws_enc ?s = None" by (rule strip_any_graphic) (simp add: assms(1))
  ultimately show ?thesis by (simp add: trim_def trim_start_def trim_end_def trim_with_id)
qed

lemmas parse_lits = parse_hub_command_def is_any_def first_prefix_def eq_ignore_ascii_case_def
  strip_prefix_def ascii_lower_id

section \<open>Lemmas on routes\<close>

lemma get_route_remove:
  "get_route (remove_routes_for_vtoken v d r) user = Some u \<Longrightarrow> d \<noteq> Some v \<Longrightarrow> u \<noteq> v"
  by (auto simp: get_route_def remove_routes_for_vtoken_def hm_retain_def Let_def opt_or_def
      split: option.splits if_splits dest!: map_of_SomeD)

section \<open>Properties\<close>

text \<open>Commands never carry an empty argument: whatever text the user sends, a parsed \<open>/use\<close>,
  \<open>/broadcast\<close>, \<open>/session new\<close>, \<open>/session use\<close> or \<open>/session delete\<close> has a non-empty name or text, and
  surrounding white space does not change which command is parsed.\<close>

theorem parse_command_args_nonempty:
  "parse_hub_command ts (trim t) = parse_hub_command ts t \<and>
   (case parse_hub_command ts t of None \<Rightarrow> True | Some cmd \<Rightarrow> [] \<notin> set (cmd_args cmd))"
proof -
  have "[] \<notin> set (cmd_args cmd)" if "parse_hub_command ts t = Some cmd" for cmd
    using that first_prefix_arg [of t "[''/use '', ''/u '', ''/switch '']"]
      first_prefix_arg [of t "[''/broadcast '', ''/all '']"]
    by (auto simp: parse_hub_command_def Let_def session_new_args_def split: if_splits option.splits)
  then show ?thesis by (auto simp: parse_hub_command_def split: option.split)
qed

text \<open>Rendering and parsing commands round-trips: for every trimmed non-empty argument, the text a
  user types for \<open>/use\<close>, \<open>/broadcast\<close>, \<open>/session use\<close> and \<open>/session delete\<close> parses back to exactly that
  command with exactly that argument.\<close>

theorem parse_command_round_trip:
  assumes "trim n = n" "n \<noteq> []"
  shows "parse_hub_command ts (''/use '' @ n) = Some (UseClient n)
    \<and> parse_hub_command ts (''/broadcast '' @ n) = Some (BroadcastText n)
    \<and> parse_hub_command ts (''/session use '' @ n) = Some (SessionUse n)
    \<and> parse_hub_command ts (''/session delete '' @ n) = Some (SessionDelete n)"
proof (intro conjI)
  have g: "graphic CHR ''/''" by (simp add: graphic_def)
  show "parse_hub_command ts (''/use '' @ n) = Some (UseClient n)"
    using trimmed_append [OF g assms, of "''use''"] assms by (simp add: parse_lits)
  show "parse_hub_command ts (''/broadcast '' @ n) = Some (BroadcastText n)"
    using trimmed_append [OF g assms, of "''broadcast''"] assms by (simp add: parse_lits)
  show "parse_hub_command ts (''/session use '' @ n) = Some (SessionUse n)"
    using trimmed_append [OF g assms, of "''session use''"] assms by (simp add: parse_lits)
  show "parse_hub_command ts (''/session delete '' @ n) = Some (SessionDelete n)"
    using trimmed_append [OF g assms, of "''session delete''"] assms by (simp add: parse_lits)
qed

theorem parse_command_round_trip_witness:
  "parse_hub_command ''t'' ''/use mac'' = Some (UseClient ''mac'')"
proof -
  have 1: "trim ''mac'' = ''mac''" by (rule trim_graphic) (simp add: graphic_def)
  have 2: "''mac'' \<noteq> []" by simp
  show ?thesis using parse_command_round_trip [OF 1 2, of "''t''"] by simp
qed

text \<open>The router never broadcasts on its own, and it forwards a message only to the route chosen by
  the sending user or, when that user has none, to the default client; a message that reads as a
  command is never forwarded, and with neither route nor default the user gets the help text.\<close>

theorem route_targets:
  "route ts r m \<noteq> Broadcast \<and>
   (route ts r m = ForwardTo v so \<longleftrightarrow> so = None \<and> Option.bind (msg_text m) (parse_hub_command ts) = None \<and>
      (map_of (active_routes r) (unwrap_or [] (from_user_id m)) = Some v \<or>
       map_of (active_routes r) (unwrap_or [] (from_user_id m)) = None \<and> default_client r = Some v)) \<and>
   (route ts r m = HubInternal cmd \<longleftrightarrow> Option.bind (msg_text m) (parse_hub_command ts) = Some cmd \<or>
      Option.bind (msg_text m) (parse_hub_command ts) = None \<and> cmd = Help \<and> default_client r = None \<and>
      map_of (active_routes r) (unwrap_or [] (from_user_id m)) = None)"
  by (auto simp: route_def get_route_def opt_or_def split: option.splits)

text \<open>A removed backend is unreachable: after its routes are removed, no user's message is routed to
  it, as long as it is not itself chosen as the new default; users routed elsewhere keep their route.\<close>

theorem removed_backend_unreachable:
  assumes "d \<noteq> Some v"
  shows "route ts (remove_routes_for_vtoken v d r) m \<noteq> ForwardTo v so \<and>
    (get_route r user \<noteq> Some v \<longrightarrow> hm_wf (active_routes r) \<longrightarrow>
       get_route (remove_routes_for_vtoken v d r) user = get_route r user)"
proof
  have "get_route (remove_routes_for_vtoken v d r) u \<noteq> Some v" for u
    using get_route_remove [of v d r u v] assms by auto
  then show "route ts (remove_routes_for_vtoken v d r) m \<noteq> ForwardTo v so"
    by (auto simp: route_def split: option.splits)
  show "get_route r user \<noteq> Some v \<longrightarrow> hm_wf (active_routes r) \<longrightarrow>
       get_route (remove_routes_for_vtoken v d r) user = get_route r user"
    by (auto simp: get_route_def remove_routes_for_vtoken_def Let_def map_of_retain opt_or_def split: option.splits)
qed

theorem removed_backend_unreachable_witness:
  "route ''t'' (remove_routes_for_vtoken ''v1'' (Some ''v2'')
       \<lparr>active_routes = [(''u'', ''v1'')], default_client = Some ''v1''\<rparr>)
     (WeixinMessage_default\<lparr>from_user_id := Some ''u''\<rparr>) \<noteq> ForwardTo ''v1'' None"
proof -
  have "Some ''v2'' \<noteq> Some ''v1''" by simp
  from removed_backend_unreachable [OF this] show ?thesis by blast
qed

end
