(* ===== verification/Pairing.thy ===== *)
theory Pairing
  imports Rust_Str
begin

text \<open>
  Client pairing, \<open>hub/pairing.rs\<close>: the session state machine (wait, scanned, confirmed, expired), its
  time limits, the CSRF check with its constant-time comparison, and the window in which a confirmed
  token may be claimed.  Clock readings, session codes and CSRF tokens are arguments.  The step
  relation \<open>pairing_step\<close> interleaves all operations with a clock that never goes back.
\<close>

section \<open>The code\<close>

definition PAIRING_TTL :: nat where "PAIRING_TTL = secs 600"
definition SCANNED_TTL :: nat where "SCANNED_TTL = secs 60"
definition CONFIRMED_TTL :: nat where "CONFIRMED_TTL = secs 86400"
definition VTOKEN_CLAIM_WINDOW :: nat where "VTOKEN_CLAIM_WINDOW = secs 120"
definition MAX_PAIRING_SESSIONS :: nat where "MAX_PAIRING_SESSIONS = 1024"

datatype PairingStatus = Wait | Scanned | Confirmed | Expired

datatype PairingError = SessionNotFound | SessionExpired | AlreadyConfirmed | NotScanned | CsrfMismatch
  | TooManySessions | NameCollision

record PairingSession =
  code :: string
  created_at :: instant
  scanned_at :: "instant option"
  status :: PairingStatus
  session_vtoken :: "string option"
  client_name :: "string option"
  client_label :: "string option"
  csrf :: "string option"

definition is_expired :: "instant \<Rightarrow> PairingSession \<Rightarrow> bool" where
  "is_expired now s = (case status s of
     Confirmed \<Rightarrow> False
   | Scanned \<Rightarrow> (case scanned_at s of Some t \<Rightarrow> elapsed now t > SCANNED_TTL
                 | None \<Rightarrow> elapsed now (created_at s) > PAIRING_TTL)
   | _ \<Rightarrow> elapsed now (created_at s) > PAIRING_TTL)"

definition should_evict :: "instant \<Rightarrow> PairingSession \<Rightarrow> bool" where
  "should_evict now s = (case status s of
     Confirmed \<Rightarrow> elapsed now (created_at s) > CONFIRMED_TTL
   | Scanned \<Rightarrow> (case scanned_at s of Some t \<Rightarrow> elapsed now t > SCANNED_TTL
                 | None \<Rightarrow> elapsed now (created_at s) > PAIRING_TTL)
   | _ \<Rightarrow> elapsed now (created_at s) > PAIRING_TTL)"

definition public_status :: "instant \<Rightarrow> PairingSession \<Rightarrow> PairingStatus" where
  "public_status now s = (if is_expired now s then Expired else status s)"

definition status_str :: "instant \<Rightarrow> PairingSession \<Rightarrow> string" where
  "status_str now s = (case public_status now s of
     Wait \<Rightarrow> ''wait'' | Scanned \<Rightarrow> ''scaned'' | Confirmed \<Rightarrow> ''confirmed'' | Expired \<Rightarrow> ''expired'')"

record PairingRegistry =
  sessions :: "(string, PairingSession) hmap"
  confirmed_sessions :: "(string, PairingSession \<times> instant) hmap"

definition PairingRegistry_new :: PairingRegistry where
  "PairingRegistry_new = \<lparr>sessions = [], confirmed_sessions = []\<rparr>"

definition purge_expired :: "instant \<Rightarrow> PairingRegistry \<Rightarrow> PairingRegistry" where
  "purge_expired now p =
     \<lparr>sessions = hm_retain (\<lambda>_ s. \<not> should_evict now s) (sessions p),
      confirmed_sessions = hm_retain (\<lambda>_ (s, t). elapsed now t < CONFIRMED_TTL) (confirmed_sessions p)\<rparr>"

text \<open>\<open>create\<close> with the simple form of a fresh UUID.\<close>

definition create :: "instant \<Rightarrow> string \<Rightarrow> PairingRegistry \<Rightarrow> (PairingError + string) \<times> PairingRegistry" where
  "create now uuid p0 =
     (let p = purge_expired now p0 in
      if length (sessions p) + length (confirmed_sessions p) \<ge> MAX_PAIRING_SESSIONS then (Inl TooManySessions, p)
      else let c = ''pair_'' @ uuid in
        (Inr c, p\<lparr>sessions := AList.update c
           \<lparr>code = c, created_at = now, scanned_at = None, status = Wait, session_vtoken = None,
            client_name = None, client_label = None, csrf = None\<rparr> (sessions p)\<rparr>))"

definition pairing_get :: "PairingRegistry \<Rightarrow> string \<Rightarrow> PairingSession option" where
  "pairing_get p c = (case map_of (sessions p) c of Some s \<Rightarrow> Some s
     | None \<Rightarrow> map_option fst (map_of (confirmed_sessions p) c))"

definition claim_confirmed_vtoken ::
  "instant \<Rightarrow> string \<Rightarrow> PairingRegistry \<Rightarrow> (PairingSession \<times> string option) option \<times> PairingRegistry"
where
  "claim_confirmed_vtoken now c p0 =
     (let p = purge_expired now p0 in
      case map_of (confirmed_sessions p) c of
        Some (s, confirmed_at) \<Rightarrow>
          if session_vtoken s = None then (Some (s, None), p)
          else if elapsed now confirmed_at < VTOKEN_CLAIM_WINDOW then (Some (s, session_vtoken s), p)
          else let s' = s\<lparr>session_vtoken := None\<rparr>
               in (Some (s', None), p\<lparr>confirmed_sessions := AList.update c (s', confirmed_at) (confirmed_sessions p)\<rparr>)
      | None \<Rightarrow> (map_option (\<lambda>s. (s, None)) (map_of (sessions p) c), p))"

text \<open>\<open>mark_scanned\<close> with the CSRF token that \<open>generate_csrf\<close> would mint.\<close>

definition mark_scanned :: "instant \<Rightarrow> string \<Rightarrow> string \<Rightarrow> PairingRegistry \<Rightarrow> bool \<times> PairingRegistry" where
  "mark_scanned now fresh_csrf c p0 =
     (let p = purge_expired now p0 in
      case map_of (sessions p) c of
        None \<Rightarrow> (False, p)
      | Some s \<Rightarrow>
          if is_expired now s then (False, p\<lparr>sessions := AList.update c (s\<lparr>status := Expired\<rparr>) (sessions p)\<rparr>)
          else let s1 = (if status s = Wait then s\<lparr>status := Scanned, scanned_at := Some now\<rparr> else s);
                   s2 = (if csrf s1 = None then s1\<lparr>csrf := Some fresh_csrf\<rparr> else s1)
               in (True, p\<lparr>sessions := AList.update c s2 (sessions p)\<rparr>))"

definition as_bytes :: "string \<Rightarrow> 8 word list" where
  "as_bytes s = map (\<lambda>c. word_of_nat (of_char c)) s"

definition constant_time_eq :: "8 word list \<Rightarrow> 8 word list \<Rightarrow> bool" where
  "constant_time_eq a b = (if length a \<noteq> length b then False
     else foldl (\<lambda>diff (x, y). or diff (xor x y)) 0 (zip a b) = 0)"

definition csrf_matches :: "PairingSession \<Rightarrow> string \<Rightarrow> bool" where
  "csrf_matches s hdr = (case csrf s of Some tok \<Rightarrow> constant_time_eq (as_bytes tok) (as_bytes hdr) | None \<Rightarrow> False)"

definition pre_check_confirm ::
  "instant \<Rightarrow> string \<Rightarrow> string \<Rightarrow> PairingRegistry \<Rightarrow> (PairingError + unit) \<times> PairingRegistry"
where
  "pre_check_confirm now c hdr p0 =
     (let p = purge_expired now p0 in
      (if hm_contains (confirmed_sessions p) c then Inl AlreadyConfirmed
       else case map_of (sessions p) c of
         None \<Rightarrow> Inl SessionNotFound
       | Some s \<Rightarrow>
           if is_expired now s then Inl SessionExpired
           else if status s = Confirmed then Inl AlreadyConfirmed
           else if \<not> csrf_matches s hdr then Inl CsrfMismatch
           else if status s \<noteq> Scanned then Inl NotScanned
           else Inr (), p))"

text \<open>\<open>confirm\<close> takes the session out of the map before it runs the checks.\<close>

definition confirm ::
  "instant \<Rightarrow> string \<Rightarrow> string \<Rightarrow> string option \<Rightarrow> string \<Rightarrow> string \<Rightarrow> PairingRegistry
     \<Rightarrow> (PairingError + unit) \<times> PairingRegistry"
where
  "confirm now c cname clabel tok hdr p0 =
     (let p = purge_expired now p0 in
      if hm_contains (confirmed_sessions p) c then (Inl AlreadyConfirmed, p)
      else case map_of (sessions p) c of
        None \<Rightarrow> (Inl SessionNotFound, p)
      | Some s \<Rightarrow>
          (let p1 = p\<lparr>sessions := AList.delete c (sessions p)\<rparr> in
           if is_expired now s then (Inl SessionExpired, p1)
           else if status s = Confirmed then (Inl AlreadyConfirmed, p1)
           else if \<not> csrf_matches s hdr then (Inl CsrfMismatch, p1)
           else if status s \<noteq> Scanned then (Inl NotScanned, p1)
           else (Inr (), p1\<lparr>confirmed_sessions := AList.update c
                    (s\<lparr>csrf := None, status := Confirmed, session_vtoken := Some tok,
                       client_name := Some cname, client_label := clabel\<rparr>, now) (confirmed_sessions p1)\<rparr>)))"

definition remove_confirmed :: "string \<Rightarrow> PairingRegistry \<Rightarrow> PairingRegistry" where
  "remove_confirmed c p = p\<lparr>confirmed_sessions := AList.delete c (confirmed_sessions p)\<rparr>"

lemmas pairing_ttls = PAIRING_TTL_def SCANNED_TTL_def CONFIRMED_TTL_def VTOKEN_CLAIM_WINDOW_def

section \<open>The comparison\<close>

lemma diff_zero_iff:
  "length a = length b \<Longrightarrow>
     foldl (\<lambda>diff (x, y). or diff (xor x y)) d (zip a b) = (0 :: 8 word) \<longleftrightarrow> d = 0 \<and> a = b"
proof (induction a b arbitrary: d rule: list_induct2)
  case Nil
  then show ?case by simp
next
  case (Cons x xs y ys)
  have "xor x y = 0 \<longleftrightarrow> x = y" by (auto simp: bit_eq_iff bit_xor_iff)
  then have "or d (xor x y) = 0 \<longleftrightarrow> d = 0 \<and> x = y" by (simp add: or_eq_0_iff)
  with Cons.IH [of "or d (xor x y)"] show ?case by auto
qed

lemma as_bytes_inj: "as_bytes a = as_bytes b \<longleftrightarrow> a = b"
proof -
  have "inj (\<lambda>c. word_of_nat (of_char c) :: 8 word)"
  proof (rule injI)
    fix c d :: char
    assume "(word_of_nat (of_char c) :: 8 word) = word_of_nat (of_char d)"
    then have "unat (word_of_nat (of_char c) :: 8 word) = unat (word_of_nat (of_char d) :: 8 word)" by simp
    moreover have "(of_char x :: nat) < 256" for x
      by (metis of_char_mod_256 mod_less_divisor zero_less_numeral)
    ultimately have "(of_char c :: nat) = of_char d"
      by (simp add: unat_of_nat take_bit_nat_eq_self)
    then show "c = d" by simp
  qed
  then show ?thesis by (simp add: as_bytes_def inj_map_eq_map)
qed

lemma constant_time_eq_iff: "constant_time_eq a b \<longleftrightarrow> a = b"
  by (auto simp: constant_time_eq_def diff_zero_iff)

lemma csrf_matches_iff: "csrf_matches s hdr \<longleftrightarrow> csrf s = Some hdr"
  by (auto simp: csrf_matches_def constant_time_eq_iff as_bytes_inj split: option.split)

section \<open>The invariant\<close>

text \<open>
  Unconfirmed sessions hold no token, are never in state \<open>Confirmed\<close>, and carry a CSRF token exactly
  from the first scan on; confirmed sessions have consumed theirs; the total stays within the cap.
\<close>

definition open_ok :: "PairingSession \<Rightarrow> bool" where
  "open_ok s \<longleftrightarrow> status s \<noteq> Confirmed \<and> session_vtoken s = None \<and>
     (status s = Wait \<longrightarrow> csrf s = None \<and> scanned_at s = None) \<and>
     (status s = Scanned \<longrightarrow> csrf s \<noteq> None \<and> scanned_at s \<noteq> None)"

definition pairing_ok :: "PairingRegistry \<Rightarrow> bool" where
  "pairing_ok p \<longleftrightarrow> hm_wf (sessions p) \<and> hm_wf (confirmed_sessions p) \<and>
     (\<forall>c s. map_of (sessions p) c = Some s \<longrightarrow> open_ok s) \<and>
     (\<forall>c s t. map_of (confirmed_sessions p) c = Some (s, t) \<longrightarrow> status s = Confirmed \<and> csrf s = None) \<and>
     length (sessions p) + length (confirmed_sessions p) \<le> MAX_PAIRING_SESSIONS"

lemma pairing_ok_new: "pairing_ok PairingRegistry_new"
  by (simp add: pairing_ok_def PairingRegistry_new_def)

lemma purge_lookup:
  assumes "hm_wf (sessions p)" "hm_wf (confirmed_sessions p)"
  shows "map_of (sessions (purge_expired now p)) c = opt_filter (\<lambda>s. \<not> should_evict now s) (map_of (sessions p) c)"
    and "map_of (confirmed_sessions (purge_expired now p)) c =
      opt_filter (\<lambda>(s, t). elapsed now t < CONFIRMED_TTL) (map_of (confirmed_sessions p) c)"
  using hm.get_keep [OF assms(1), of "\<lambda>_ s. \<not> should_evict now s" c]
    hm.get_keep [OF assms(2), of "\<lambda>_ (s, t). elapsed now t < CONFIRMED_TTL" c]
  by (simp_all add: purge_expired_def)

lemma pairing_ok_purge:
  assumes "pairing_ok p"
  shows "pairing_ok (purge_expired now p)"
proof -
  have wf: "hm_wf (sessions p)" "hm_wf (confirmed_sessions p)" using assms by (simp_all add: pairing_ok_def)
  have "length (sessions (purge_expired now p)) + length (confirmed_sessions (purge_expired now p))
      \<le> length (sessions p) + length (confirmed_sessions p)"
    unfolding purge_expired_def by (auto intro!: add_mono length_retain)
  then show ?thesis using assms unfolding pairing_ok_def purge_lookup [OF wf]
    by (auto simp: purge_expired_def intro: wf_retain) blast+
qed

lemma pairing_ok_open:
  assumes "pairing_ok p" "open_ok s" "hm_contains (sessions p) c"
  shows "pairing_ok (p\<lparr>sessions := AList.update c s (sessions p)\<rparr>)"
  using assms by (auto simp: pairing_ok_def wf_insert length_insert)

lemma pairing_ok_create: "pairing_ok p \<Longrightarrow> pairing_ok (snd (create now uuid p))"
  using pairing_ok_purge [of p now]
  by (auto simp: create_def Let_def pairing_ok_def wf_insert length_insert open_ok_def)

lemma pairing_ok_scan:
  assumes "pairing_ok p"
  shows "pairing_ok (snd (mark_scanned now fresh c p))"
proof (cases "map_of (sessions (purge_expired now p)) c")
  case None
  then show ?thesis using pairing_ok_purge [OF assms] by (simp add: mark_scanned_def Let_def)
next
  case (Some s)
  let ?p = "purge_expired now p"
  have ok: "pairing_ok ?p" by (rule pairing_ok_purge [OF assms])
  with Some have s: "open_ok s" by (simp add: pairing_ok_def)
  have c: "hm_contains (sessions ?p) c" using Some by simp
  show ?thesis
    using Some pairing_ok_open [OF ok _ c] s
    by (cases "status s"; cases "csrf s") (auto simp: mark_scanned_def Let_def open_ok_def)
qed

lemma pairing_ok_precheck: "pairing_ok p \<Longrightarrow> pairing_ok (snd (pre_check_confirm now c hdr p))"
  by (simp add: pre_check_confirm_def Let_def pairing_ok_purge)

lemma length_delete_Suc: "hm_wf m \<Longrightarrow> hm_contains m k \<Longrightarrow> Suc (length (AList.delete k m)) \<le> length m"
  using length_remove_less [of m k] by simp

lemma pairing_ok_confirm:
  assumes "pairing_ok p"
  shows "pairing_ok (snd (confirm now c cname clabel tok hdr p))"
proof -
  let ?p = "purge_expired now p"
  have ok: "pairing_ok ?p" by (rule pairing_ok_purge [OF assms])
  show ?thesis
  proof (cases "hm_contains (confirmed_sessions ?p) c \<or> map_of (sessions ?p) c = None")
    case True
    then show ?thesis using ok by (auto simp: confirm_def Let_def split: option.split)
  next
    case False
    then obtain s where s: "map_of (sessions ?p) c = Some s" "map_of (confirmed_sessions ?p) c = None" by blast
    let ?p1 = "?p\<lparr>sessions := AList.delete c (sessions ?p)\<rparr>"
    have len: "Suc (length (sessions ?p1)) \<le> length (sessions ?p)"
      using length_delete_Suc [of "sessions ?p" c] ok s by (simp add: pairing_ok_def)
    have ok1: "pairing_ok ?p1" using ok len by (auto simp: pairing_ok_def wf_remove)
    have "pairing_ok (?p1\<lparr>confirmed_sessions := AList.update c (s', now) (confirmed_sessions ?p1)\<rparr>)"
      if "status s' = Confirmed" "csrf s' = None" for s'
      using ok1 that len ok by (auto simp: pairing_ok_def wf_insert length_insert)
    then show ?thesis using s ok1 by (simp add: confirm_def Let_def)
  qed
qed

lemma pairing_ok_claim:
  assumes "pairing_ok p"
  shows "pairing_ok (snd (claim_confirmed_vtoken now c p))"
proof (cases "map_of (confirmed_sessions (purge_expired now p)) c")
  case None
  then show ?thesis using pairing_ok_purge [OF assms] by (simp add: claim_confirmed_vtoken_def Let_def)
next
  case (Some st)
  then obtain s t where st: "map_of (confirmed_sessions (purge_expired now p)) c = Some (s, t)" by (cases st) auto
  have ok: "pairing_ok (purge_expired now p)" by (rule pairing_ok_purge [OF assms])
  with st have "status s = Confirmed \<and> csrf s = None" unfolding pairing_ok_def by blast
  then have "pairing_ok ((purge_expired now p)\<lparr>confirmed_sessions :=
      AList.update c (s\<lparr>session_vtoken := None\<rparr>, t) (confirmed_sessions (purge_expired now p))\<rparr>)"
    using ok st by (auto simp: pairing_ok_def wf_insert length_insert)
  then show ?thesis using ok st by (simp add: claim_confirmed_vtoken_def Let_def)
qed

lemma pairing_ok_remove: "pairing_ok p \<Longrightarrow> pairing_ok (remove_confirmed c p)"
  using length_remove_le [of c "confirmed_sessions p"]
  by (auto simp: pairing_ok_def remove_confirmed_def wf_remove)

section \<open>Sequences of operations\<close>

datatype pairing_op = PCreate string | PScan string string | PPreCheck string string
  | PConfirm string string "string option" string string | PClaim string | PRemove string

fun pairing_exec :: "PairingRegistry \<Rightarrow> instant \<times> pairing_op \<Rightarrow> PairingRegistry" where
  "pairing_exec p (now, PCreate uuid) = snd (create now uuid p)"
| "pairing_exec p (now, PScan fresh c) = snd (mark_scanned now fresh c p)"
| "pairing_exec p (now, PPreCheck c hdr) = snd (pre_check_confirm now c hdr p)"
| "pairing_exec p (now, PConfirm c nm lbl tok hdr) = snd (confirm now c nm lbl tok hdr p)"
| "pairing_exec p (now, PClaim c) = snd (claim_confirmed_vtoken now c p)"
| "pairing_exec p (now, PRemove c) = remove_confirmed c p"

definition pairing_run :: "PairingRegistry \<Rightarrow> (instant \<times> pairing_op) list \<Rightarrow> PairingRegistry" where
  "pairing_run p ops = foldl pairing_exec p ops"

fun creates :: "string \<Rightarrow> instant \<times> pairing_op \<Rightarrow> bool" where
  "creates c (now, PCreate uuid) = (''pair_'' @ uuid = c)"
| "creates c _ = False"

lemma exec_ok: "pairing_ok p \<Longrightarrow> pairing_ok (pairing_exec p x)"
  by (cases "snd x"; cases x)
    (simp_all add: pairing_ok_create pairing_ok_scan pairing_ok_precheck pairing_ok_confirm pairing_ok_claim
      pairing_ok_remove)

lemma run_pairing_ok: "pairing_ok p \<Longrightarrow> pairing_ok (pairing_run p ops)"
  by (induction ops arbitrary: p) (simp_all add: pairing_run_def exec_ok)

lemma pairing_wf: "pairing_ok p \<Longrightarrow> hm_wf (sessions p)" "pairing_ok p \<Longrightarrow> hm_wf (confirmed_sessions p)"
  by (simp_all add: pairing_ok_def)

text \<open>A code that is not open stays so unless it is created again.\<close>

lemma purge_closed: "pairing_ok p \<Longrightarrow> map_of (sessions p) c = None \<Longrightarrow> map_of (sessions (purge_expired now p)) c = None"
  by (simp add: purge_lookup pairing_wf)

lemma exec_closed:
  assumes "pairing_ok p" "map_of (sessions p) c = None" "\<not> creates c x"
  shows "map_of (sessions (pairing_exec p x)) c = None"
  using purge_closed [OF assms(1,2)] assms(2,3)
  by (cases "snd x"; cases x)
    (auto simp: create_def mark_scanned_def pre_check_confirm_def confirm_def claim_confirmed_vtoken_def
      remove_confirmed_def Let_def split: option.split)

lemma run_closed:
  "pairing_ok p \<Longrightarrow> map_of (sessions p) c = None \<Longrightarrow> list_all (\<lambda>x. \<not> creates c x) ops \<Longrightarrow>
     map_of (sessions (pairing_run p ops)) c = None"
proof (induction ops arbitrary: p)
  case (Cons x ops)
  then show ?case using Cons.IH [OF exec_ok exec_closed] by (simp add: pairing_run_def)
qed (simp add: pairing_run_def)

lemma confirm_cases:
  assumes "pairing_ok p"
  shows "fst (confirm now c nm lbl tok hdr p) = Inr () \<longleftrightarrow>
    opt_filter (\<lambda>(s, t). elapsed now t < CONFIRMED_TTL) (map_of (confirmed_sessions p) c) = None \<and>
    (\<exists>s t. map_of (sessions p) c = Some s \<and> status s = Scanned \<and> scanned_at s = Some t \<and>
       elapsed now t \<le> SCANNED_TTL \<and> csrf s = Some hdr)"
proof -
  note look = purge_lookup [OF pairing_wf [OF assms]]
  show ?thesis
  proof (cases "map_of (sessions p) c")
    case None
    then show ?thesis by (auto simp: confirm_def Let_def look)
  next
    case (Some s)
    have "status s \<noteq> Confirmed" "status s = Scanned \<longrightarrow> scanned_at s \<noteq> None"
      using assms Some by (auto simp: pairing_ok_def open_ok_def)
    then show ?thesis using Some
      by (cases "status s")
        (auto simp: confirm_def Let_def look csrf_matches_iff is_expired_def should_evict_def opt_filter_None
          split: if_splits)
  qed
qed

lemma confirm_moves:
  assumes "pairing_ok p" "fst (confirm now c nm lbl tok hdr p) = Inr ()"
  shows "map_of (sessions (snd (confirm now c nm lbl tok hdr p))) c = None"
    and "\<exists>s. map_of (confirmed_sessions (snd (confirm now c nm lbl tok hdr p))) c = Some (s, now) \<and>
           session_vtoken s = Some tok \<and> client_name s = Some nm"
  using assms(2) by (auto simp: confirm_def Let_def split: if_splits option.splits)

lemma confirm_closed:
  "map_of (sessions p) c = None \<Longrightarrow> pairing_ok p \<Longrightarrow> fst (confirm now c nm lbl tok hdr p) \<noteq> Inr ()"
  by (simp add: confirm_cases)

text \<open>The confirmation time of a code does not change once it is confirmed.\<close>

definition confirmed_at :: "PairingRegistry \<Rightarrow> string \<Rightarrow> instant option" where
  "confirmed_at p c = map_option snd (map_of (confirmed_sessions p) c)"

lemma exec_confirmed_at:
  assumes "pairing_ok p" "map_of (sessions p) c = None" "confirmed_at p c \<in> {None, Some t}"
  shows "confirmed_at (pairing_exec p x) c \<in> {None, Some t}"
proof -
  have a: "confirmed_at (purge_expired now p) c \<in> {None, Some t}" for now
    using assms(3) by (auto simp: confirmed_at_def purge_lookup [OF pairing_wf [OF assms(1)]] split: if_splits)
  note closed = purge_closed [OF assms(1,2)]
  have conf: "confirmed_at (snd (confirm now d nm lbl tok hdr p)) c \<in> {None, Some t}" for now d nm lbl tok hdr
    using a [of now] closed [of now]
    by (cases "d = c") (auto simp: confirm_def confirmed_at_def Let_def split: option.split)
  have claim: "confirmed_at (snd (claim_confirmed_vtoken now d p)) c \<in> {None, Some t}" for now d
    using a [of now] by (auto simp: claim_confirmed_vtoken_def confirmed_at_def Let_def split: option.split)
  show ?thesis
    using a assms(3) conf claim
    by (cases "snd x"; cases x)
      (auto simp: create_def mark_scanned_def pre_check_confirm_def remove_confirmed_def confirmed_at_def Let_def
        split: option.split)
qed

lemma run_confirmed_at:
  "pairing_ok p \<Longrightarrow> map_of (sessions p) c = None \<Longrightarrow> confirmed_at p c \<in> {None, Some t} \<Longrightarrow>
     list_all (\<lambda>x. \<not> creates c x) ops \<Longrightarrow> confirmed_at (pairing_run p ops) c \<in> {None, Some t}"
proof (induction ops arbitrary: p)
  case (Cons x ops)
  then show ?case using Cons.IH [OF exec_ok exec_closed exec_confirmed_at] by (simp add: pairing_run_def)
qed (simp add: pairing_run_def)

text \<open>A session one second after its creation, just scanned; the witnesses below start from it.\<close>

lemmas pairing_eval = pairing_run_def create_def mark_scanned_def purge_expired_def hm_retain_def should_evict_def
  is_expired_def elapsed_def pairing_ttls MAX_PAIRING_SESSIONS_def PairingRegistry_new_def Let_def

lemma scanned_example:
  "pairing_run PairingRegistry_new [(0, PCreate ''a''), (secs 1, PScan ''tok'' ''pair_a'')] =
     \<lparr>sessions = [(''pair_a'', \<lparr>code = ''pair_a'', created_at = 0, scanned_at = Some (secs 1), status = Scanned,
        session_vtoken = None, client_name = None, client_label = None, csrf = Some ''tok''\<rparr>)],
      confirmed_sessions = []\<rparr>"
  by (simp add: pairing_eval)

lemma confirmed_example:
  "fst (confirm (secs 30) ''pair_a'' ''mac'' None ''vhub_1'' ''tok''
     (pairing_run PairingRegistry_new [(0, PCreate ''a''), (secs 1, PScan ''tok'' ''pair_a'')])) = Inr ()"
  unfolding scanned_example by (simp add: confirm_def csrf_matches_iff pairing_eval)

section \<open>Properties\<close>

text \<open>The CSRF comparison is exact: the constant-time loop accepts exactly equal byte strings.\<close>

theorem constant_time_eq_correct:
  "constant_time_eq (as_bytes a) (as_bytes b) \<longleftrightarrow> a = b"
  by (simp add: constant_time_eq_iff as_bytes_inj)

text \<open>A pairing succeeds only for a live scan with its CSRF token.  In every reachable state,
  \<open>confirm\<close> returns success if and only if the code is not already confirmed (within its retention
  time), its session is in state scanned, at most 60 seconds have passed since the scan, and the
  header equals the CSRF token minted for that session.\<close>

theorem confirm_succeeds_iff:
  "fst (confirm now c nm lbl tok hdr (pairing_run PairingRegistry_new ops)) = Inr () \<longleftrightarrow>
     (let p = pairing_run PairingRegistry_new ops in
      (\<forall>s t. map_of (confirmed_sessions p) c = Some (s, t) \<longrightarrow> elapsed now t \<ge> CONFIRMED_TTL) \<and>
      (\<exists>s t. map_of (sessions p) c = Some s \<and> status s = Scanned \<and> scanned_at s = Some t \<and>
         elapsed now t \<le> SCANNED_TTL \<and> csrf s = Some hdr))"
proof -
  have "pairing_ok (pairing_run PairingRegistry_new ops)" by (rule run_pairing_ok [OF pairing_ok_new])
  from confirm_cases [OF this, of now c nm lbl tok hdr] show ?thesis
    by (simp add: Let_def opt_filter_None not_less)
qed

theorem confirm_succeeds_iff_witness:
  "fst (confirm (secs 30) ''pair_a'' ''mac'' None ''vhub_1'' ''tok''
     (pairing_run PairingRegistry_new [(0, PCreate ''a''), (secs 1, PScan ''tok'' ''pair_a'')])) = Inr ()"
  unfolding confirm_succeeds_iff Let_def unfolding scanned_example by (simp add: elapsed_def SCANNED_TTL_def)

text \<open>C28: A code pairs at most one client.  Once a confirm has succeeded, no later confirm of the same
  code succeeds, whatever operations happen in between and whenever they happen, unless the code is
  created anew.\<close>

theorem confirm_at_most_once:
  assumes "fst (confirm now c nm lbl tok hdr (pairing_run PairingRegistry_new ops1)) = Inr ()"
    and "list_all (\<lambda>x. \<not> creates c x) ops2"
  shows "fst (confirm now' c nm' lbl' tok' hdr'
    (pairing_run (snd (confirm now c nm lbl tok hdr (pairing_run PairingRegistry_new ops1))) ops2)) \<noteq> Inr ()"
proof -
  have ok: "pairing_ok (pairing_run PairingRegistry_new ops1)" by (rule run_pairing_ok [OF pairing_ok_new])
  let ?p = "snd (confirm now c nm lbl tok hdr (pairing_run PairingRegistry_new ops1))"
  have p: "pairing_ok ?p" by (rule pairing_ok_confirm [OF ok])
  have "map_of (sessions (pairing_run ?p ops2)) c = None"
    by (rule run_closed [OF p confirm_moves(1) [OF ok assms(1)] assms(2)])
  then show ?thesis by (rule confirm_closed) (rule run_pairing_ok [OF p])
qed

theorem confirm_at_most_once_witness:
  "fst (confirm (secs 40) ''pair_a'' ''evil'' None ''vhub_2'' ''tok''
     (pairing_run (snd (confirm (secs 30) ''pair_a'' ''mac'' None ''vhub_1'' ''tok''
        (pairing_run PairingRegistry_new [(0, PCreate ''a''), (secs 1, PScan ''tok'' ''pair_a'')])))
      [(secs 35, PCreate ''b''), (secs 36, PClaim ''pair_a'')])) \<noteq> Inr ()"
proof (rule confirm_at_most_once)
  show "fst (confirm (secs 30) ''pair_a'' ''mac'' None ''vhub_1'' ''tok''
     (pairing_run PairingRegistry_new [(0, PCreate ''a''), (secs 1, PScan ''tok'' ''pair_a'')])) = Inr ()"
    by (rule confirmed_example)
  show "list_all (\<lambda>x. \<not> creates ''pair_a'' x) [(secs 35, PCreate ''b''), (secs 36, PClaim ''pair_a'')]" by simp
qed

text \<open>A leaked pairing code stops being worth anything: 120 seconds after a confirm, no status poll
  of that code returns the bearer token, whatever happened in between.\<close>

theorem claim_window_closes:
  assumes "fst (confirm t0 c nm lbl tok hdr (pairing_run PairingRegistry_new ops1)) = Inr ()"
    and "list_all (\<lambda>x. \<not> creates c x) ops2"
    and "elapsed now t0 \<ge> VTOKEN_CLAIM_WINDOW"
  shows "case fst (claim_confirmed_vtoken now c
      (pairing_run (snd (confirm t0 c nm lbl tok hdr (pairing_run PairingRegistry_new ops1))) ops2)) of
        Some (s, Some v) \<Rightarrow> False | _ \<Rightarrow> True"
proof -
  have ok: "pairing_ok (pairing_run PairingRegistry_new ops1)" by (rule run_pairing_ok [OF pairing_ok_new])
  let ?p = "snd (confirm t0 c nm lbl tok hdr (pairing_run PairingRegistry_new ops1))"
  let ?q = "pairing_run ?p ops2"
  have p: "pairing_ok ?p" by (rule pairing_ok_confirm [OF ok])
  have closed: "map_of (sessions ?p) c = None" by (rule confirm_moves(1) [OF ok assms(1)])
  have "confirmed_at ?p c \<in> {None, Some t0}"
    using confirm_moves(2) [OF ok assms(1)] by (auto simp: confirmed_at_def)
  from run_confirmed_at [OF p closed this assms(2)] have at: "confirmed_at ?q c \<in> {None, Some t0}" .
  have q: "pairing_ok ?q" by (rule run_pairing_ok [OF p])
  have "t = t0" if "map_of (confirmed_sessions (purge_expired now ?q)) c = Some (s, t)" for s t
    using that at by (auto simp: purge_lookup [OF pairing_wf [OF q]] confirmed_at_def)
  then show ?thesis using assms(3) by (auto simp: claim_confirmed_vtoken_def Let_def split: option.split)
qed

theorem claim_window_closes_witness:
  "case fst (claim_confirmed_vtoken (secs 200) ''pair_a''
      (pairing_run (snd (confirm (secs 30) ''pair_a'' ''mac'' None ''vhub_1'' ''tok''
        (pairing_run PairingRegistry_new [(0, PCreate ''a''), (secs 1, PScan ''tok'' ''pair_a'')])))
      [(secs 60, PClaim ''pair_a'')])) of Some (s, Some v) \<Rightarrow> False | _ \<Rightarrow> True"
proof (rule claim_window_closes)
  show "fst (confirm (secs 30) ''pair_a'' ''mac'' None ''vhub_1'' ''tok''
     (pairing_run PairingRegistry_new [(0, PCreate ''a''), (secs 1, PScan ''tok'' ''pair_a'')])) = Inr ()"
    by (rule confirmed_example)
  show "list_all (\<lambda>x. \<not> creates ''pair_a'' x) [(secs 60, PClaim ''pair_a'')]" by simp
  show "elapsed (secs 200) (secs 30) \<ge> VTOKEN_CLAIM_WINDOW" by (simp add: elapsed_def VTOKEN_CLAIM_WINDOW_def)
qed

text \<open>The number of pairing sessions held in memory never exceeds the cap of 1024, whatever
  operations are called and whenever, and unconfirmed sessions never hold a token.\<close>

theorem pairing_sessions_bounded:
  "length (sessions (pairing_run PairingRegistry_new ops)) +
     length (confirmed_sessions (pairing_run PairingRegistry_new ops)) \<le> MAX_PAIRING_SESSIONS \<and>
   (map_of (sessions (pairing_run PairingRegistry_new ops)) c = Some s \<longrightarrow> session_vtoken s = None)"
  using run_pairing_ok [OF pairing_ok_new, of ops] by (auto simp: pairing_ok_def open_ok_def)

theorem pairing_sessions_bounded_witness:
  "map_of (sessions (pairing_run PairingRegistry_new [(0, PCreate ''a'')])) ''pair_a'' \<noteq> None \<and>
   session_vtoken (the (map_of (sessions (pairing_run PairingRegistry_new [(0, PCreate ''a'')])) ''pair_a'')) = None"
proof -
  obtain s where "map_of (sessions (pairing_run PairingRegistry_new [(0, PCreate ''a'')])) ''pair_a'' = Some s"
    by (simp add: pairing_eval)
  then show ?thesis using pairing_sessions_bounded [of "[(0, PCreate ''a'')]" "''pair_a''" s] by simp
qed

text \<open>A confirm with a wrong CSRF token destroys the session it was aimed at: the legitimate
  confirm that follows is told the session does not exist.\<close>

theorem failed_confirm_burns_session:
  assumes "pairing_ok p" "map_of (sessions p) c = Some s" "\<not> should_evict now s"
    and "map_of (confirmed_sessions p) c = None" "csrf s \<noteq> Some bad"
  shows "fst (confirm now c nm lbl tok bad p) = Inl CsrfMismatch \<and>
    fst (confirm now c nm' lbl' tok' good (snd (confirm now c nm lbl tok bad p))) = Inl SessionNotFound"
proof -
  note look = purge_lookup [OF pairing_wf [OF assms(1)]]
  have s: "open_ok s" using assms(1,2) by (simp add: pairing_ok_def)
  then have e: "\<not> is_expired now s" using assms(3)
    by (auto simp: is_expired_def should_evict_def open_ok_def split: PairingStatus.splits)
  have st: "status s \<noteq> Confirmed" using s by (simp add: open_ok_def)
  have 1: "confirm now c nm lbl tok bad p = (Inl CsrfMismatch,
      (purge_expired now p)\<lparr>sessions := AList.delete c (sessions (purge_expired now p))\<rparr>)" (is "_ = (_, ?p1)")
    using assms(2-5) e st by (simp add: confirm_def Let_def look csrf_matches_iff)
  have ok1: "pairing_ok ?p1" using pairing_ok_confirm [OF assms(1), of now c nm lbl tok bad] 1 by simp
  have "map_of (sessions (purge_expired now ?p1)) c = None"
    "map_of (confirmed_sessions (purge_expired now ?p1)) c = None"
    using assms(4) by (simp_all add: purge_lookup [OF pairing_wf [OF ok1]] look)
  then show ?thesis unfolding 1 by (simp add: confirm_def Let_def)
qed

theorem failed_confirm_burns_session_witness:
  "fst (confirm (secs 2) ''pair_a'' ''mac'' None ''vhub_1'' ''tok''
     (snd (confirm (secs 2) ''pair_a'' ''x'' None ''vhub_2'' ''bad''
       (pairing_run PairingRegistry_new [(0, PCreate ''a''), (secs 1, PScan ''tok'' ''pair_a'')])))) = Inl SessionNotFound"
proof -
  let ?s = "\<lparr>code = ''pair_a'', created_at = 0, scanned_at = Some (secs 1), status = Scanned,
    session_vtoken = None, client_name = None, client_label = None, csrf = Some ''tok''\<rparr>"
  let ?p = "pairing_run PairingRegistry_new [(0, PCreate ''a''), (secs 1, PScan ''tok'' ''pair_a'')]"
  have ok: "pairing_ok ?p" by (rule run_pairing_ok [OF pairing_ok_new])
  have s: "map_of (sessions ?p) ''pair_a'' = Some ?s" "map_of (confirmed_sessions ?p) ''pair_a'' = None"
    unfolding scanned_example by simp_all
  have e: "\<not> should_evict (secs 2) ?s" by (simp add: should_evict_def elapsed_def SCANNED_TTL_def)
  have b: "csrf ?s \<noteq> Some ''bad''" by simp
  from failed_confirm_burns_session [OF ok s(1) e s(2) b] show ?thesis by blast
qed

end
