(* ===== verification/Poll_Tracker.thy ===== *)
theory Poll_Tracker
  imports Hub_Prelude
begin

text \<open>
  The long-poll concurrency tracker and the latency histogram of \<open>hub/state.rs\<close>.  \<open>enter\<close> and the
  guard's \<open>drop\<close> are also given as their atomic steps (the lock-free total, then the locked map), and
  the relation \<open>tracker_step\<close> interleaves those steps of any number of requests.  A unit of \<open>total\<close>
  stands for a live request, so the counter does not reach the word size.
\<close>

section \<open>Concurrent polls\<close>

definition MAX_CONCURRENT_POLLS_PER_VTOKEN :: nat where
  "MAX_CONCURRENT_POLLS_PER_VTOKEN = 3"

definition MAX_HUB_POLLS_DEFAULT :: nat where
  "MAX_HUB_POLLS_DEFAULT = 8192"

record PollTracker =
  counts :: "(vtoken, nat) hmap"
  counts_poisoned :: bool
  total :: nat
  hub_cap :: nat

definition PollTracker_new :: "nat \<Rightarrow> PollTracker" where
  "PollTracker_new cap = \<lparr>counts = [], counts_poisoned = False, total = 0, hub_cap = cap\<rparr>"

definition set_hub_cap :: "nat \<Rightarrow> PollTracker \<Rightarrow> PollTracker" where
  "set_hub_cap cap t = t\<lparr>hub_cap := cap\<rparr>"

definition total_polls :: "PollTracker \<Rightarrow> nat" where
  "total_polls t = total t"

datatype EnterOutcome = EnterOk nat vtoken | HubLimitReached nat nat | Poisoned vtoken

text \<open>The hub-wide gate: \<open>fetch_add\<close>, and the comparison of the previous value with the cap.\<close>

definition gate_add :: "PollTracker \<Rightarrow> bool \<times> PollTracker" where
  "gate_add t = (total t < hub_cap t, t\<lparr>total := total t + 1\<rparr>)"

definition total_sub :: "PollTracker \<Rightarrow> PollTracker" where
  "total_sub t = t\<lparr>total := total t - 1\<rparr>"

text \<open>The increment of the per-vtoken count under the lock.\<close>

definition count_in :: "vtoken \<Rightarrow> PollTracker \<Rightarrow> nat \<times> PollTracker" where
  "count_in v t = (let c = unwrap_or 0 (map_of (counts t) v) + 1
     in (c, t\<lparr>counts := AList.update v c (counts t)\<rparr>))"

definition count_out :: "vtoken \<Rightarrow> PollTracker \<Rightarrow> PollTracker" where
  "count_out v t = (case map_of (counts t) v of None \<Rightarrow> t
     | Some c \<Rightarrow> if c - 1 = 0 then t\<lparr>counts := AList.delete v (counts t)\<rparr>
                 else t\<lparr>counts := AList.update v (c - 1) (counts t)\<rparr>)"

definition enter :: "vtoken \<Rightarrow> PollTracker \<Rightarrow> EnterOutcome \<times> PollTracker" where
  "enter v t =
     (let prev = total t; (admitted, t1) = gate_add t in
      if \<not> admitted then (HubLimitReached prev (hub_cap t), total_sub t1)
      else if counts_poisoned t1 then (Poisoned v, t1)
      else let (c, t2) = count_in v t1 in (EnterOk c v, t2))"

fun outcome_guard :: "EnterOutcome \<Rightarrow> vtoken option" where
  "outcome_guard (EnterOk c v) = Some v"
| "outcome_guard (Poisoned v) = Some v"
| "outcome_guard (HubLimitReached t c) = None"

definition guard_drop :: "vtoken \<Rightarrow> PollTracker \<Rightarrow> PollTracker" where
  "guard_drop v t = (let t1 = total_sub t in if counts_poisoned t1 then t1 else count_out v t1)"

section \<open>Latency histogram\<close>

definition HISTOGRAM_BUCKETS_MS :: "u64 list" where
  "HISTOGRAM_BUCKETS_MS = [1, 5, 25, 100, 500, 2500, 10000]"

record LatencyHistogram =
  h_count :: u64
  h_sum_us :: u64
  h_buckets :: "u64 list"

definition LatencyHistogram_new :: LatencyHistogram where
  "LatencyHistogram_new = \<lparr>h_count = 0, h_sum_us = 0,
     h_buckets = replicate (length HISTOGRAM_BUCKETS_MS + 1) 0\<rparr>"

fun bucket_index :: "u64 \<Rightarrow> u64 list \<Rightarrow> nat" where
  "bucket_index ms [] = 0"
| "bucket_index ms (b # bs) = (if ms \<le> b then 0 else Suc (bucket_index ms bs))"

text \<open>\<open>observe\<close> on a duration in nanoseconds; the counters wrap like the atomics do.\<close>

definition observe :: "nat \<Rightarrow> LatencyHistogram \<Rightarrow> LatencyHistogram" where
  "observe d h =
     (let us = (if d div 1000 < 2 ^ 64 then word_of_nat (d div 1000) else - 1);
          ms = word_of_nat (d div 1000000);
          i = bucket_index ms HISTOGRAM_BUCKETS_MS
      in h\<lparr>h_count := h_count h + 1, h_sum_us := h_sum_us h + us,
           h_buckets := (h_buckets h)[i := h_buckets h ! i + 1]\<rparr>)"

section \<open>Interleaving\<close>

text \<open>
  Requests in flight, by the step they have reached: refused at the gate but still to undo their
  increment, past the gate but not yet counted, active (holding a guard), and dropped but still to
  undo their count.
\<close>

record inflight =
  trk :: PollTracker
  refusing :: nat
  entering :: "vtoken multiset"
  active :: "vtoken multiset"
  dropping :: "vtoken multiset"

inductive tracker_step :: "inflight \<Rightarrow> inflight \<Rightarrow> bool" where
  admit: "gate_add (trk s) = (True, t) \<Longrightarrow> tracker_step s (s\<lparr>trk := t, entering := add_mset v (entering s)\<rparr>)"
| refuse: "gate_add (trk s) = (False, t) \<Longrightarrow> tracker_step s (s\<lparr>trk := t, refusing := Suc (refusing s)\<rparr>)"
| undo: "refusing s = Suc k \<Longrightarrow> tracker_step s (s\<lparr>trk := total_sub (trk s), refusing := k\<rparr>)"
| count: "v \<in># entering s \<Longrightarrow> count_in v (trk s) = (c, t) \<Longrightarrow>
    tracker_step s (s\<lparr>trk := t, entering := entering s - {#v#}, active := add_mset v (active s)\<rparr>)"
| drop_total: "v \<in># active s \<Longrightarrow>
    tracker_step s (s\<lparr>trk := total_sub (trk s), active := active s - {#v#}, dropping := add_mset v (dropping s)\<rparr>)"
| drop_count: "v \<in># dropping s \<Longrightarrow>
    tracker_step s (s\<lparr>trk := count_out v (trk s), dropping := dropping s - {#v#}\<rparr>)"

definition idle :: "nat \<Rightarrow> inflight" where
  "idle cap = \<lparr>trk = PollTracker_new cap, refusing = 0, entering = {#}, active = {#}, dropping = {#}\<rparr>"

definition tracker_inv :: "nat \<Rightarrow> inflight \<Rightarrow> bool" where
  "tracker_inv cap s \<longleftrightarrow> hub_cap (trk s) = cap \<and>
     total (trk s) = refusing s + size (entering s) + size (active s) \<and>
     size (entering s) + size (active s) \<le> cap \<and>
     (\<forall>v. map_of (counts (trk s)) v =
        (let n = Multiset.count (active s) v + Multiset.count (dropping s) v in if n = 0 then None else Some n))"

section \<open>Lemmas\<close>

lemma tracker_inv_idle: "tracker_inv cap (idle cap)"
  by (simp add: tracker_inv_def idle_def PollTracker_new_def)

lemma count_in_lookup:
  "map_of (counts (snd (count_in v t))) u = (if u = v then Some (unwrap_or 0 (map_of (counts t) v) + 1) else map_of (counts t) u)"
  by (simp add: count_in_def Let_def)

lemma count_out_lookup:
  "map_of (counts (count_out v t)) u = (if u = v then
     (case map_of (counts t) v of None \<Rightarrow> None | Some c \<Rightarrow> if c - 1 = 0 then None else Some (c - 1)) else map_of (counts t) u)"
  by (auto simp: count_out_def split: option.split)

lemma counts_frame [simp]:
  "total (snd (count_in v t)) = total t" "hub_cap (snd (count_in v t)) = hub_cap t"
  "total (count_out v t) = total t" "hub_cap (count_out v t) = hub_cap t"
  by (auto simp: count_in_def count_out_def Let_def split: option.split)

lemma tracker_inv_step:
  assumes "tracker_step s s'" "tracker_inv cap s"
  shows "tracker_inv cap s'"
  using assms
proof (induction rule: tracker_step.induct)
  case (admit s t v)
  then show ?case by (auto simp: tracker_inv_def gate_add_def)
next
  case (refuse s t)
  then show ?case by (auto simp: tracker_inv_def gate_add_def)
next
  case (undo s k)
  then show ?case by (auto simp: tracker_inv_def total_sub_def)
next
  case (count v s c t)
  then have t: "t = snd (count_in v (trk s))" by simp
  have sz: "size (entering s) = Suc (size (entering s - {#v#}))"
    using count(1) by (metis size_Suc_Diff1)
  show ?case using count(3) sz unfolding t
    by (auto simp: tracker_inv_def count_in_lookup Let_def count_eq_zero_iff)
next
  case (drop_total v s)
  have sz: "size (active s) = Suc (size (active s - {#v#}))"
    using drop_total(1) by (metis size_Suc_Diff1)
  have "Multiset.count (active s) v > 0" using drop_total(1) by simp
  with drop_total(2) sz show ?case by (auto simp: tracker_inv_def total_sub_def Let_def count_eq_zero_iff)
next
  case (drop_count v s)
  have pos: "Multiset.count (dropping s) v > 0" using drop_count(1) by simp
  show ?case unfolding tracker_inv_def
  proof (intro conjI allI)
    fix u
    have "map_of (counts (trk s)) u = (let n = Multiset.count (active s) u + Multiset.count (dropping s) u
        in if n = 0 then None else Some n)" for u
      using drop_count(2) unfolding tracker_inv_def by blast
    then show "map_of (counts (trk (s\<lparr>trk := count_out v (trk s), dropping := dropping s - {#v#}\<rparr>))) u =
      (let n = Multiset.count (active (s\<lparr>trk := count_out v (trk s), dropping := dropping s - {#v#}\<rparr>)) u +
               Multiset.count (dropping (s\<lparr>trk := count_out v (trk s), dropping := dropping s - {#v#}\<rparr>)) u
       in if n = 0 then None else Some n)"
      using pos by (cases "u = v") (auto simp: count_out_lookup Let_def simp del: count_greater_zero_iff)
  qed (use drop_count(2) in \<open>simp_all add: tracker_inv_def\<close>)
qed

lemma sum_list_update_word: "i < length bs \<Longrightarrow> sum_list (bs[i := bs ! i + 1]) = sum_list bs + (1 :: u64)"
proof (induction bs arbitrary: i)
  case (Cons b bs)
  then show ?case by (cases i) (simp_all add: algebra_simps)
qed simp

lemma bucket_index_bound: "bucket_index ms bs \<le> length bs"
  by (induction bs) auto

lemma bucket_index_boundary: "i < bucket_index ms bs \<Longrightarrow> bs ! i < ms"
proof (induction bs arbitrary: i)
  case (Cons b bs)
  then show ?case by (cases i) (auto split: if_splits)
qed simp

lemma bucket_index_fits: "bucket_index ms bs < length bs \<Longrightarrow> ms \<le> bs ! bucket_index ms bs"
  by (induction bs) auto

lemma tracker_inv_reachable: "tracker_step\<^sup>*\<^sup>* (idle cap) s \<Longrightarrow> tracker_inv cap s"
  by (induction rule: rtranclp_induct) (auto intro: tracker_inv_idle tracker_inv_step)

lemma histogram_fold:
  "sum_list (h_buckets h) = h_count h \<Longrightarrow> length (h_buckets h) = 8 \<Longrightarrow>
     sum_list (h_buckets (fold observe ds h)) = h_count (fold observe ds h) \<and> length (h_buckets (fold observe ds h)) = 8"
proof (induction ds arbitrary: h)
  case (Cons d ds)
  have "bucket_index ms HISTOGRAM_BUCKETS_MS < length (h_buckets h)" for ms
    using bucket_index_bound [of ms HISTOGRAM_BUCKETS_MS] Cons.prems(2) by (simp add: HISTOGRAM_BUCKETS_MS_def)
  then have "sum_list (h_buckets (observe d h)) = h_count (observe d h)" "length (h_buckets (observe d h)) = 8"
    using Cons.prems by (simp_all add: observe_def Let_def sum_list_update_word)
  then show ?case using Cons.IH by simp
qed simp

section \<open>Properties\<close>

text \<open>C27: The hub-wide poll cap holds under every interleaving.  However the atomic steps of concurrent
  requests interleave, the requests past the gate never exceed the cap, the shared total equals the
  requests that hold a unit of it, each vtoken's counter equals its active and just-dropped polls, and
  when no request is in flight both counters are back at zero.\<close>

theorem tracker_cap_under_interleaving:
  assumes "tracker_step\<^sup>*\<^sup>* (idle cap) s"
  shows "size (entering s) + size (active s) \<le> cap
    \<and> total (trk s) = refusing s + size (entering s) + size (active s)
    \<and> unwrap_or 0 (map_of (counts (trk s)) v) = Multiset.count (active s) v + Multiset.count (dropping s) v
    \<and> (refusing s = 0 \<and> entering s = {#} \<and> active s = {#} \<and> dropping s = {#} \<longrightarrow>
        total (trk s) = 0 \<and> map_of (counts (trk s)) v = None)"
  using tracker_inv_reachable [OF assms] by (simp add: tracker_inv_def Let_def)

theorem tracker_cap_under_interleaving_witness:
  "(\<exists>s. tracker_step\<^sup>*\<^sup>* (idle 1) s \<and> active s = {#''a''#} \<and> total (trk s) = 1)"
proof -
  let ?s1 = "\<lparr>trk = \<lparr>counts = [], counts_poisoned = False, total = 1, hub_cap = 1\<rparr>, refusing = 0,
    entering = {#''a''#}, active = {#}, dropping = {#}\<rparr>"
  let ?s2 = "\<lparr>trk = \<lparr>counts = [(''a'', 1)], counts_poisoned = False, total = 1, hub_cap = 1\<rparr>, refusing = 0,
    entering = {#}, active = {#''a''#}, dropping = {#}\<rparr>"
  have a: "tracker_step (idle 1) ?s1"
    using tracker_step.admit [of "idle 1" "trk ?s1" "''a''"] by (simp add: idle_def gate_add_def PollTracker_new_def)
  have b: "tracker_step ?s1 ?s2"
  proof -
    have c: "count_in ''a'' (trk ?s1) = (1, trk ?s2)" by (simp add: count_in_def)
    have m: "''a'' \<in># entering ?s1" by simp
    have "?s1\<lparr>trk := trk ?s2, entering := entering ?s1 - {#''a''#}, active := add_mset ''a'' (active ?s1)\<rparr> = ?s2"
      by simp
    then show ?thesis using tracker_step.count [OF m c] by (simp only:)
  qed
  from a have "tracker_step\<^sup>*\<^sup>* (idle 1) ?s1" by (rule r_into_rtranclp)
  from this b have r: "tracker_step\<^sup>*\<^sup>* (idle 1) ?s2" by (rule rtranclp.rtrancl_into_rtrancl)
  have "total (trk ?s2) = refusing ?s2 + size (entering ?s2) + size (active ?s2)"
    by (rule tracker_cap_under_interleaving [OF r, THEN conjunct2, THEN conjunct1])
  then have "active ?s2 = {#''a''#} \<and> total (trk ?s2) = 1" by simp
  with r show ?thesis by blast
qed

text \<open>The histogram accounts for every observation exactly once: after any sequence of observations
  the observation counter equals the sum of the buckets (as wrapping 64-bit counters), and an
  observation is put in the first bucket whose boundary is not below it.\<close>

theorem histogram_count_is_bucket_sum:
  "h_count (fold observe ds LatencyHistogram_new) = sum_list (h_buckets (fold observe ds LatencyHistogram_new)) \<and>
   (let i = bucket_index ms HISTOGRAM_BUCKETS_MS in
     list_all (\<lambda>b. b < ms) (take i HISTOGRAM_BUCKETS_MS) \<and>
     (if i < length HISTOGRAM_BUCKETS_MS then ms \<le> HISTOGRAM_BUCKETS_MS ! i else i = length HISTOGRAM_BUCKETS_MS))"
proof
  have "sum_list (h_buckets LatencyHistogram_new) = h_count LatencyHistogram_new" "length (h_buckets LatencyHistogram_new) = 8"
    by (simp_all add: LatencyHistogram_new_def HISTOGRAM_BUCKETS_MS_def)
  from histogram_fold [OF this, of ds]
  show "h_count (fold observe ds LatencyHistogram_new) = sum_list (h_buckets (fold observe ds LatencyHistogram_new))" by simp
  show "let i = bucket_index ms HISTOGRAM_BUCKETS_MS in
     list_all (\<lambda>b. b < ms) (take i HISTOGRAM_BUCKETS_MS) \<and>
     (if i < length HISTOGRAM_BUCKETS_MS then ms \<le> HISTOGRAM_BUCKETS_MS ! i else i = length HISTOGRAM_BUCKETS_MS)"
    using bucket_index_bound [of ms HISTOGRAM_BUCKETS_MS] bucket_index_boundary [of _ ms HISTOGRAM_BUCKETS_MS]
      bucket_index_fits [of ms HISTOGRAM_BUCKETS_MS]
    by (auto simp: Let_def list_all_length)
qed

end
