(* ===== verification/Hub_Store.thy ===== *)
theory Hub_Store
  imports Rust_Str
begin

text \<open>
  The persistence layer of \<open>src/store\<close>: the tables as association lists keyed by their primary keys
  (list order is insertion order, the row order of SQLite), one definition per method of \<open>Store\<close>.
  A statement that violates a uniqueness constraint is an \<open>Inl\<close> result and leaves the tables as they
  were, as in a rolled-back transaction.  Clock readings and freshly drawn UUIDs are arguments;
  \<open>CURRENT_TIMESTAMP\<close> and \<open>now_epoch_secs\<close> are the same epoch second.  The ownership contract that the
  request handlers rely on is the locale \<open>grant_store\<close>.
\<close>

section \<open>Tables\<close>

datatype DatabaseKind = Sqlite | Postgres | MySql

datatype DbError = UniqueViolation | NotNullViolation | MissingConstraint | MasterKeyMissing | DecryptFailed

record CtxRow =
  real_ctx :: string
  ctx_peer :: string

record ActiveRow =
  as_session :: string
  as_depth :: int
  as_expires :: int
  as_updated :: int

record BackendRow =
  bs_sid :: string
  bs_usage :: "string option"

text \<open>A row of the \<open>clients\<close> table.\<close>

record ClientRec =
  cr_vtoken :: vtoken
  cr_name :: string
  cr_label :: "string option"
  cr_last_seen :: "int option"
  cr_persona_name :: "string option"
  cr_persona_emoji :: "string option"
  cr_description :: string

record Store =
  db_kind :: DatabaseKind
  grant_ttl_secs :: nat
  client_rows :: "ClientRec list"
  routing_state :: "(string, vtoken) hmap"
  context_token_map :: "(vctx, CtxRow) hmap"
  active_sessions :: "(vctx \<times> vtoken, ActiveRow) hmap"
  backend_sessions_v2 :: "(vctx \<times> vtoken \<times> string, BackendRow) hmap"

section \<open>Connecting\<close>

definition DEFAULT_GRANT_TTL_SECS :: nat where
  "DEFAULT_GRANT_TTL_SECS = 86400"

definition grant_ttl_from_env :: "string option \<Rightarrow> nat" where
  "grant_ttl_from_env env = (case env of None \<Rightarrow> DEFAULT_GRANT_TTL_SECS
     | Some raw \<Rightarrow> (case parse_u64 (trim raw) of
         Some n \<Rightarrow> if 0 < n then n else DEFAULT_GRANT_TTL_SECS
       | None \<Rightarrow> DEFAULT_GRANT_TTL_SECS))"

text \<open>\<open>pg\<close> and \<open>my\<close> say whether the \<open>postgres\<close> and \<open>mysql\<close> features were compiled in.\<close>

definition DatabaseKind_from_url :: "bool \<Rightarrow> bool \<Rightarrow> string \<Rightarrow> DatabaseKind option" where
  "DatabaseKind_from_url pg my url =
     (if starts_with url ''postgres:'' \<or> starts_with url ''postgresql:'' then (if pg then Some Postgres else None)
      else if starts_with url ''mysql:'' \<or> starts_with url ''mariadb:'' then (if my then Some MySql else None)
      else if starts_with url ''sqlite:'' \<or> url = [] then Some Sqlite
      else None)"

definition sqlite_file_path :: "string \<Rightarrow> string option" where
  "sqlite_file_path url =
     (let part = unwrap_or [] (opt_or (strip_prefix url ''sqlite:///'')
                   (opt_or (strip_prefix url ''sqlite://'') (strip_prefix url ''sqlite:'')));
          path = trim (hd (split_char CHR ''?'' part))
      in if path = [] \<or> path = '':memory:'' then None else Some path)"

definition Store_new :: "DatabaseKind \<Rightarrow> nat \<Rightarrow> Store" where
  "Store_new kind ttl = \<lparr>db_kind = kind, grant_ttl_secs = ttl, client_rows = [], routing_state = [],
     context_token_map = [], active_sessions = [], backend_sessions_v2 = []\<rparr>"

section \<open>Virtual contexts\<close>

definition conv_key :: "string \<Rightarrow> string option \<Rightarrow> string" where
  "conv_key peer group_id = (case opt_filter (\<lambda>s. s \<noteq> []) group_id of
     Some g \<Rightarrow> ''group:'' @ g
   | None \<Rightarrow> if peer \<noteq> [] then ''peer:'' @ peer else [])"

text \<open>The first row of a conversation in row order, which is what \<open>LIMIT 1\<close> returns.\<close>

definition row_of_peer :: "string \<Rightarrow> (vctx, CtxRow) hmap \<Rightarrow> (vctx \<times> CtxRow) option" where
  "row_of_peer key t = find (\<lambda>(v, r). ctx_peer r = key) t"

definition find_vctx_for_scope :: "string \<Rightarrow> Store \<Rightarrow> vctx option" where
  "find_vctx_for_scope scope st = map_option fst (row_of_peer scope (context_token_map st))"

text \<open>The unique index on \<open>real_ctx\<close>: is the value held by a row other than \<open>v\<close>?\<close>

definition real_ctx_taken :: "vctx \<Rightarrow> string \<Rightarrow> (vctx, CtxRow) hmap \<Rightarrow> bool" where
  "real_ctx_taken v rc t = list_ex (\<lambda>(v', r). v' \<noteq> v \<and> real_ctx r = rc) t"

definition set_real_ctx :: "vctx \<Rightarrow> string \<Rightarrow> (vctx, CtxRow) hmap \<Rightarrow> DbError + (vctx, CtxRow) hmap" where
  "set_real_ctx v rc t = (if hm_contains t v \<and> real_ctx_taken v rc t then Inl UniqueViolation
     else Inr (hm_modify v (\<lambda>r. r\<lparr>real_ctx := rc\<rparr>) t))"

text \<open>\<open>INSERT ... ON CONFLICT (vctx) DO NOTHING\<close>.  The partial index on non-empty \<open>peer_user_id\<close>
  exists on SQLite and PostgreSQL only.\<close>

definition insert_ctx ::
  "DatabaseKind \<Rightarrow> vctx \<Rightarrow> string \<Rightarrow> string \<Rightarrow> (vctx, CtxRow) hmap \<Rightarrow> DbError + (vctx, CtxRow) hmap" where
  "insert_ctx kind cand rc key t =
     (if hm_contains t cand then Inr t
      else if real_ctx_taken cand rc t then Inl UniqueViolation
      else if kind \<noteq> MySql \<and> key \<noteq> [] \<and> row_of_peer key t \<noteq> None then Inl UniqueViolation
      else Inr (t @ [(cand, \<lparr>real_ctx = rc, ctx_peer = key\<rparr>)]))"

text \<open>The single-statement upsert.  \<open>target_ok\<close> is the engine's answer to the conflict target
  \<open>(peer_user_id)\<close>: whether it finds a constraint for it.\<close>

definition upsert_ctx ::
  "bool \<Rightarrow> vctx \<Rightarrow> string \<Rightarrow> string \<Rightarrow> (vctx, CtxRow) hmap \<Rightarrow> DbError + (vctx \<times> (vctx, CtxRow) hmap)" where
  "upsert_ctx target_ok cand rc key t =
     (if \<not> target_ok then Inl MissingConstraint
      else (case row_of_peer key t of
         Some (v, r) \<Rightarrow> (case set_real_ctx v rc t of Inl e \<Rightarrow> Inl e | Inr t' \<Rightarrow> Inr (v, t'))
       | None \<Rightarrow> if hm_contains t cand \<or> real_ctx_taken cand rc t then Inl UniqueViolation
                 else Inr (cand, t @ [(cand, \<lparr>real_ctx = rc, ctx_peer = key\<rparr>)])))"

definition two_step_vctx ::
  "DatabaseKind \<Rightarrow> vctx \<Rightarrow> string \<Rightarrow> string \<Rightarrow> (vctx, CtxRow) hmap \<Rightarrow> DbError + (vctx \<times> (vctx, CtxRow) hmap)" where
  "two_step_vctx kind cand rc key t =
     (case (if key \<noteq> [] then row_of_peer key t else None) of
        Some (v, r) \<Rightarrow> (case set_real_ctx v rc t of Inl e \<Rightarrow> Inl e | Inr t' \<Rightarrow> Inr (v, t'))
      | None \<Rightarrow> (case insert_ctx kind cand rc key t of
           Inl e \<Rightarrow> Inl e
         | Inr t' \<Rightarrow>
             (let found = (if key \<noteq> [] then map_option fst (row_of_peer key t')
                           else if hm_contains t' cand then Some cand else None)
              in Inr (unwrap_or cand found, t'))))"

definition find_or_create_vctx ::
  "bool \<Rightarrow> string \<Rightarrow> string \<Rightarrow> string \<Rightarrow> string option \<Rightarrow> string \<Rightarrow> Store \<Rightarrow> (DbError + vctx) \<times> Store" where
  "find_or_create_vctx target_ok uuid1 uuid2 peer group_id rc st =
     (let key = conv_key peer group_id; t = context_token_map st;
          done = (\<lambda>res. case res of Inl e \<Rightarrow> (Inl e, st)
                         | Inr (v, t') \<Rightarrow> (Inr v, st\<lparr>context_token_map := t'\<rparr>))
      in if key \<noteq> [] \<and> db_kind st \<noteq> MySql
         then (case upsert_ctx target_ok (''vctx_'' @ uuid1) rc key t of
             Inl MissingConstraint \<Rightarrow> done (two_step_vctx (db_kind st) (''vctx_'' @ uuid2) rc key t)
           | res \<Rightarrow> done res)
         else done (two_step_vctx (db_kind st) (''vctx_'' @ uuid2) rc key t))"

definition resolve_context_token :: "Store \<Rightarrow> vctx \<Rightarrow> string option" where
  "resolve_context_token st v = map_option real_ctx (map_of (context_token_map st) v)"

definition resolve_context_token_full :: "Store \<Rightarrow> vctx \<Rightarrow> (string \<times> string) option" where
  "resolve_context_token_full st v =
     map_option (\<lambda>r. (real_ctx r, ctx_peer r)) (map_of (context_token_map st) v)"

section \<open>Grants: active and named sessions\<close>

definition i64_max :: int where
  "i64_max = 9223372036854775807"

definition grant_expires_at :: "int \<Rightarrow> Store \<Rightarrow> int" where
  "grant_expires_at now st = min i64_max (now + min i64_max (int (grant_ttl_secs st)))"

text \<open>\<open>u8::try_from(depth.max(0)).unwrap_or(u8::MAX)\<close>.\<close>

definition depth_of_row :: "int \<Rightarrow> 8 word" where
  "depth_of_row d = (if max d 0 \<le> 255 then word_of_int (max d 0) else 255)"

definition set_backend_session :: "vctx \<Rightarrow> vtoken \<Rightarrow> string \<Rightarrow> string \<Rightarrow> Store \<Rightarrow> Store" where
  "set_backend_session v vt n sid st = st\<lparr>backend_sessions_v2 :=
     (case map_of (backend_sessions_v2 st) (v, vt, n) of
        Some r \<Rightarrow> hm_insert (v, vt, n) (r\<lparr>bs_sid := sid\<rparr>) (backend_sessions_v2 st)
      | None \<Rightarrow> hm_insert (v, vt, n) \<lparr>bs_sid = sid, bs_usage = None\<rparr> (backend_sessions_v2 st))\<rparr>"

definition set_backend_session_usage :: "vctx \<Rightarrow> vtoken \<Rightarrow> string \<Rightarrow> string \<Rightarrow> Store \<Rightarrow> Store" where
  "set_backend_session_usage v vt n usage st = st\<lparr>backend_sessions_v2 :=
     (case map_of (backend_sessions_v2 st) (v, vt, n) of
        Some r \<Rightarrow> hm_insert (v, vt, n) (r\<lparr>bs_usage := Some usage\<rparr>) (backend_sessions_v2 st)
      | None \<Rightarrow> hm_insert (v, vt, n) \<lparr>bs_sid = [], bs_usage = Some usage\<rparr> (backend_sessions_v2 st))\<rparr>"

definition get_backend_session :: "Store \<Rightarrow> vctx \<Rightarrow> vtoken \<Rightarrow> string \<Rightarrow> string option" where
  "get_backend_session st v vt n = map_option bs_sid (map_of (backend_sessions_v2 st) (v, vt, n))"

text \<open>Rows \<open>(session_name, backend_session_id)\<close>, ordered by name.\<close>

definition list_backend_sessions :: "Store \<Rightarrow> vctx \<Rightarrow> vtoken \<Rightarrow> (string \<times> string) list" where
  "list_backend_sessions st v vt =
     sort_key fst (map (\<lambda>((_, _, n), r). (n, bs_sid r))
       (filter (\<lambda>((v', vt', _), _). v' = v \<and> vt' = vt) (backend_sessions_v2 st)))"

definition delete_backend_session :: "vctx \<Rightarrow> vtoken \<Rightarrow> string \<Rightarrow> Store \<Rightarrow> bool \<times> Store" where
  "delete_backend_session v vt n st = (hm_contains (backend_sessions_v2 st) (v, vt, n),
     st\<lparr>backend_sessions_v2 := hm_remove (v, vt, n) (backend_sessions_v2 st)\<rparr>)"

definition default_session :: string where
  "default_session = ''default''"

definition get_active_session_name :: "Store \<Rightarrow> vctx \<Rightarrow> vtoken \<Rightarrow> string" where
  "get_active_session_name st v vt = unwrap_or default_session
     (opt_filter (\<lambda>s. s \<noteq> []) (map_option as_session (map_of (active_sessions st) (v, vt))))"

text \<open>\<open>INSERT\<close> without an \<open>a2a_depth\<close> uses the column default 0; the conflict branch keeps it.\<close>

definition set_active_session_name :: "int \<Rightarrow> vctx \<Rightarrow> vtoken \<Rightarrow> string \<Rightarrow> Store \<Rightarrow> Store" where
  "set_active_session_name now v vt n st = st\<lparr>active_sessions :=
     hm_insert (v, vt) \<lparr>as_session = n,
        as_depth = (case map_of (active_sessions st) (v, vt) of Some r \<Rightarrow> as_depth r | None \<Rightarrow> 0),
        as_expires = grant_expires_at now st, as_updated = now\<rparr> (active_sessions st)\<rparr>"

definition set_active_session_with_depth :: "int \<Rightarrow> vctx \<Rightarrow> vtoken \<Rightarrow> string \<Rightarrow> 8 word \<Rightarrow> Store \<Rightarrow> Store" where
  "set_active_session_with_depth now v vt n d st = st\<lparr>active_sessions :=
     hm_insert (v, vt) \<lparr>as_session = n, as_depth = uint d, as_expires = grant_expires_at now st, as_updated = now\<rparr>
       (active_sessions st)\<rparr>"

definition get_active_session_row :: "Store \<Rightarrow> vctx \<Rightarrow> vtoken \<Rightarrow> (string \<times> 8 word) option" where
  "get_active_session_row st v vt =
     map_option (\<lambda>r. (as_session r, depth_of_row (as_depth r))) (map_of (active_sessions st) (v, vt))"

definition delete_active_session_if_name :: "vctx \<Rightarrow> vtoken \<Rightarrow> string \<Rightarrow> Store \<Rightarrow> bool \<times> Store" where
  "delete_active_session_if_name v vt n st =
     (case map_of (active_sessions st) (v, vt) of
        Some r \<Rightarrow> if as_session r = n
                  then (True, st\<lparr>active_sessions := hm_remove (v, vt) (active_sessions st)\<rparr>) else (False, st)
      | None \<Rightarrow> (False, st))"

definition revoke_authorizations_for_vtoken :: "vtoken \<Rightarrow> Store \<Rightarrow> Store" where
  "revoke_authorizations_for_vtoken vt st = st\<lparr>
     routing_state := hm_retain (\<lambda>_ vt'. vt' \<noteq> vt) (routing_state st),
     active_sessions := hm_retain (\<lambda>(_, vt') _. vt' \<noteq> vt) (active_sessions st),
     backend_sessions_v2 := hm_retain (\<lambda>(_, vt', _) _. vt' \<noteq> vt) (backend_sessions_v2 st)\<rparr>"

text \<open>The joined row with the greatest \<open>updated_at\<close>; the engine may return any of several rows of the
  same second, here the first in row order.\<close>

record ActiveCtxInfo =
  ac_vctx :: vctx
  ac_real_ctx :: string
  ac_peer :: string
  ac_depth :: "8 word"

fun newest_active :: "((vctx \<times> vtoken) \<times> ActiveRow) list \<Rightarrow> ((vctx \<times> vtoken) \<times> ActiveRow) option" where
  "newest_active [] = None"
| "newest_active (x # xs) = (case newest_active xs of None \<Rightarrow> Some x
     | Some y \<Rightarrow> if as_updated (snd x) \<ge> as_updated (snd y) then Some x else Some y)"

definition get_active_ctx_for_vtoken :: "int \<Rightarrow> Store \<Rightarrow> vtoken \<Rightarrow> ActiveCtxInfo option" where
  "get_active_ctx_for_vtoken now st vt =
     (case newest_active (filter (\<lambda>((v, vt'), r). vt' = vt \<and> as_expires r > now \<and> hm_contains (context_token_map st) v)
             (active_sessions st)) of
        None \<Rightarrow> None
      | Some ((v, _), r) \<Rightarrow> map_option (\<lambda>c. \<lparr>ac_vctx = v, ac_real_ctx = real_ctx c, ac_peer = ctx_peer c,
            ac_depth = depth_of_row (as_depth r)\<rparr>) (map_of (context_token_map st) v))"

section \<open>The ownership check\<close>

definition active_grant :: "int \<Rightarrow> Store \<Rightarrow> vctx \<Rightarrow> vtoken \<Rightarrow> bool" where
  "active_grant now st v vt = (case map_of (active_sessions st) (v, vt) of
     Some r \<Rightarrow> as_expires r > now | None \<Rightarrow> False)"

definition named_grant :: "Store \<Rightarrow> vctx \<Rightarrow> vtoken \<Rightarrow> bool" where
  "named_grant st v vt = list_ex (\<lambda>((v', vt', _), _). v' = v \<and> vt' = vt) (backend_sessions_v2 st)"

definition vtoken_owns_vctx :: "int \<Rightarrow> Store \<Rightarrow> vctx \<Rightarrow> vtoken \<Rightarrow> bool" where
  "vtoken_owns_vctx now st v vt = (active_grant now st v vt \<or> named_grant st v vt)"

definition resolve_send_context :: "int \<Rightarrow> Store \<Rightarrow> vctx \<Rightarrow> vtoken \<Rightarrow> (string \<times> string \<times> string) option" where
  "resolve_send_context now st v vt = (case map_of (context_token_map st) v of
     None \<Rightarrow> None
   | Some c \<Rightarrow>
       if active_grant now st v vt \<or> named_grant st v vt
       then Some (real_ctx c, ctx_peer c,
              if active_grant now st v vt
              then (case map_of (active_sessions st) (v, vt) of Some r \<Rightarrow> as_session r | None \<Rightarrow> default_session)
              else default_session)
       else None)"

text \<open>The order in which the engine returns the rows of \<open>ORDER BY ... DESC LIMIT 1\<close> is the driver's: \<open>newest\<close>
  picks the row (the last one in row order on SQLite).\<close>

definition find_vtoken_for_session :: "(vtoken list \<Rightarrow> vtoken) \<Rightarrow> Store \<Rightarrow> vctx \<Rightarrow> string \<Rightarrow> vtoken option" where
  "find_vtoken_for_session newest st v n =
     (case map (\<lambda>((_, vt, _), _). vt) (filter (\<lambda>((v', _, n'), _). v' = v \<and> n' = n) (backend_sessions_v2 st)) of
        [] \<Rightarrow> None
      | vts \<Rightarrow> Some (newest vts))"

section \<open>Session data for dispatch, one pair or many\<close>

definition usable_sid :: "string option \<Rightarrow> string option" where
  "usable_sid sid = opt_filter (\<lambda>s. trim s \<noteq> []) sid"

definition get_hub_ext_single :: "Store \<Rightarrow> vctx \<Rightarrow> vtoken \<Rightarrow> string \<times> string option" where
  "get_hub_ext_single st v vt =
     (let n = (case map_of (active_sessions st) (v, vt) of Some r \<Rightarrow> as_session r | None \<Rightarrow> default_session)
      in (n, usable_sid (map_option bs_sid (map_of (backend_sessions_v2 st) (v, vt, n)))))"

text \<open>Query 1 of the batch: every active row whose key is among the pairs, as a map.\<close>

definition session_map :: "Store \<Rightarrow> (vctx \<times> vtoken) list \<Rightarrow> (vctx \<times> vtoken, string) hmap" where
  "session_map st pairs = fold (\<lambda>(k, r). hm_insert k (as_session r))
     (filter (\<lambda>(k, r). k \<in> set pairs) (active_sessions st)) []"

definition resolved_names :: "Store \<Rightarrow> (vctx \<times> vtoken) list \<Rightarrow> (vctx \<times> vtoken \<times> string) list" where
  "resolved_names st pairs = map (\<lambda>(v, vt). (v, vt,
     unwrap_or default_session (opt_filter (\<lambda>s. s \<noteq> []) (map_of (session_map st pairs) (v, vt))))) pairs"

text \<open>Query 2: every named session whose key is among the resolved triples, keyed by the pair.\<close>

definition sid_map :: "Store \<Rightarrow> (vctx \<times> vtoken \<times> string) list \<Rightarrow> (vctx \<times> vtoken, string) hmap" where
  "sid_map st res = fold (\<lambda>((v, vt, n), r). hm_insert (v, vt) (bs_sid r))
     (filter (\<lambda>(k, r). k \<in> set res) (backend_sessions_v2 st)) []"

definition get_hub_ext_batch_inner ::
  "Store \<Rightarrow> (vctx \<times> vtoken) list \<Rightarrow> (vctx \<times> vtoken, string \<times> string option) hmap" where
  "get_hub_ext_batch_inner st pairs =
     (let res = resolved_names st pairs; sids = sid_map st res
      in fold (\<lambda>(v, vt, n). hm_insert (v, vt) (n, usable_sid (map_of sids (v, vt)))) res [])"

fun chunks :: "nat \<Rightarrow> 'a list \<Rightarrow> 'a list list" where
  "chunks n [] = []"
| "chunks n (x # xs) = (x # take (n - 1) xs) # chunks n (drop (n - 1) xs)"

definition get_hub_ext_batch ::
  "Store \<Rightarrow> (vctx \<times> vtoken) list \<Rightarrow> (vctx \<times> vtoken, string \<times> string option) hmap" where
  "get_hub_ext_batch st pairs =
     (if pairs = [] then []
      else if length pairs > 200
      then fold (\<lambda>c m. fold (\<lambda>(k, e). hm_insert k e) (get_hub_ext_batch_inner st c) m) (chunks 200 pairs) []
      else get_hub_ext_batch_inner st pairs)"

section \<open>Clients and routes\<close>

definition HUB_DEFAULT_SENTINEL :: string where
  "HUB_DEFAULT_SENTINEL = ''__hub_default__''"

definition row_by_name :: "string \<Rightarrow> ClientRec list \<Rightarrow> ClientRec option" where
  "row_by_name n rs = find (\<lambda>r. cr_name r = n) rs"

text \<open>The primary key \<open>vtoken\<close> is held by a client of another name.\<close>

definition vtoken_taken :: "vtoken \<Rightarrow> string \<Rightarrow> ClientRec list \<Rightarrow> bool" where
  "vtoken_taken vt n rs = list_ex (\<lambda>r. cr_vtoken r = vt \<and> cr_name r \<noteq> n) rs"

definition upsert_client :: "int \<Rightarrow> vtoken \<Rightarrow> string \<Rightarrow> string option \<Rightarrow> Store \<Rightarrow> (DbError + unit) \<times> Store" where
  "upsert_client now vt n lbl st =
     (if vtoken_taken vt n (client_rows st) then (Inl UniqueViolation, st)
      else (Inr (), st\<lparr>
        routing_state := (case row_by_name n (client_rows st) of
            None \<Rightarrow> routing_state st
          | Some old \<Rightarrow> map (\<lambda>(u, a). (u, if a = cr_vtoken old then vt else a)) (routing_state st)),
        client_rows := (case row_by_name n (client_rows st) of
            None \<Rightarrow> client_rows st @ [\<lparr>cr_vtoken = vt, cr_name = n, cr_label = lbl, cr_last_seen = None,
                       cr_persona_name = None, cr_persona_emoji = None, cr_description = []\<rparr>]
          | Some _ \<Rightarrow> map (\<lambda>r. if cr_name r = n
                       then r\<lparr>cr_vtoken := vt, cr_label := opt_or lbl (cr_label r), cr_last_seen := Some now\<rparr>
                       else r) (client_rows st))\<rparr>))"

definition on_vtoken :: "vtoken \<Rightarrow> (ClientRec \<Rightarrow> ClientRec) \<Rightarrow> Store \<Rightarrow> Store" where
  "on_vtoken vt f st = st\<lparr>client_rows := map (\<lambda>r. if cr_vtoken r = vt then f r else r) (client_rows st)\<rparr>"

definition touch_client :: "int \<Rightarrow> vtoken \<Rightarrow> Store \<Rightarrow> Store" where
  "touch_client now vt st = on_vtoken vt (\<lambda>r. r\<lparr>cr_last_seen := Some now\<rparr>) st"

text \<open>What a query returns of a row: an empty description reads as none.\<close>

record ClientRow =
  row_vtoken :: vtoken
  row_name :: string
  row_label :: "string option"
  row_last_seen :: "int option"
  row_persona_name :: "string option"
  row_persona_emoji :: "string option"
  row_description :: "string option"

definition decode_client :: "ClientRec \<Rightarrow> ClientRow" where
  "decode_client r = \<lparr>row_vtoken = cr_vtoken r, row_name = cr_name r, row_label = cr_label r,
     row_last_seen = cr_last_seen r, row_persona_name = cr_persona_name r, row_persona_emoji = cr_persona_emoji r,
     row_description = (if cr_description r = [] then None else Some (cr_description r))\<rparr>"

definition list_clients :: "Store \<Rightarrow> ClientRow list" where
  "list_clients st = map decode_client (sort_key cr_name (client_rows st))"

definition get_client_by_name :: "Store \<Rightarrow> string \<Rightarrow> ClientRow option" where
  "get_client_by_name st n = map_option decode_client (row_by_name n (client_rows st))"

text \<open>The \<open>description\<close> column is \<open>NOT NULL\<close> since migration 12, so clearing it with \<open>None\<close> fails.\<close>

definition update_client_description :: "vtoken \<Rightarrow> string option \<Rightarrow> Store \<Rightarrow> (DbError + unit) \<times> Store" where
  "update_client_description vt d st =
     (case d of
        Some s \<Rightarrow> (Inr (), on_vtoken vt (\<lambda>r. r\<lparr>cr_description := s\<rparr>) st)
      | None \<Rightarrow> if list_ex (\<lambda>r. cr_vtoken r = vt) (client_rows st) then (Inl NotNullViolation, st) else (Inr (), st))"

definition update_client_persona :: "vtoken \<Rightarrow> string option \<Rightarrow> string option \<Rightarrow> Store \<Rightarrow> Store" where
  "update_client_persona vt pn pe st =
     on_vtoken vt (\<lambda>r. r\<lparr>cr_persona_name := pn, cr_persona_emoji := pe\<rparr>) st"

definition delete_client_by_name :: "string \<Rightarrow> Store \<Rightarrow> bool \<times> Store" where
  "delete_client_by_name n st = (row_by_name n (client_rows st) \<noteq> None,
     st\<lparr>client_rows := filter (\<lambda>r. cr_name r \<noteq> n) (client_rows st)\<rparr>)"

definition update_client_by_vtoken :: "vtoken \<Rightarrow> string \<Rightarrow> string option \<Rightarrow> Store \<Rightarrow> (DbError + unit) \<times> Store" where
  "update_client_by_vtoken vt n lbl st =
     (if list_ex (\<lambda>r. cr_vtoken r = vt) (client_rows st) \<and> list_ex (\<lambda>r. cr_name r = n \<and> cr_vtoken r \<noteq> vt) (client_rows st)
      then (Inl UniqueViolation, st)
      else (Inr (), on_vtoken vt (\<lambda>r. r\<lparr>cr_name := n, cr_label := opt_or lbl (cr_label r)\<rparr>) st))"

definition clear_routes_for_vtoken :: "vtoken \<Rightarrow> Store \<Rightarrow> Store" where
  "clear_routes_for_vtoken vt st = st\<lparr>routing_state := hm_retain (\<lambda>_ a. a \<noteq> vt) (routing_state st)\<rparr>"

definition store_list_routes :: "Store \<Rightarrow> (string \<times> vtoken) list" where
  "store_list_routes st = routing_state st"

definition store_get_route :: "Store \<Rightarrow> string \<Rightarrow> vtoken option" where
  "store_get_route st u = map_of (routing_state st) u"

definition store_set_route :: "string \<Rightarrow> vtoken \<Rightarrow> Store \<Rightarrow> Store" where
  "store_set_route u vt st = st\<lparr>routing_state := hm_insert u vt (routing_state st)\<rparr>"

section \<open>Histories of calls\<close>

datatype store_op =
    SVctx bool string string string "string option" string
  | SSetBackend vctx vtoken string string
  | SUsage vctx vtoken string string
  | SDeleteBackend vctx vtoken string
  | SActiveName vctx vtoken string
  | SActiveDepth vctx vtoken string "8 word"
  | SDeleteActive vctx vtoken string
  | SRevoke vtoken
  | SUpsertClient vtoken string "string option"
  | STouch vtoken
  | SDescription vtoken "string option"
  | SPersona vtoken "string option" "string option"
  | SDeleteClient string
  | SUpdateClient vtoken string "string option"
  | SClearRoutes vtoken
  | SSetRoute string vtoken

text \<open>A call at a given epoch second.\<close>

fun store_exec :: "Store \<Rightarrow> int \<times> store_op \<Rightarrow> Store" where
  "store_exec st (now, SVctx ok u1 u2 p g rc) = snd (find_or_create_vctx ok u1 u2 p g rc st)"
| "store_exec st (now, SSetBackend v vt n sid) = set_backend_session v vt n sid st"
| "store_exec st (now, SUsage v vt n u) = set_backend_session_usage v vt n u st"
| "store_exec st (now, SDeleteBackend v vt n) = snd (delete_backend_session v vt n st)"
| "store_exec st (now, SActiveName v vt n) = set_active_session_name now v vt n st"
| "store_exec st (now, SActiveDepth v vt n d) = set_active_session_with_depth now v vt n d st"
| "store_exec st (now, SDeleteActive v vt n) = snd (delete_active_session_if_name v vt n st)"
| "store_exec st (now, SRevoke vt) = revoke_authorizations_for_vtoken vt st"
| "store_exec st (now, SUpsertClient vt n l) = snd (upsert_client now vt n l st)"
| "store_exec st (now, STouch vt) = touch_client now vt st"
| "store_exec st (now, SDescription vt d) = snd (update_client_description vt d st)"
| "store_exec st (now, SPersona vt a b) = update_client_persona vt a b st"
| "store_exec st (now, SDeleteClient n) = snd (delete_client_by_name n st)"
| "store_exec st (now, SUpdateClient vt n l) = snd (update_client_by_vtoken vt n l st)"
| "store_exec st (now, SClearRoutes vt) = clear_routes_for_vtoken vt st"
| "store_exec st (now, SSetRoute u vt) = store_set_route u vt st"

definition store_run :: "Store \<Rightarrow> (int \<times> store_op) list \<Rightarrow> Store" where
  "store_run st ops = foldl store_exec st ops"

section \<open>Grants over a history\<close>

text \<open>
  What the request handlers rely on: authority over a conversation appears only through a granting
  call and is gone after a revocation.
\<close>

locale grant_store =
  fixes inv :: "'s \<Rightarrow> bool"
    and owns :: "int \<Rightarrow> 's \<Rightarrow> vctx \<Rightarrow> vtoken \<Rightarrow> bool"
    and exec :: "'s \<Rightarrow> 'op \<Rightarrow> 's"
    and grants :: "int \<Rightarrow> vctx \<Rightarrow> vtoken \<Rightarrow> 'op \<Rightarrow> bool"
    and revokes :: "vtoken \<Rightarrow> 'op \<Rightarrow> bool"
  assumes inv_exec: "inv s \<Longrightarrow> inv (exec s x)"
    and owns_exec: "inv s \<Longrightarrow> owns now (exec s x) v vt \<Longrightarrow> owns now s v vt \<or> grants now v vt x"
    and revoke_exec: "inv s \<Longrightarrow> revokes vt x \<Longrightarrow> \<not> owns now (exec s x) v vt"
begin

lemma inv_run: "inv s \<Longrightarrow> inv (foldl exec s xs)"
  by (induction xs arbitrary: s) (auto intro: inv_exec)

lemma provenance:
  assumes "inv s" "\<not> owns now s v vt"
  shows "owns now (foldl exec s xs) v vt \<Longrightarrow>
    \<exists>pre x post. xs = pre @ x # post \<and> grants now v vt x \<and> (\<forall>y \<in> set post. \<not> revokes vt y)"
proof (induction xs rule: rev_induct)
  case Nil
  with assms show ?case by simp
next
  case (snoc x xs)
  from snoc.prems have own: "owns now (exec (foldl exec s xs) x) v vt" by simp
  have "inv (foldl exec s xs)" using assms(1) by (rule inv_run)
  with own have keep: "\<not> revokes vt x" and "owns now (foldl exec s xs) v vt \<or> grants now v vt x"
    using revoke_exec owns_exec by blast+
  then show ?case
  proof (elim disjE)
    assume "owns now (foldl exec s xs) v vt"
    from snoc.IH [OF this] obtain pre y post where
      "xs = pre @ y # post" "grants now v vt y" "\<forall>z \<in> set post. \<not> revokes vt z" by blast
    with keep have "xs @ [x] = pre @ y # (post @ [x]) \<and> grants now v vt y \<and> (\<forall>z \<in> set (post @ [x]). \<not> revokes vt z)"
      by simp
    then show ?thesis by blast
  next
    assume "grants now v vt x"
    then have "xs @ [x] = xs @ x # [] \<and> grants now v vt x \<and> (\<forall>z \<in> set []. \<not> revokes vt z)" by simp
    then show ?thesis by blast
  qed
qed

lemma revoked:
  assumes "inv s" "revokes vt x" "\<forall>y \<in> set ys. \<not> grants now v vt y"
  shows "\<not> owns now (foldl exec (exec s x) ys) v vt"
proof
  assume "owns now (foldl exec (exec s x) ys) v vt"
  with provenance [OF inv_exec [OF assms(1)] revoke_exec [OF assms(1,2)]]
  obtain pre z post where "ys = pre @ z # post" "grants now v vt z" by blast
  with assms(3) show False by simp
qed

end

definition store_maps_ok :: "nat \<Rightarrow> Store \<Rightarrow> bool" where
  "store_maps_ok ttl st \<longleftrightarrow> grant_ttl_secs st = ttl \<and> hm_wf (active_sessions st) \<and> hm_wf (backend_sessions_v2 st) \<and>
     hm_wf (routing_state st)"

text \<open>\<open>store_grants ttl now v vt x\<close>: the call \<open>x\<close> hands \<open>vt\<close> the conversation \<open>v\<close>, and the grant still
  stands at \<open>now\<close> unless it is taken back.\<close>

fun store_grants :: "nat \<Rightarrow> int \<Rightarrow> vctx \<Rightarrow> vtoken \<Rightarrow> int \<times> store_op \<Rightarrow> bool" where
  "store_grants ttl now v vt (t, SSetBackend v' vt' n sid) = (v' = v \<and> vt' = vt)"
| "store_grants ttl now v vt (t, SUsage v' vt' n u) = (v' = v \<and> vt' = vt)"
| "store_grants ttl now v vt (t, SActiveName v' vt' n) = (v' = v \<and> vt' = vt \<and> now < min i64_max (t + min i64_max (int ttl)))"
| "store_grants ttl now v vt (t, SActiveDepth v' vt' n d) = (v' = v \<and> vt' = vt \<and> now < min i64_max (t + min i64_max (int ttl)))"
| "store_grants ttl now v vt (t, _) = False"

fun store_revokes :: "vtoken \<Rightarrow> int \<times> store_op \<Rightarrow> bool" where
  "store_revokes vt (t, SRevoke vt') = (vt' = vt)"
| "store_revokes vt (t, _) = False"

lemma named_grant_iff: "named_grant st v vt \<longleftrightarrow> (\<exists>n. (v, vt, n) \<in> fst ` set (backend_sessions_v2 st))"
  by (force simp: named_grant_def list_ex_iff)

lemma named_grant_lookup: "named_grant st v vt \<longleftrightarrow> (\<exists>n. map_of (backend_sessions_v2 st) (v, vt, n) \<noteq> None)"
  by (simp add: named_grant_iff map_of_eq_None_iff)

lemma find_or_create_frame:
  "snd (find_or_create_vctx ok u1 u2 p g rc st) = st\<lparr>context_token_map := context_token_map (snd (find_or_create_vctx ok u1 u2 p g rc st))\<rparr>"
  by (auto simp: find_or_create_vctx_def Let_def split: sum.splits DbError.splits prod.splits)

lemma routing_map_keys: "map (fst \<circ> (\<lambda>(u, a). (u, f u a))) m = map fst m"
  by (induction m) auto

lemmas grant_ops = set_backend_session_def set_backend_session_usage_def delete_backend_session_def
  set_active_session_name_def set_active_session_with_depth_def delete_active_session_if_name_def
  revoke_authorizations_for_vtoken_def

lemmas client_ops = upsert_client_def touch_client_def update_client_description_def update_client_persona_def
  delete_client_by_name_def update_client_by_vtoken_def clear_routes_for_vtoken_def store_set_route_def on_vtoken_def

text \<open>The three tables a call other than \<open>find_or_create_vctx\<close> touches nothing else of.\<close>

lemma vctx_call_frame:
  "grant_ttl_secs (snd (find_or_create_vctx ok u1 u2 p g rc st)) = grant_ttl_secs st"
  "active_sessions (snd (find_or_create_vctx ok u1 u2 p g rc st)) = active_sessions st"
  "backend_sessions_v2 (snd (find_or_create_vctx ok u1 u2 p g rc st)) = backend_sessions_v2 st"
  "routing_state (snd (find_or_create_vctx ok u1 u2 p g rc st)) = routing_state st"
  "client_rows (snd (find_or_create_vctx ok u1 u2 p g rc st)) = client_rows st"
  "db_kind (snd (find_or_create_vctx ok u1 u2 p g rc st)) = db_kind st"
  by (subst find_or_create_frame, simp)+

lemma store_maps_ok_exec: "store_maps_ok ttl st \<Longrightarrow> store_maps_ok ttl (store_exec st x)"
proof (cases x)
  case (Pair t op)
  assume "store_maps_ok ttl st"
  with Pair show ?thesis
    by (cases op) (auto simp: store_maps_ok_def vctx_call_frame grant_ops client_ops routing_map_keys
      split: option.splits intro: wf_intros)
qed

lemma owns_exec_cases:
  assumes "store_maps_ok ttl st" "vtoken_owns_vctx now (store_exec st x) v vt"
  shows "vtoken_owns_vctx now st v vt \<or> store_grants ttl now v vt x"
proof (cases x)
  case (Pair t op)
  with assms show ?thesis
    by (cases op) (auto simp: store_maps_ok_def vtoken_owns_vctx_def active_grant_def named_grant_lookup
      grant_expires_at_def vctx_call_frame grant_ops client_ops map_of_retain split: option.splits if_splits)
qed

lemma revoke_exec_clears:
  assumes "store_maps_ok ttl st" "store_revokes vt x"
  shows "\<not> vtoken_owns_vctx now (store_exec st x) v vt"
proof (cases x)
  case (Pair t op)
  with assms show ?thesis
    by (cases op) (auto simp: store_maps_ok_def vtoken_owns_vctx_def active_grant_def named_grant_lookup
      grant_ops map_of_retain split: option.splits)
qed

interpretation gs: grant_store "store_maps_ok ttl" vtoken_owns_vctx store_exec "store_grants ttl" store_revokes for ttl
proof
  show "store_maps_ok ttl s \<Longrightarrow> store_maps_ok ttl (store_exec s x)" for s x
    by (rule store_maps_ok_exec)
  show "store_maps_ok ttl s \<Longrightarrow> vtoken_owns_vctx now (store_exec s x) v vt \<Longrightarrow>
      vtoken_owns_vctx now s v vt \<or> store_grants ttl now v vt x" for s now x v vt
    by (rule owns_exec_cases)
  show "store_maps_ok ttl s \<Longrightarrow> store_revokes vt x \<Longrightarrow> \<not> vtoken_owns_vctx now (store_exec s x) v vt" for s vt x now v
    by (rule revoke_exec_clears)
qed

section \<open>Virtual contexts are stable\<close>

text \<open>Both unique indexes of \<open>context_token_map\<close>, as lookups.\<close>

definition ctx_ok :: "(vctx, CtxRow) hmap \<Rightarrow> bool" where
  "ctx_ok t \<longleftrightarrow> hm_wf t \<and>
     (\<forall>v v' r r'. map_of t v = Some r \<longrightarrow> map_of t v' = Some r' \<longrightarrow> real_ctx r = real_ctx r' \<longrightarrow> v = v') \<and>
     (\<forall>v v' r r'. map_of t v = Some r \<longrightarrow> map_of t v' = Some r' \<longrightarrow> ctx_peer r = ctx_peer r' \<longrightarrow> ctx_peer r \<noteq> [] \<longrightarrow> v = v')"

lemma find_Some_mem: "find P xs = Some x \<Longrightarrow> x \<in> set xs \<and> P x"
  by (auto simp: find_Some_iff)

lemma row_of_peer_SomeD:
  "hm_wf t \<Longrightarrow> row_of_peer key t = Some (v, r) \<Longrightarrow> map_of t v = Some r \<and> ctx_peer r = key"
  by (auto simp: row_of_peer_def map_of_eq_Some_iff dest!: find_Some_mem)

lemma row_of_peer_None: "hm_wf t \<Longrightarrow> row_of_peer key t = None \<longleftrightarrow> (\<forall>v r. map_of t v = Some r \<longrightarrow> ctx_peer r \<noteq> key)"
  by (auto simp: row_of_peer_def find_None_iff map_of_eq_Some_iff)

lemma row_of_peer_iff:
  assumes "ctx_ok t" "key \<noteq> []"
  shows "row_of_peer key t = Some (v, r) \<longleftrightarrow> map_of t v = Some r \<and> ctx_peer r = key"
proof (cases "row_of_peer key t")
  case None
  then have "\<forall>v r. map_of t v = Some r \<longrightarrow> ctx_peer r \<noteq> key"
    using assms(1) by (simp add: ctx_ok_def row_of_peer_None)
  with None show ?thesis by auto
next
  case (Some x)
  obtain v' r' where x: "x = (v', r')" by fastforce
  with Some assms have h: "map_of t v' = Some r'" "ctx_peer r' = key"
    by (auto simp: ctx_ok_def dest: row_of_peer_SomeD)
  then have "v = v'" if "map_of t v = Some r" "ctx_peer r = key"
    using assms that unfolding ctx_ok_def by metis
  with Some x h show ?thesis by auto
qed

lemma real_ctx_taken_iff:
  "hm_wf t \<Longrightarrow> real_ctx_taken v rc t \<longleftrightarrow> (\<exists>v' r. map_of t v' = Some r \<and> v' \<noteq> v \<and> real_ctx r = rc)"
  by (auto simp: real_ctx_taken_def list_ex_iff map_of_eq_Some_iff)

lemma map_of_snoc: "map_of t c = None \<Longrightarrow> map_of (t @ [(c, r)]) x = (if x = c then Some r else map_of t x)"
  by (auto simp: map_add_def split: option.split)

lemma wf_snoc: "hm_wf t \<Longrightarrow> map_of t c = None \<Longrightarrow> hm_wf (t @ [(c, r)])"
  by (auto simp: map_of_eq_None_iff)

lemma ctx_ok_snoc:
  assumes "ctx_ok t" "map_of t c = None" "\<not> real_ctx_taken c (real_ctx r) t"
    and "ctx_peer r = [] \<or> row_of_peer (ctx_peer r) t = None"
  shows "ctx_ok (t @ [(c, r)])"
proof -
  have wf: "hm_wf t" using assms(1) by (simp add: ctx_ok_def)
  have fresh: "\<forall>v r'. map_of t v = Some r' \<longrightarrow> real_ctx r' \<noteq> real_ctx r \<and> (ctx_peer r \<noteq> [] \<longrightarrow> ctx_peer r' \<noteq> ctx_peer r)"
  proof (intro allI impI)
    fix v r'
    assume m: "map_of t v = Some r'"
    with assms(2) have "v \<noteq> c" by auto
    with m assms(3) wf have "real_ctx r' \<noteq> real_ctx r" by (auto simp: real_ctx_taken_iff)
    moreover have "ctx_peer r \<noteq> [] \<longrightarrow> ctx_peer r' \<noteq> ctx_peer r"
      using m assms(4) wf by (auto simp: row_of_peer_None)
    ultimately show "real_ctx r' \<noteq> real_ctx r \<and> (ctx_peer r \<noteq> [] \<longrightarrow> ctx_peer r' \<noteq> ctx_peer r)" ..
  qed
  have "\<forall>v v' s s'. map_of (t @ [(c, r)]) v = Some s \<longrightarrow> map_of (t @ [(c, r)]) v' = Some s' \<longrightarrow>
      real_ctx s = real_ctx s' \<longrightarrow> v = v'"
    using assms(1) fresh unfolding map_of_snoc [OF assms(2)] ctx_ok_def
    by (metis option.inject)
  moreover have "\<forall>v v' s s'. map_of (t @ [(c, r)]) v = Some s \<longrightarrow> map_of (t @ [(c, r)]) v' = Some s' \<longrightarrow>
      ctx_peer s = ctx_peer s' \<longrightarrow> ctx_peer s \<noteq> [] \<longrightarrow> v = v'"
    using assms(1) fresh unfolding map_of_snoc [OF assms(2)] ctx_ok_def
    by (metis option.inject)
  ultimately show ?thesis using wf_snoc [OF wf assms(2)] unfolding ctx_ok_def by blast
qed

lemma set_real_ctx_ok:
  assumes "ctx_ok t" "map_of t v = Some r" "set_real_ctx v rc t = Inr t'"
  shows "ctx_ok t'" and "map_of t' x = (if x = v then Some (r\<lparr>real_ctx := rc\<rparr>) else map_of t x)"
proof -
  have wf: "hm_wf t" using assms(1) by (simp add: ctx_ok_def)
  have t': "t' = hm_modify v (\<lambda>r. r\<lparr>real_ctx := rc\<rparr>) t" and free: "\<not> real_ctx_taken v rc t"
    using assms(2,3) by (auto simp: set_real_ctx_def split: if_splits)
  show m: "map_of t' x = (if x = v then Some (r\<lparr>real_ctx := rc\<rparr>) else map_of t x)" for x
    using assms(2) by (simp add: t')
  have others: "\<forall>v' r'. map_of t v' = Some r' \<longrightarrow> v' \<noteq> v \<longrightarrow> real_ctx r' \<noteq> rc"
    using free wf by (auto simp: real_ctx_taken_iff)
  have "\<forall>a b s s'. map_of t' a = Some s \<longrightarrow> map_of t' b = Some s' \<longrightarrow> real_ctx s = real_ctx s' \<longrightarrow> a = b"
    using assms(1) others unfolding m ctx_ok_def by (auto split: if_splits; metis)
  moreover have "\<forall>a b s s'. map_of t' a = Some s \<longrightarrow> map_of t' b = Some s' \<longrightarrow>
      ctx_peer s = ctx_peer s' \<longrightarrow> ctx_peer s \<noteq> [] \<longrightarrow> a = b"
    using assms(1,2) unfolding m ctx_ok_def by (auto split: if_splits; metis)
  moreover have "hm_wf t'" using wf by (simp add: t')
  ultimately show "ctx_ok t'" unfolding ctx_ok_def by blast
qed

text \<open>What a lookup-or-create does to the table, on each of its paths and for any candidate.\<close>

definition ctx_step :: "(vctx, CtxRow) hmap \<Rightarrow> string \<Rightarrow> string \<Rightarrow> vctx \<Rightarrow> (vctx, CtxRow) hmap \<Rightarrow> bool" where
  "ctx_step t rc key v t' \<longleftrightarrow> ctx_ok t' \<and> (\<forall>x. map_of t' x = (if x = v then Some \<lparr>real_ctx = rc, ctx_peer = key\<rparr> else map_of t x))
     \<and> (case row_of_peer key t of Some (w, r) \<Rightarrow> key = [] \<or> v = w | None \<Rightarrow> True)
     \<and> (map_of t v \<noteq> None \<longrightarrow> key \<noteq> [] \<and> row_of_peer key t \<noteq> None)"

definition ctx_shared :: "(vctx, CtxRow) hmap \<Rightarrow> string \<Rightarrow> string \<Rightarrow> bool" where
  "ctx_shared t rc key \<longleftrightarrow> (\<exists>v r. map_of t v = Some r \<and> real_ctx r = rc \<and> (key = [] \<or> ctx_peer r \<noteq> key))"

lemma existing_row_step:
  assumes "ctx_ok t" "key \<noteq> []" "row_of_peer key t = Some (v, r)"
  shows "case set_real_ctx v rc t of Inl e \<Rightarrow> e = UniqueViolation \<and> ctx_shared t rc key
    | Inr t' \<Rightarrow> ctx_step t rc key v t' \<and> \<not> ctx_shared t rc key"
proof -
  have wf: "hm_wf t" using assms(1) by (simp add: ctx_ok_def)
  have h: "map_of t v = Some r" "ctx_peer r = key" using assms by (auto simp: row_of_peer_iff)
  have taken: "real_ctx_taken v rc t \<longleftrightarrow> ctx_shared t rc key"
  proof -
    have "v' = v \<longleftrightarrow> ctx_peer r' = key" if "map_of t v' = Some r'" for v' r'
      using assms(1,2) h that unfolding ctx_ok_def by (metis option.inject)
    then show ?thesis using assms(2) wf by (auto simp: real_ctx_taken_iff ctx_shared_def)
  qed
  show ?thesis
  proof (cases "set_real_ctx v rc t")
    case (Inl e)
    then have "e = UniqueViolation" "real_ctx_taken v rc t" by (auto simp: set_real_ctx_def split: if_splits)
    with Inl taken show ?thesis by simp
  next
    case (Inr t')
    have row: "r\<lparr>real_ctx := rc\<rparr> = \<lparr>real_ctx = rc, ctx_peer = key\<rparr>" using h(2) by (cases r) simp
    have "\<not> real_ctx_taken v rc t" using Inr h(1) by (auto simp: set_real_ctx_def split: if_splits)
    then show ?thesis
      using Inr taken set_real_ctx_ok [OF assms(1) h(1) Inr] assms(2,3) by (simp add: ctx_step_def row)
  qed
qed

lemma new_row_step:
  assumes "ctx_ok t" "map_of t c = None" "key = [] \<or> row_of_peer key t = None"
  shows "real_ctx_taken c rc t \<longleftrightarrow> ctx_shared t rc key"
    and "\<not> real_ctx_taken c rc t \<Longrightarrow> ctx_step t rc key c (t @ [(c, \<lparr>real_ctx = rc, ctx_peer = key\<rparr>)])"
proof -
  have wf: "hm_wf t" using assms(1) by (simp add: ctx_ok_def)
  show "real_ctx_taken c rc t \<longleftrightarrow> ctx_shared t rc key"
    using assms(2,3) wf by (fastforce simp: real_ctx_taken_iff ctx_shared_def row_of_peer_None)
  assume "\<not> real_ctx_taken c rc t"
  then have "ctx_ok (t @ [(c, \<lparr>real_ctx = rc, ctx_peer = key\<rparr>)])"
    using assms by (intro ctx_ok_snoc) auto
  then show "ctx_step t rc key c (t @ [(c, \<lparr>real_ctx = rc, ctx_peer = key\<rparr>)])"
    using assms(2,3) map_of_snoc [OF assms(2)] by (auto simp: ctx_step_def split: option.split)
qed

lemma row_of_peer_snoc: "row_of_peer key t = None \<Longrightarrow> row_of_peer key (t @ [(c, \<lparr>real_ctx = rc, ctx_peer = key\<rparr>)]) =
   Some (c, \<lparr>real_ctx = rc, ctx_peer = key\<rparr>)"
  unfolding row_of_peer_def by (induction t) (auto split: if_splits)

lemma two_step_spec:
  assumes "ctx_ok t" "map_of t c = None"
  shows "case two_step_vctx kind c rc key t of Inl e \<Rightarrow> e = UniqueViolation \<and> ctx_shared t rc key
    | Inr (v, t') \<Rightarrow> ctx_step t rc key v t' \<and> \<not> ctx_shared t rc key"
proof (cases "key \<noteq> [] \<and> row_of_peer key t \<noteq> None")
  case True
  then obtain v r where row: "row_of_peer key t = Some (v, r)" by fastforce
  from True have "key \<noteq> []" by simp
  with existing_row_step [OF assms(1) this row, of rc] row show ?thesis
    by (simp add: two_step_vctx_def split: sum.splits)
next
  case False
  then have none: "key = [] \<or> row_of_peer key t = None" by blast
  note new = new_row_step [OF assms none, of rc]
  show ?thesis
  proof (cases "real_ctx_taken c rc t")
    case True
    with new(1) none assms(2) show ?thesis by (auto simp: two_step_vctx_def insert_ctx_def)
  next
    case False
    have ins: "insert_ctx kind c rc key t = Inr (t @ [(c, \<lparr>real_ctx = rc, ctx_peer = key\<rparr>)])"
      using False none assms(2) by (auto simp: insert_ctx_def)
    have "two_step_vctx kind c rc key t = Inr (c, t @ [(c, \<lparr>real_ctx = rc, ctx_peer = key\<rparr>)])"
      using none ins row_of_peer_snoc [of key t c rc] by (auto simp: two_step_vctx_def)
    with new(2) [OF False] new(1) False show ?thesis by simp
  qed
qed

lemma upsert_is_two_step:
  assumes "ctx_ok t" "key \<noteq> []" "map_of t c = None"
  shows "upsert_ctx True c rc key t = two_step_vctx kind c rc key t"
proof (cases "row_of_peer key t")
  case None
  then show ?thesis using assms row_of_peer_snoc [OF None, of c rc]
    by (simp add: upsert_ctx_def two_step_vctx_def insert_ctx_def)
next
  case (Some x)
  then show ?thesis using assms(2) by (cases x) (simp add: upsert_ctx_def two_step_vctx_def)
qed

lemma find_or_create_eq:
  assumes "ctx_ok (context_token_map st)"
    and "map_of (context_token_map st) (''vctx_'' @ u1) = None" "map_of (context_token_map st) (''vctx_'' @ u2) = None"
  shows "\<exists>c \<in> {''vctx_'' @ u1, ''vctx_'' @ u2}. find_or_create_vctx ok u1 u2 p g rc st =
    (case two_step_vctx (db_kind st) c rc (conv_key p g) (context_token_map st) of
       Inl e \<Rightarrow> (Inl e, st) | Inr (v, t') \<Rightarrow> (Inr v, st\<lparr>context_token_map := t'\<rparr>))"
proof (cases "ok \<and> conv_key p g \<noteq> [] \<and> db_kind st \<noteq> MySql")
  case True
  then have "upsert_ctx True (''vctx_'' @ u1) rc (conv_key p g) (context_token_map st) =
      two_step_vctx (db_kind st) (''vctx_'' @ u1) rc (conv_key p g) (context_token_map st)"
    using assms by (intro upsert_is_two_step) auto
  moreover have "two_step_vctx (db_kind st) (''vctx_'' @ u1) rc (conv_key p g) (context_token_map st) \<noteq> Inl MissingConstraint"
    using two_step_spec [OF assms(1,2), where kind = "db_kind st" and rc = rc and key = "conv_key p g"]
    by (auto split: sum.splits)
  ultimately show ?thesis using True
    by (auto simp: find_or_create_vctx_def Let_def split: sum.splits DbError.splits)
next
  case False
  then show ?thesis by (auto simp: find_or_create_vctx_def Let_def upsert_ctx_def split: sum.splits)
qed

lemma find_or_create_spec:
  assumes "ctx_ok (context_token_map st)"
    and "map_of (context_token_map st) (''vctx_'' @ u1) = None" "map_of (context_token_map st) (''vctx_'' @ u2) = None"
  shows "case find_or_create_vctx ok u1 u2 p g rc st of
      (Inl e, st') \<Rightarrow> e = UniqueViolation \<and> st' = st \<and> ctx_shared (context_token_map st) rc (conv_key p g)
    | (Inr v, st') \<Rightarrow> ctx_step (context_token_map st) rc (conv_key p g) v (context_token_map st')
        \<and> \<not> ctx_shared (context_token_map st) rc (conv_key p g)"
proof -
  from find_or_create_eq [OF assms, of ok p g rc] obtain c where
    c: "c \<in> {''vctx_'' @ u1, ''vctx_'' @ u2}" and eq: "find_or_create_vctx ok u1 u2 p g rc st =
      (case two_step_vctx (db_kind st) c rc (conv_key p g) (context_token_map st) of
         Inl e \<Rightarrow> (Inl e, st) | Inr (v, t') \<Rightarrow> (Inr v, st\<lparr>context_token_map := t'\<rparr>))" by blast
  have "map_of (context_token_map st) c = None" using c assms(2,3) by auto
  from two_step_spec [OF assms(1) this, where kind = "db_kind st" and rc = rc and key = "conv_key p g"] show ?thesis
    unfolding eq by (auto split: sum.splits)
qed

text \<open>Rows of the context table survive every call and keep their conversation; the table stays
  consistent whatever UUIDs are drawn.\<close>

definition ctx_kept :: "(vctx, CtxRow) hmap \<Rightarrow> (vctx, CtxRow) hmap \<Rightarrow> bool" where
  "ctx_kept t t' \<longleftrightarrow> (\<forall>v r. map_of t v = Some r \<longrightarrow> (\<exists>r'. map_of t' v = Some r' \<and> ctx_peer r' = ctx_peer r))"

lemma ctx_kept_refl: "ctx_kept t t"
  by (simp add: ctx_kept_def)

lemma ctx_kept_trans: "ctx_kept a b \<Longrightarrow> ctx_kept b c \<Longrightarrow> ctx_kept a c"
  unfolding ctx_kept_def by metis

lemma ctx_step_kept: "hm_wf t \<Longrightarrow> ctx_step t rc key v t' \<Longrightarrow> ctx_kept t t'"
  by (auto simp: ctx_step_def ctx_kept_def dest: row_of_peer_SomeD split: option.splits)

lemma ctx_step_ok: "ctx_ok t \<Longrightarrow> ctx_step t rc key v t' \<Longrightarrow> ctx_ok t' \<and> ctx_kept t t'"
proof
  assume a: "ctx_ok t" "ctx_step t rc key v t'"
  from a(2) show "ctx_ok t'" unfolding ctx_step_def by (rule conjunct1)
  from a(1) have "hm_wf t" unfolding ctx_ok_def by (rule conjunct1)
  from this a(2) show "ctx_kept t t'" by (rule ctx_step_kept)
qed

lemma vctx_table_any:
  assumes "ctx_ok t" "two_step_vctx kind c rc key t = Inr (v, t') \<or> upsert_ctx ok c rc key t = Inr (v, t')"
    and "ok \<longrightarrow> key \<noteq> []"
  shows "ctx_ok t' \<and> ctx_kept t t'"
proof (cases "map_of t c")
  case None
  from assms(2,3) obtain k where "two_step_vctx k c rc key t = Inr (v, t')"
    using upsert_is_two_step [OF assms(1) _ None, of key rc] by (cases ok) (auto simp: upsert_ctx_def)
  with two_step_spec [OF assms(1) None, where kind = k and rc = rc and key = key] have "ctx_step t rc key v t'" by simp
  with assms(1) show ?thesis by (rule ctx_step_ok)
next
  case (Some r0)
  show ?thesis
  proof (cases "key \<noteq> [] \<and> row_of_peer key t \<noteq> None")
    case True
    then obtain w r where row: "row_of_peer key t = Some (w, r)" "key \<noteq> []" by fastforce
    with assms(2) have "set_real_ctx w rc t = Inr t'"
      by (auto simp: two_step_vctx_def upsert_ctx_def split: sum.splits if_splits)
    with existing_row_step [OF assms(1) row(2,1), of rc] have "ctx_step t rc key w t'" by simp
    with assms(1) show ?thesis by (rule ctx_step_ok)
  next
    case False
    then have none: "key = [] \<or> row_of_peer key t = None" by blast
    have ins: "insert_ctx k c rc key2 t = Inr t" for k key2 using Some by (simp add: insert_ctx_def)
    from none assms(2,3) Some have "t' = t"
      by (cases ok) (auto simp: two_step_vctx_def upsert_ctx_def ins Let_def split: if_splits)
    with assms(1) show ?thesis by (simp add: ctx_kept_refl)
  qed
qed

lemma find_or_create_table:
  "snd (find_or_create_vctx ok u1 u2 p g rc st) = st \<or>
   (\<exists>c v t'. (two_step_vctx (db_kind st) c rc (conv_key p g) (context_token_map st) = Inr (v, t') \<or>
      upsert_ctx ok c rc (conv_key p g) (context_token_map st) = Inr (v, t') \<and> conv_key p g \<noteq> []) \<and>
      context_token_map (snd (find_or_create_vctx ok u1 u2 p g rc st)) = t')"
proof -
  let ?two = "two_step_vctx (db_kind st) (''vctx_'' @ u2) rc (conv_key p g) (context_token_map st)"
  let ?up = "upsert_ctx ok (''vctx_'' @ u1) rc (conv_key p g) (context_token_map st)"
  let ?done = "\<lambda>res. case res of Inl e \<Rightarrow> (Inl e, st) | Inr (v, t') \<Rightarrow> (Inr v, st\<lparr>context_token_map := t'\<rparr>)"
  have "find_or_create_vctx ok u1 u2 p g rc st = ?done ?two \<or>
      conv_key p g \<noteq> [] \<and> find_or_create_vctx ok u1 u2 p g rc st = ?done ?up"
    by (cases ?up) (auto simp: find_or_create_vctx_def Let_def split: DbError.split)
  then show ?thesis
  proof (elim disjE conjE)
    assume "find_or_create_vctx ok u1 u2 p g rc st = ?done ?two"
    then show ?thesis by (cases ?two) auto
  next
    assume "find_or_create_vctx ok u1 u2 p g rc st = ?done ?up" "conv_key p g \<noteq> []"
    then show ?thesis by (cases ?up) auto
  qed
qed

lemma ctx_exec: "ctx_ok (context_token_map st) \<Longrightarrow>
  ctx_ok (context_token_map (store_exec st x)) \<and> ctx_kept (context_token_map st) (context_token_map (store_exec st x))"
proof (cases x)
  case (Pair t op)
  assume ok: "ctx_ok (context_token_map st)"
  show ?thesis
  proof (cases "\<exists>ok u1 u2 p g rc. op = SVctx ok u1 u2 p g rc")
    case True
    then obtain b u1 u2 p g rc where op: "op = SVctx b u1 u2 p g rc" by blast
    show ?thesis
      using find_or_create_table [of b u1 u2 p g rc st]
    proof (elim disjE exE conjE)
      assume "snd (find_or_create_vctx b u1 u2 p g rc st) = st"
      with ok show ?thesis by (simp add: Pair op ctx_kept_refl)
    next
      fix c v t'
      assume "two_step_vctx (db_kind st) c rc (conv_key p g) (context_token_map st) = Inr (v, t')"
        and "context_token_map (snd (find_or_create_vctx b u1 u2 p g rc st)) = t'"
      then show ?thesis
        using vctx_table_any [OF ok, where ok = False and kind = "db_kind st" and c = c and rc = rc
            and key = "conv_key p g" and v = v and t' = t'] by (simp add: Pair op)
    next
      fix c v t'
      assume "upsert_ctx b c rc (conv_key p g) (context_token_map st) = Inr (v, t')" "conv_key p g \<noteq> []"
        and "context_token_map (snd (find_or_create_vctx b u1 u2 p g rc st)) = t'"
      then show ?thesis
        using vctx_table_any [OF ok, where ok = b and c = c and rc = rc
            and key = "conv_key p g" and v = v and t' = t'] by (simp add: Pair op)
    qed
  next
    case False
    then have "context_token_map (store_exec st x) = context_token_map st"
      unfolding Pair by (cases op) (auto simp: grant_ops client_ops split: option.splits)
    with ok show ?thesis by (simp add: ctx_kept_refl)
  qed
qed

lemma ctx_run:
  "ctx_ok (context_token_map st) \<Longrightarrow>
   ctx_ok (context_token_map (store_run st ops)) \<and> ctx_kept (context_token_map st) (context_token_map (store_run st ops))"
proof (induction ops arbitrary: st)
  case Nil
  then show ?case by (simp add: store_run_def ctx_kept_refl)
next
  case (Cons x ops)
  from Cons.IH [OF ctx_exec [OF Cons.prems, THEN conjunct1], of x] ctx_exec [OF Cons.prems, of x]
  show ?case by (auto simp: store_run_def intro: ctx_kept_trans)
qed

lemma ctx_run_new: "ctx_ok (context_token_map (store_run (Store_new kind ttl) ops))"
  using ctx_run [of "Store_new kind ttl" ops] by (simp add: Store_new_def ctx_ok_def)

section \<open>The batched lookup\<close>

lemma map_of_fold_insert:
  "hm_wf xs \<Longrightarrow> map_of (fold (\<lambda>(k, r). hm_insert k (f r)) xs m) x =
     (case map_of xs x of Some r \<Rightarrow> Some (f r) | None \<Rightarrow> map_of m x)"
proof (induction xs arbitrary: m)
  case (Cons a xs)
  obtain k r where a: "a = (k, r)" by fastforce
  have "map_of xs k = None" using Cons.prems a by (simp add: map_of_eq_None_iff)
  with Cons a show ?case by (auto split: option.split)
qed simp

lemma map_of_fold_project:
  assumes "hm_wf xs" "\<forall>(k, r) \<in> set xs. snd (snd k) = N (fst k, fst (snd k))"
  shows "map_of (fold (\<lambda>((v, vt, n), r). hm_insert (v, vt) (f r)) xs m) (v, vt) =
     (case map_of xs (v, vt, N (v, vt)) of Some r \<Rightarrow> Some (f r) | None \<Rightarrow> map_of m (v, vt))"
  using assms
proof (induction xs arbitrary: m)
  case (Cons a xs)
  obtain v0 vt0 n r where a: "a = ((v0, vt0, n), r)" by (cases a) auto
  have "map_of xs (v0, vt0, n) = None" using Cons.prems a by (simp add: map_of_eq_None_iff)
  with Cons a show ?case by (auto split: option.split)
qed simp

lemma map_of_fold_keyed:
  "\<forall>x \<in> set xs. vf x = F (kf x) \<Longrightarrow>
   map_of (fold (\<lambda>x. hm_insert (kf x) (vf x)) xs m) k = (if k \<in> kf ` set xs then Some (F k) else map_of m k)"
  by (induction xs arbitrary: m) auto

lemma wf_fold_insert: "hm_wf m \<Longrightarrow> hm_wf (fold (\<lambda>x. hm_insert (kf x) (vf x)) xs m)"
  by (induction xs arbitrary: m) (auto intro: wf_insert)

lemma concat_chunks: "0 < n \<Longrightarrow> concat (chunks n xs) = xs"
  by (induction n xs rule: chunks.induct) auto

lemma session_map_lookup:
  assumes "hm_wf (active_sessions st)" "k \<in> set pairs"
  shows "map_of (session_map st pairs) k = map_option as_session (map_of (active_sessions st) k)"
  using assms unfolding session_map_def
  by (subst map_of_fold_insert)
    (auto simp: map_of_filter_keys distinct_map_filter split: option.splits)

lemma resolved_names_eq:
  assumes "hm_wf (active_sessions st)"
  shows "resolved_names st pairs = map (\<lambda>(v, vt). (v, vt, get_active_session_name st v vt)) pairs"
  using assms by (auto simp: resolved_names_def get_active_session_name_def session_map_lookup)

lemma sid_map_lookup:
  assumes "hm_wf (active_sessions st)" "hm_wf (backend_sessions_v2 st)" "(v, vt) \<in> set pairs"
  shows "map_of (sid_map st (resolved_names st pairs)) (v, vt) =
    map_option bs_sid (map_of (backend_sessions_v2 st) (v, vt, get_active_session_name st v vt))"
proof -
  let ?N = "\<lambda>(v, vt). get_active_session_name st v vt"
  let ?xs = "filter (\<lambda>(k, r). k \<in> set (resolved_names st pairs)) (backend_sessions_v2 st)"
  have wf: "hm_wf ?xs" using assms(2) by (simp add: distinct_map_filter)
  have names: "\<forall>(k, r) \<in> set ?xs. snd (snd k) = ?N (fst k, fst (snd k))"
    using assms(1) by (auto simp: resolved_names_eq)
  have "(v, vt, ?N (v, vt)) \<in> set (resolved_names st pairs)"
    using assms(1,3) by (force simp: resolved_names_eq)
  then have "map_of ?xs (v, vt, ?N (v, vt)) = map_of (backend_sessions_v2 st) (v, vt, ?N (v, vt))"
    using assms(2) by (simp add: map_of_filter_keys split: option.split)
  then show ?thesis unfolding sid_map_def map_of_fold_project [OF wf names]
    by (simp split: option.split)
qed

lemma batch_inner_lookup:
  assumes "hm_wf (active_sessions st)" "hm_wf (backend_sessions_v2 st)"
  shows "map_of (get_hub_ext_batch_inner st pairs) (v, vt) =
    (if (v, vt) \<in> set pairs then Some (get_active_session_name st v vt,
        usable_sid (get_backend_session st v vt (get_active_session_name st v vt))) else None)"
proof -
  let ?res = "resolved_names st pairs"
  let ?F = "\<lambda>(v, vt). (get_active_session_name st v vt,
      usable_sid (get_backend_session st v vt (get_active_session_name st v vt)))"
  have inner: "get_hub_ext_batch_inner st pairs = fold (\<lambda>x. hm_insert (fst x, fst (snd x))
      (snd (snd x), usable_sid (map_of (sid_map st ?res) (fst x, fst (snd x))))) ?res []"
    by (simp add: get_hub_ext_batch_inner_def case_prod_beta' Let_def)
  have "\<forall>x \<in> set ?res. (snd (snd x), usable_sid (map_of (sid_map st ?res) (fst x, fst (snd x)))) = ?F (fst x, fst (snd x))"
    using assms(1) sid_map_lookup [OF assms] by (auto simp: resolved_names_eq get_backend_session_def)
  from map_of_fold_keyed [where F = ?F and kf = "\<lambda>x. (fst x, fst (snd x))" and xs = ?res, OF this, of "[]" "(v, vt)"]
  show ?thesis
    using assms(1) unfolding inner by (force simp: resolved_names_eq)
qed

lemma batch_inner_wf: "hm_wf (get_hub_ext_batch_inner st pairs)"
  unfolding get_hub_ext_batch_inner_def Let_def case_prod_beta' by (rule wf_fold_insert) simp

lemma batch_merge_lookup:
  "map_of (fold (\<lambda>c m. fold (\<lambda>(k, e). hm_insert k e) (get_hub_ext_batch_inner st c) m) cs m0) k =
     (case find_map (\<lambda>c. map_of (get_hub_ext_batch_inner st c) k) (rev cs) of Some e \<Rightarrow> Some e | None \<Rightarrow> map_of m0 k)"
proof (induction cs rule: rev_induct)
  case Nil
  then show ?case by simp
next
  case (snoc c cs)
  then show ?case
    using map_of_fold_insert [OF batch_inner_wf, of "\<lambda>e. e" st c _ k] by (simp split: option.split)
qed

section \<open>Properties\<close>

text \<open>C25: A conversation keeps its virtual context.  After any history of store calls, if a first lookup
  for a conversation returned \<open>v\<close>, then after any further calls a lookup returns \<open>v\<close> again exactly for the
  same conversation (same group, or same peer outside groups), whichever of the two SQL paths the engine
  takes, and the context it returns resolves to the newest real context and to that conversation.\<close>

theorem vctx_stable_and_distinct:
  assumes "st = store_run (Store_new kind ttl) history"
    and "map_of (context_token_map st) (''vctx_'' @ u1) = None" "map_of (context_token_map st) (''vctx_'' @ u2) = None"
    and first: "find_or_create_vctx ok u1 u2 p g rc st = (Inr v, st1)" and key: "conv_key p g \<noteq> []"
    and "st2 = store_run st1 ops"
    and "map_of (context_token_map st2) (''vctx_'' @ w1) = None" "map_of (context_token_map st2) (''vctx_'' @ w2) = None"
    and second: "find_or_create_vctx ok' w1 w2 p' g' rc' st2 = (Inr v', st3)"
  shows "(v' = v \<longleftrightarrow> conv_key p' g' = conv_key p g) \<and> resolve_context_token_full st3 v' = Some (rc', conv_key p' g')"
proof -
  have ok0: "ctx_ok (context_token_map st)" using assms(1) ctx_run_new by simp
  have s1: "ctx_step (context_token_map st) rc (conv_key p g) v (context_token_map st1)"
    using find_or_create_spec [OF ok0 assms(2,3), where ok = ok and p = p and g = g and rc = rc] first by simp
  then have ok1: "ctx_ok (context_token_map st1)"
    and r1: "map_of (context_token_map st1) v = Some \<lparr>real_ctx = rc, ctx_peer = conv_key p g\<rparr>"
    by (auto simp: ctx_step_def)
  from ctx_run [OF ok1, of ops] assms(6) have ok2: "ctx_ok (context_token_map st2)"
    and kept: "ctx_kept (context_token_map st1) (context_token_map st2)" by auto
  from kept r1 obtain r2 where r2: "map_of (context_token_map st2) v = Some r2" "ctx_peer r2 = conv_key p g"
    unfolding ctx_kept_def by fastforce
  have s3: "ctx_step (context_token_map st2) rc' (conv_key p' g') v' (context_token_map st3)"
    using find_or_create_spec [OF ok2 assms(7,8), where ok = ok' and p = p' and g = g' and rc = rc'] second by simp
  have row: "row_of_peer (conv_key p g) (context_token_map st2) = Some (v, r2)"
    using r2 row_of_peer_iff [OF ok2 key] by blast
  have "v' = v" if "conv_key p' g' = conv_key p g"
    using s3 row key that by (simp add: ctx_step_def)
  moreover have "conv_key p' g' = conv_key p g" if "v' = v"
  proof -
    have "conv_key p' g' \<noteq> []" "row_of_peer (conv_key p' g') (context_token_map st2) \<noteq> None"
      using s3 r2(1) that by (auto simp: ctx_step_def)
    then obtain x r where "row_of_peer (conv_key p' g') (context_token_map st2) = Some (x, r)" by auto
    moreover from this s3 \<open>conv_key p' g' \<noteq> []\<close> that have "x = v" by (simp add: ctx_step_def)
    ultimately show ?thesis using row_of_peer_iff [OF ok2 \<open>conv_key p' g' \<noteq> []\<close>] r2 by auto
  qed
  moreover have "resolve_context_token_full st3 v' = Some (rc', conv_key p' g')"
    using s3 by (simp add: ctx_step_def resolve_context_token_full_def)
  ultimately show ?thesis by blast
qed

theorem vctx_stable_and_distinct_witness:
  "snd (the (resolve_context_token_full
     (snd (find_or_create_vctx True ''c'' ''d'' ''ann'' None ''ctx2''
       (store_run (snd (find_or_create_vctx False ''a'' ''b'' ''ann'' None ''ctx1'' (Store_new Sqlite 60)))
         [(5, SActiveName ''vctx_b'' ''h1'' ''default'')]))) ''vctx_b'')) = ''peer:ann''"
proof -
  let ?st1 = "snd (find_or_create_vctx False ''a'' ''b'' ''ann'' None ''ctx1'' (Store_new Sqlite 60))"
  let ?st2 = "store_run ?st1 [(5, SActiveName ''vctx_b'' ''h1'' ''default'')]"
  let ?st3 = "snd (find_or_create_vctx True ''c'' ''d'' ''ann'' None ''ctx2'' ?st2)"
  have 1: "Store_new Sqlite 60 = store_run (Store_new Sqlite 60) []" by (simp add: store_run_def)
  have 2: "map_of (context_token_map (Store_new Sqlite 60)) (''vctx_'' @ ''a'') = None"
    and 3: "map_of (context_token_map (Store_new Sqlite 60)) (''vctx_'' @ ''b'') = None" by code_simp+
  have 4: "find_or_create_vctx False ''a'' ''b'' ''ann'' None ''ctx1'' (Store_new Sqlite 60) = (Inr ''vctx_b'', ?st1)"
    by code_simp
  have 5: "conv_key ''ann'' None \<noteq> []" by code_simp
  have 6: "map_of (context_token_map ?st2) (''vctx_'' @ ''c'') = None"
    and 7: "map_of (context_token_map ?st2) (''vctx_'' @ ''d'') = None" by code_simp+
  have 8: "find_or_create_vctx True ''c'' ''d'' ''ann'' None ''ctx2'' ?st2 = (Inr ''vctx_b'', ?st3)" by code_simp
  from vctx_stable_and_distinct [OF 1 2 3 4 5 refl 6 7 8] show ?thesis by (simp add: conv_key_def)
qed

text \<open>A lookup fails exactly when the real context token is already bound to a different row: to
  another conversation, or, for a message whose peer and group are both unknown, to any earlier row, so
  the second such message with the same token cannot be given a context.  A failed call changes nothing.\<close>

theorem vctx_fails_iff_shared:
  assumes "st = store_run (Store_new kind ttl) history"
    and "map_of (context_token_map st) (''vctx_'' @ u1) = None" "map_of (context_token_map st) (''vctx_'' @ u2) = None"
  shows "(\<exists>e. fst (find_or_create_vctx ok u1 u2 p g rc st) = Inl e) \<longleftrightarrow>
      (\<exists>v r. map_of (context_token_map st) v = Some r \<and> real_ctx r = rc \<and> (conv_key p g = [] \<or> ctx_peer r \<noteq> conv_key p g))"
    (is "?fails \<longleftrightarrow> ?shared")
proof -
  have "ctx_ok (context_token_map st)" using assms(1) ctx_run_new by simp
  from find_or_create_spec [OF this assms(2,3), where ok = ok and p = p and g = g and rc = rc]
  show ?thesis unfolding ctx_shared_def [symmetric]
    by (cases "find_or_create_vctx ok u1 u2 p g rc st") (auto split: sum.splits)
qed

theorem vctx_fails_iff_shared_witness:
  "\<exists>e. fst (find_or_create_vctx True ''c'' ''d'' [] None ''ctx1''
     (store_run (Store_new Sqlite 60) [(0, SVctx True ''a'' ''b'' [] None ''ctx1'')])) = Inl e"
proof -
  let ?st = "store_run (Store_new Sqlite 60) [(0, SVctx True ''a'' ''b'' [] None ''ctx1'')]"
  have 1: "map_of (context_token_map ?st) (''vctx_'' @ ''c'') = None"
    and 2: "map_of (context_token_map ?st) (''vctx_'' @ ''d'') = None" by code_simp+
  have "map_of (context_token_map ?st) ''vctx_b'' = Some \<lparr>real_ctx = ''ctx1'', ctx_peer = []\<rparr>" by code_simp
  moreover have "conv_key [] None = []" by code_simp
  ultimately have "\<exists>v r. map_of (context_token_map ?st) v = Some r \<and> real_ctx r = ''ctx1'' \<and>
      (conv_key [] None = [] \<or> ctx_peer r \<noteq> conv_key [] None)" by force
  with vctx_fails_iff_shared [OF refl 1 2, where ok = True and p = "[]" and g = None and rc = "''ctx1''"] show ?thesis by blast
qed

text \<open>C7: Authority over a conversation has a provenance.  After any history on a fresh store, a token
  passes the send check (and the ownership check, which agree for known contexts) only if some call in
  the history granted it that conversation, by a named session or by a dispatch whose lifetime has not
  run out, and no revocation of the token came after that call.\<close>

theorem send_authority_provenance:
  assumes "st = store_run (Store_new kind ttl) history"
  shows "(resolve_send_context now st v vt \<noteq> None \<longleftrightarrow>
      vtoken_owns_vctx now st v vt \<and> resolve_context_token st v \<noteq> None) \<and>
    (vtoken_owns_vctx now st v vt \<longrightarrow>
      (\<exists>pre x post. history = pre @ x # post \<and> store_grants ttl now v vt x \<and> (\<forall>y \<in> set post. \<not> store_revokes vt y)))"
proof
  show "resolve_send_context now st v vt \<noteq> None \<longleftrightarrow>
      vtoken_owns_vctx now st v vt \<and> resolve_context_token st v \<noteq> None"
    by (auto simp: resolve_send_context_def vtoken_owns_vctx_def resolve_context_token_def split: option.splits)
  have "store_maps_ok ttl (Store_new kind ttl)" "\<not> vtoken_owns_vctx now (Store_new kind ttl) v vt"
    by (simp_all add: store_maps_ok_def Store_new_def vtoken_owns_vctx_def active_grant_def named_grant_def)
  from gs.provenance [OF this, of history]
  show "vtoken_owns_vctx now st v vt \<longrightarrow>
      (\<exists>pre x post. history = pre @ x # post \<and> store_grants ttl now v vt x \<and> (\<forall>y \<in> set post. \<not> store_revokes vt y))"
    using assms by (simp add: store_run_def)
qed

theorem send_authority_provenance_witness:
  "resolve_send_context 50 (store_run (Store_new Sqlite 60)
     [(0, SVctx True ''a'' ''b'' ''ann'' None ''ctx1''), (5, SActiveName ''vctx_a'' ''h1'' ''default'')]) ''vctx_a'' ''h1'' \<noteq> None \<and>
   \<not> vtoken_owns_vctx 65 (store_run (Store_new Sqlite 60)
     [(0, SVctx True ''a'' ''b'' ''ann'' None ''ctx1''), (5, SActiveName ''vctx_a'' ''h1'' ''default'')]) ''vctx_a'' ''h1''"
proof -
  let ?h = "[(0, SVctx True ''a'' ''b'' ''ann'' None ''ctx1''), (5, SActiveName ''vctx_a'' ''h1'' ''default'')]"
  let ?st = "store_run (Store_new Sqlite 60) ?h"
  have 1: "vtoken_owns_vctx 50 ?st ''vctx_a'' ''h1''" and 2: "resolve_context_token ?st ''vctx_a'' \<noteq> None"
    and 3: "\<not> list_ex (store_grants 60 65 ''vctx_a'' ''h1'') ?h" by code_simp+
  have "\<not> vtoken_owns_vctx 65 ?st ''vctx_a'' ''h1''"
  proof
    assume "vtoken_owns_vctx 65 ?st ''vctx_a'' ''h1''"
    with send_authority_provenance [OF refl, of 65 Sqlite 60 ?h "''vctx_a''" "''h1''"]
    obtain x where "x \<in> set ?h" "store_grants 60 65 ''vctx_a'' ''h1'' x" by (metis in_set_conv_decomp)
    with 3 show False by (auto simp: list_ex_iff)
  qed
  with send_authority_provenance [OF refl, of 50 Sqlite 60 ?h "''vctx_a''" "''h1''"] 1 2 show ?thesis by blast
qed





text \<open>The two-step lookup is not safe under concurrency.  When two callers meet a conversation for
  the first time, both find no row, and the first one's insert succeeds, the second one's insert violates
  the unique index on the conversation key, so its call fails although \<open>ON CONFLICT\<close> is given.\<close>

theorem concurrent_first_contact_fails:
  assumes "kind \<noteq> MySql" "key \<noteq> []" "map_of t c1 = None" "row_of_peer key t = None"
    and "insert_ctx kind c1 rc1 key t = Inr t1" "c2 \<noteq> c1" "map_of t c2 = None"
  shows "insert_ctx kind c2 rc2 key t1 = Inl UniqueViolation"
proof -
  have t1: "t1 = t @ [(c1, \<lparr>real_ctx = rc1, ctx_peer = key\<rparr>)]"
    using assms by (auto simp: insert_ctx_def split: if_splits)
  have "map_of t1 c2 = None" using assms(3,6,7) by (simp add: t1 map_of_snoc)
  moreover have "row_of_peer key t1 \<noteq> None" using row_of_peer_snoc [OF assms(4)] by (simp add: t1)
  ultimately show ?thesis using assms(1,2) by (simp add: insert_ctx_def)
qed

theorem concurrent_first_contact_fails_witness:
  "insert_ctx Sqlite ''vctx_2'' ''ctx2'' ''peer:ann'' [(''vctx_1'', \<lparr>real_ctx = ''ctx1'', ctx_peer = ''peer:ann''\<rparr>)] = Inl UniqueViolation"
proof -
  have 1: "map_of [] ''vctx_1'' = (None :: CtxRow option)" "map_of [] ''vctx_2'' = (None :: CtxRow option)" by simp_all
  have 2: "row_of_peer ''peer:ann'' [] = None" by code_simp
  have 3: "insert_ctx Sqlite ''vctx_1'' ''ctx1'' ''peer:ann'' [] =
      Inr [(''vctx_1'', \<lparr>real_ctx = ''ctx1'', ctx_peer = ''peer:ann''\<rparr>)]" by code_simp
  show ?thesis by (rule concurrent_first_contact_fails [OF _ _ 1(1) 2 3 _ 1(2)]) simp_all
qed

end
