(* ===== verification/Message_Store.thy ===== *)
theory Message_Store
  imports Hub_Store
begin

text \<open>
  Chat history and retention (\<open>src/store/messages.rs\<close>, \<open>src/store/retention.rs\<close>): the \<open>messages\<close> table in
  order of its ids, the three quote-reply lookups with the \<open>LIKE\<close> operator they use, the status
  summaries assembled from two queries, and the batched retention sweep.  Where a query leaves open
  which of several equally good rows it returns, the choice is the argument \<open>tie\<close>.  Timestamps are
  epoch seconds, the resolution of \<open>CURRENT_TIMESTAMP\<close>.
\<close>

section \<open>Rows\<close>

record MessageRow =
  m_id :: nat
  m_vctx :: vctx
  m_vtoken :: "vtoken option"
  m_session :: string
  m_peer :: string
  m_role :: string
  m_content :: string
  m_created :: int
  m_ilink_msg_id :: "int option"

record MessageTable =
  m_rows :: "MessageRow list"
  m_next :: nat  \<comment> \<open>the \<open>AUTOINCREMENT\<close> counter\<close>

definition MessageTable_new :: MessageTable where
  "MessageTable_new = \<lparr>m_rows = [], m_next = 1\<rparr>"

definition save_message_with_msg_id ::
  "int \<Rightarrow> vctx \<Rightarrow> vtoken option \<Rightarrow> string \<Rightarrow> string \<Rightarrow> string \<Rightarrow> string \<Rightarrow> int option \<Rightarrow> MessageTable \<Rightarrow> MessageTable" where
  "save_message_with_msg_id now v vt sn peer role content mid t =
     \<lparr>m_rows = m_rows t @ [\<lparr>m_id = m_next t, m_vctx = v, m_vtoken = vt, m_session = sn, m_peer = peer, m_role = role,
        m_content = content, m_created = now, m_ilink_msg_id = mid\<rparr>], m_next = Suc (m_next t)\<rparr>"

definition save_message ::
  "int \<Rightarrow> vctx \<Rightarrow> vtoken option \<Rightarrow> string \<Rightarrow> string \<Rightarrow> string \<Rightarrow> string \<Rightarrow> MessageTable \<Rightarrow> MessageTable" where
  "save_message now v vt sn peer role content t = save_message_with_msg_id now v vt sn peer role content None t"

section \<open>Quote-reply lookups\<close>

text \<open>The SQL \<open>LIKE\<close> operator with \<open>ESCAPE '\'\<close>; \<open>ci\<close> says that ASCII letters match regardless of case,
  as they do on SQLite and MySQL.\<close>

definition like_char :: "bool \<Rightarrow> char \<Rightarrow> char \<Rightarrow> bool" where
  "like_char ci a b = (if ci then ascii_lower a = ascii_lower b else a = b)"

function sql_like :: "bool \<Rightarrow> string \<Rightarrow> string \<Rightarrow> bool" where
  "sql_like ci [] t = (t = [])"
| "sql_like ci (c # p) t =
     (if c = CHR ''%'' then sql_like ci p t \<or> (case t of [] \<Rightarrow> False | _ # t' \<Rightarrow> sql_like ci (c # p) t')
      else if c = CHR ''_'' then (case t of [] \<Rightarrow> False | x # t' \<Rightarrow> sql_like ci p (dropWhile is_cont t'))
      else if c = CHR 0x5C then (case (p, t) of (e # p', x # t') \<Rightarrow> like_char ci e x \<and> sql_like ci p' t' | _ \<Rightarrow> False)
      else (case t of [] \<Rightarrow> False | x # t' \<Rightarrow> like_char ci c x \<and> sql_like ci p t'))"
  by pat_completeness auto
termination
  by (relation "measure (\<lambda>(ci, p, t). length p + length t)")
    (auto split: list.splits intro: le_less_trans [OF length_dropWhile_le])

definition replace_char :: "char \<Rightarrow> string \<Rightarrow> string \<Rightarrow> string" where
  "replace_char c r s = concat (map (\<lambda>x. if x = c then r else [x]) s)"

definition like_prefix_pattern :: "string \<Rightarrow> string" where
  "like_prefix_pattern s =
     replace_char CHR ''_'' [CHR 0x5C, CHR ''_''] (replace_char CHR ''%'' [CHR 0x5C, CHR ''%'']
       (replace_char CHR 0x5C [CHR 0x5C, CHR 0x5C] s)) @ ''%''"

definition origin_of_row :: "MessageRow \<Rightarrow> vtoken \<times> string option" where
  "origin_of_row r = (unwrap_or [] (m_vtoken r), Some (m_session r))"

text \<open>\<open>ORDER BY f DESC LIMIT 1\<close>: one of the rows with the greatest value.\<close>

definition top_row :: "(MessageRow list \<Rightarrow> MessageRow) \<Rightarrow> (MessageRow \<Rightarrow> int) \<Rightarrow> MessageRow list \<Rightarrow> MessageRow option" where
  "top_row tie f rs = (if rs = [] then None
     else Some (tie (filter (\<lambda>r. list_all (\<lambda>r'. f r' \<le> f r) rs) rs)))"

definition assistant_rows :: "string \<Rightarrow> MessageTable \<Rightarrow> MessageRow list" where
  "assistant_rows peer t = filter (\<lambda>r. m_peer r = peer \<and> m_role r = ''assistant'') (m_rows t)"

definition find_assistant_message_by_content ::
  "(MessageRow list \<Rightarrow> MessageRow) \<Rightarrow> bool \<Rightarrow> MessageTable \<Rightarrow> string \<Rightarrow> string \<Rightarrow> (vtoken \<times> string option) option" where
  "find_assistant_message_by_content tie ci t peer pre =
     map_option origin_of_row (top_row tie m_created
       (filter (\<lambda>r. sql_like ci (like_prefix_pattern pre) (m_content r)) (assistant_rows peer t)))"

definition find_assistant_message_by_timestamp ::
  "(MessageRow list \<Rightarrow> MessageRow) \<Rightarrow> MessageTable \<Rightarrow> string \<Rightarrow> int \<Rightarrow> int \<Rightarrow> (vtoken \<times> string option) option" where
  "find_assistant_message_by_timestamp tie t peer ref window =
     map_option origin_of_row (top_row tie (\<lambda>r. - \<bar>m_created r - ref\<bar>)
       (filter (\<lambda>r. ref - window \<le> m_created r \<and> m_created r \<le> ref + window) (assistant_rows peer t)))"

definition find_assistant_message_by_msg_id ::
  "(MessageRow list \<Rightarrow> MessageRow) \<Rightarrow> MessageTable \<Rightarrow> string \<Rightarrow> int \<Rightarrow> (vtoken \<times> string option) option" where
  "find_assistant_message_by_msg_id tie t peer mid =
     map_option origin_of_row (top_row tie (\<lambda>r. 0)
       (filter (\<lambda>r. m_ilink_msg_id r = Some mid) (assistant_rows peer t)))"

section \<open>History and status summaries\<close>

text \<open>A negative \<open>LIMIT\<close> is no limit.\<close>

definition sql_limit :: "int \<Rightarrow> 'a list \<Rightarrow> 'a list" where
  "sql_limit n rs = (if n < 0 then rs else take (nat n) rs)"

definition list_messages :: "MessageTable \<Rightarrow> vctx \<Rightarrow> int \<Rightarrow> MessageRow list" where
  "list_messages t v limit = sql_limit limit (sort_key (\<lambda>r. - m_created r) (filter (\<lambda>r. m_vctx r = v) (m_rows t)))"

definition list_messages_for_session :: "MessageTable \<Rightarrow> vtoken \<Rightarrow> string \<Rightarrow> int \<Rightarrow> MessageRow list" where
  "list_messages_for_session t vt sn limit =
     sql_limit (max 1 (min 500 limit)) (rev (filter (\<lambda>r. m_vtoken r = Some vt \<and> m_session r = sn) (m_rows t)))"

record SessionStatusEntry =
  se_session :: string
  se_last_user :: "string option"
  se_waiting :: bool
  se_user_at :: "int option"

text \<open>The join against \<open>MAX(id) ... GROUP BY\<close>: the last row of each group, in order of ids.\<close>

fun last_of_groups :: "('r \<Rightarrow> 'k) \<Rightarrow> 'r list \<Rightarrow> 'r list" where
  "last_of_groups key [] = []"
| "last_of_groups key (r # rs) =
     (if key r \<in> key ` set rs then last_of_groups key rs else r # last_of_groups key rs)"

definition rows_of :: "vtoken list \<Rightarrow> MessageTable \<Rightarrow> MessageRow list" where
  "rows_of vts t = filter (\<lambda>r. \<exists>vt \<in> set vts. m_vtoken r = Some vt) (m_rows t)"

definition is_user :: "MessageRow \<Rightarrow> bool" where
  "is_user r \<longleftrightarrow> m_role r = ''user''"

definition mk_entry :: "MessageRow \<Rightarrow> (string \<times> int) option \<Rightarrow> SessionStatusEntry" where
  "mk_entry r user = \<lparr>se_session = m_session r, se_last_user = map_option fst user, se_waiting = is_user r,
     se_user_at = map_option snd user\<rparr>"

definition get_session_status_per_vtoken :: "MessageTable \<Rightarrow> vtoken list \<Rightarrow> (vtoken option, SessionStatusEntry) hmap" where
  "get_session_status_per_vtoken t vts =
     (let latest = last_of_groups m_vtoken (rows_of vts t);
          users = last_of_groups m_vtoken (filter is_user (rows_of vts t));
          user_content = fold (\<lambda>r m. if hm_contains m (m_vtoken r) then m
              else hm_insert (m_vtoken r) (m_content r, m_created r) m) users []
      in fold (\<lambda>r m. if hm_contains m (m_vtoken r) then m
              else hm_insert (m_vtoken r) (mk_entry r (map_of user_content (m_vtoken r))) m) latest [])"

abbreviation session_key :: "MessageRow \<Rightarrow> vtoken option \<times> string" where
  "session_key r \<equiv> (m_vtoken r, m_session r)"

definition get_all_session_entries_per_vtoken ::
  "MessageTable \<Rightarrow> vtoken list \<Rightarrow> (vtoken option, SessionStatusEntry list) hmap" where
  "get_all_session_entries_per_vtoken t vts =
     (let latest = rev (last_of_groups session_key (rows_of vts t));
          roles = fold (\<lambda>r. hm_insert (session_key r) (m_role r)) latest [];
          users = last_of_groups session_key (filter is_user (rows_of vts t));
          user_content = fold (\<lambda>r. hm_insert (session_key r) (m_content r, m_created r)) users []
      in fold (\<lambda>r m. hm_insert (m_vtoken r)
              (unwrap_or [] (map_of m (m_vtoken r)) @
               [\<lparr>se_session = m_session r, se_last_user = map_option fst (map_of user_content (session_key r)),
                 se_waiting = (unwrap_or ''assistant'' (map_of roles (session_key r)) = ''user''),
                 se_user_at = map_option snd (map_of user_content (session_key r))\<rparr>]) m) latest [])"

section \<open>Retention\<close>

record RetentionConfig =
  rt_enabled :: bool
  rt_dry_run :: bool
  rt_sweep_interval_secs :: nat
  rt_batch_size :: nat
  rt_messages_ttl_secs :: nat
  rt_active_sessions_ttl_secs :: nat

definition RetentionConfig_default :: RetentionConfig where
  "RetentionConfig_default = \<lparr>rt_enabled = False, rt_dry_run = True, rt_sweep_interval_secs = 3600, rt_batch_size = 500,
     rt_messages_ttl_secs = 0, rt_active_sessions_ttl_secs = 0\<rparr>"

definition parse_env_bool :: "string option \<Rightarrow> bool \<Rightarrow> bool" where
  "parse_env_bool env dflt = (case env of None \<Rightarrow> dflt
     | Some v \<Rightarrow> to_ascii_lowercase (trim v) \<in> {''1'', ''true'', ''yes''})"

text \<open>\<open>None\<close> is the error of a value that is not a number.\<close>

definition parse_env_u64 :: "string option \<Rightarrow> nat \<Rightarrow> nat option" where
  "parse_env_u64 env dflt = (case env of None \<Rightarrow> Some dflt
     | Some v \<Rightarrow> if trim v = [] then Some dflt else parse_u64 (trim v))"

definition RetentionConfig_from_env :: "(string \<Rightarrow> string option) \<Rightarrow> RetentionConfig option" where
  "RetentionConfig_from_env env =
     (let d = RetentionConfig_default in
      case parse_env_u64 (env ''ILINK_RETENTION_SWEEP_SECS'') (rt_sweep_interval_secs d) of None \<Rightarrow> None | Some i \<Rightarrow>
      (case parse_env_u64 (env ''ILINK_RETENTION_BATCH_SIZE'') (rt_batch_size d) of None \<Rightarrow> None | Some b \<Rightarrow>
      (case parse_env_u64 (env ''ILINK_RETENTION_MESSAGES_TTL_SECS'') (rt_messages_ttl_secs d) of None \<Rightarrow> None | Some m \<Rightarrow>
      (case parse_env_u64 (env ''ILINK_RETENTION_ACTIVE_SESSIONS_TTL_SECS'') (rt_active_sessions_ttl_secs d) of None \<Rightarrow> None | Some a \<Rightarrow>
        Some \<lparr>rt_enabled = parse_env_bool (env ''ILINK_RETENTION_ENABLED'') (rt_enabled d),
              rt_dry_run = parse_env_bool (env ''ILINK_RETENTION_DRY_RUN'') (rt_dry_run d),
              rt_sweep_interval_secs = i, rt_batch_size = b, rt_messages_ttl_secs = m, rt_active_sessions_ttl_secs = a\<rparr>))))"

record RetentionReport =
  rr_dry_run :: bool
  rr_messages_matched :: nat
  rr_messages_deleted :: nat
  rr_active_sessions_matched :: nat
  rr_active_sessions_deleted :: nat
  rr_batches :: nat

definition i64_min :: int where
  "i64_min = - 9223372036854775808"

definition cutoff_epoch_secs :: "nat \<Rightarrow> int \<Rightarrow> int" where
  "cutoff_epoch_secs ttl now = max i64_min (now - min (int ttl) i64_max)"

text \<open>\<open>batch_size as i64\<close>.\<close>

definition limit_of_batch :: "nat \<Rightarrow> int" where
  "limit_of_batch b = (if int b \<le> i64_max then int b else int b - 18446744073709551616)"

text \<open>The batched \<open>DELETE\<close>: the first \<open>limit\<close> rows the selection returns.\<close>

definition delete_batch :: "int \<Rightarrow> ('r \<Rightarrow> bool) \<Rightarrow> 'r list \<Rightarrow> nat \<times> 'r list" where
  "delete_batch limit old rs =
     (let victims = sql_limit limit (filter old rs) in (length victims, filter (\<lambda>r. r \<notin> set victims) rs))"

text \<open>The delete loop: it ends when a batch was not full.  \<open>None\<close> is a loop that never ends.\<close>

partial_function (option) sweep_loop :: "nat \<Rightarrow> ('r \<Rightarrow> bool) \<Rightarrow> 'r list \<Rightarrow> nat \<Rightarrow> nat \<Rightarrow> (nat \<times> nat \<times> 'r list) option" where
  "sweep_loop b old rs deleted batches =
     (case delete_batch (limit_of_batch b) old rs of (affected, rs') \<Rightarrow>
        if affected < b then Some (deleted + affected, batches + 1, rs')
        else sweep_loop b old rs' (deleted + affected) (batches + 1))"

text \<open>One table: \<open>(matched, deleted, batches)\<close> and the remaining rows.\<close>

definition sweep_expired :: "RetentionConfig \<Rightarrow> ('r \<Rightarrow> bool) \<Rightarrow> 'r list \<Rightarrow> ((nat \<times> nat \<times> nat) \<times> 'r list) option" where
  "sweep_expired cfg old rs =
     (if rt_dry_run cfg
      then (let matched = length (sql_limit (limit_of_batch (rt_batch_size cfg)) (filter old rs))
            in Some (if matched = 0 then (0, 0, 0) else (matched, 0, 1), rs))
      else map_option (\<lambda>(deleted, batches, rs'). ((deleted, deleted, batches), rs'))
             (sweep_loop (rt_batch_size cfg) old rs 0 0))"

definition old_message :: "int \<Rightarrow> MessageRow \<Rightarrow> bool" where
  "old_message cutoff r \<longleftrightarrow> m_created r < cutoff"

definition old_active :: "int \<Rightarrow> (vctx \<times> vtoken) \<times> ActiveRow \<Rightarrow> bool" where
  "old_active cutoff x \<longleftrightarrow> as_updated (snd x) < cutoff"

definition sweep_retention ::
  "RetentionConfig \<Rightarrow> int \<Rightarrow> MessageTable \<Rightarrow> Store \<Rightarrow> (RetentionReport \<times> MessageTable \<times> Store) option" where
  "sweep_retention cfg now t st =
     (case (if rt_messages_ttl_secs cfg > 0
            then sweep_expired cfg (old_message (cutoff_epoch_secs (rt_messages_ttl_secs cfg) now)) (m_rows t)
            else Some ((0, 0, 0), m_rows t)) of
        None \<Rightarrow> None
      | Some ((mm, md, mb), rows) \<Rightarrow>
          (case (if rt_active_sessions_ttl_secs cfg > 0
                 then sweep_expired cfg (old_active (cutoff_epoch_secs (rt_active_sessions_ttl_secs cfg) now)) (active_sessions st)
                 else Some ((0, 0, 0), active_sessions st)) of
             None \<Rightarrow> None
           | Some ((am, ad, ab), act) \<Rightarrow>
               Some (\<lparr>rr_dry_run = rt_dry_run cfg, rr_messages_matched = mm, rr_messages_deleted = md,
                      rr_active_sessions_matched = am, rr_active_sessions_deleted = ad, rr_batches = mb + ab\<rparr>,
                     t\<lparr>m_rows := rows\<rparr>, st\<lparr>active_sessions := act\<rparr>)))"

section \<open>The LIKE pattern\<close>

definition like_escape :: "char \<Rightarrow> string" where
  "like_escape x = (if x \<in> {CHR 0x5C, CHR ''%'', CHR ''_''} then [CHR 0x5C, x] else [x])"

lemma like_prefix_pattern_eq: "like_prefix_pattern s = concat (map like_escape s) @ ''%''"
  by (induction s) (auto simp: like_prefix_pattern_def replace_char_def like_escape_def)

lemma sql_like_percent: "sql_like ci ''%'' t"
  by (induction t) simp_all

lemma sql_like_escaped:
  "sql_like ci (concat (map like_escape p) @ ''%'') t \<longleftrightarrow>
     length p \<le> length t \<and> list_all2 (like_char ci) p (take (length p) t)"
proof (induction p arbitrary: t)
  case Nil
  then show ?case by (simp add: sql_like_percent del: sql_like.simps)
next
  case (Cons c p)
  show ?case
  proof (cases t)
    case Nil
    then show ?thesis by (simp add: like_escape_def)
  next
    case (Cons x t')
    then show ?thesis using Cons.IH [of t'] by (auto simp: like_escape_def)
  qed
qed

section \<open>Assembling the status\<close>

lemma keys_last_of_groups: "map key (last_of_groups key rs) = remdups (map key rs)"
  by (induction rs) auto

lemma set_last_of_groups: "set (last_of_groups key rs) \<subseteq> set rs"
  by (induction rs) auto

lemma last_of_groups_is_last:
  "r \<in> set (last_of_groups key rs) \<Longrightarrow> r = last (filter (\<lambda>r'. key r' = key r) rs)"
proof (induction rs)
  case (Cons a rs)
  show ?case
  proof (cases "r = a \<and> key a \<notin> key ` set rs")
    case True
    then have "filter (\<lambda>r'. key r' = key r) rs = []" by (fastforce simp: filter_empty_conv image_iff)
    with True show ?thesis by simp
  next
    case False
    then have r: "r \<in> set (last_of_groups key rs)" using Cons.prems by (auto split: if_splits)
    then have "filter (\<lambda>r'. key r' = key r) rs \<noteq> []"
      using set_last_of_groups [of key rs] by (auto simp: filter_empty_conv)
    with Cons.IH [OF r] show ?thesis by simp
  qed
qed simp

lemma filter_last_of_groups:
  "\<forall>r. P r \<longleftrightarrow> Q (key r) \<Longrightarrow> filter P (last_of_groups key rs) = last_of_groups key (filter P rs)"
proof (induction rs)
  case (Cons a rs)
  have "key a \<in> key ` set rs \<longleftrightarrow> key a \<in> key ` {r \<in> set rs. P r}" if "P a"
    using Cons.prems that by (auto simp: image_iff)
  with Cons show ?case by auto
qed simp

lemma map_of_fold_group:
  "map_of (fold (\<lambda>r m. hm_insert (k r) (unwrap_or [] (map_of m (k r)) @ [e r]) m) xs m0) x =
     (if filter (\<lambda>r. k r = x) xs = [] then map_of m0 x
      else Some (unwrap_or [] (map_of m0 x) @ map e (filter (\<lambda>r. k r = x) xs)))"
  by (induction xs arbitrary: m0) auto

lemma map_of_fold_last_of_groups:
  "map_of (fold (\<lambda>r. hm_insert (key r) (f r)) (last_of_groups key rs) []) x =
     (if filter (\<lambda>r. key r = x) rs = [] then None else Some (f (last (filter (\<lambda>r. key r = x) rs))))"
proof -
  have eq: "\<forall>r \<in> set (last_of_groups key rs). f r = (\<lambda>x. f (last (filter (\<lambda>r. key r = x) rs))) (key r)"
    using last_of_groups_is_last [of _ key rs] by simp
  have "x \<in> key ` set (last_of_groups key rs) \<longleftrightarrow> filter (\<lambda>r. key r = x) rs \<noteq> []"
    using arg_cong [OF keys_last_of_groups [of key rs], of set] by (auto simp: filter_empty_conv)
  with map_of_fold_keyed [where F = "\<lambda>x. f (last (filter (\<lambda>r. key r = x) rs))" and kf = key, OF eq, of "[]" x]
  show ?thesis by simp
qed

text \<open>The reference summary: scan the messages of one session.\<close>

definition session_rows :: "MessageTable \<Rightarrow> vtoken \<Rightarrow> string \<Rightarrow> MessageRow list" where
  "session_rows t vt sn = filter (\<lambda>r. m_vtoken r = Some vt \<and> m_session r = sn) (m_rows t)"

definition last_opt :: "'a list \<Rightarrow> 'a option" where
  "last_opt xs = (if xs = [] then None else Some (last xs))"

definition session_summary :: "MessageTable \<Rightarrow> vtoken \<Rightarrow> string \<Rightarrow> SessionStatusEntry" where
  "session_summary t vt sn = \<lparr>se_session = sn,
     se_last_user = map_option m_content (last_opt (filter is_user (session_rows t vt sn))),
     se_waiting = is_user (last (session_rows t vt sn)),
     se_user_at = map_option m_created (last_opt (filter is_user (session_rows t vt sn)))\<rparr>"

definition sessions_by_recency :: "MessageTable \<Rightarrow> vtoken \<Rightarrow> string list" where
  "sessions_by_recency t vt = rev (remdups (map m_session (filter (\<lambda>r. m_vtoken r = Some vt) (m_rows t))))"

lemma session_key_rows:
  assumes "vt \<in> set vts"
  shows "filter (\<lambda>r. session_key r = (Some vt, sn)) (rows_of vts t) = session_rows t vt sn"
    and "filter (\<lambda>r. session_key r = (Some vt, sn)) (filter is_user (rows_of vts t)) = filter is_user (session_rows t vt sn)"
proof -
  show "filter (\<lambda>r. session_key r = (Some vt, sn)) (rows_of vts t) = session_rows t vt sn"
    using assms by (auto simp: rows_of_def session_rows_def filter_filter intro!: filter_cong)
  then show "filter (\<lambda>r. session_key r = (Some vt, sn)) (filter is_user (rows_of vts t)) = filter is_user (session_rows t vt sn)"
    by (metis (no_types, lifting) filter_filter filter_cong conj_commute)
qed

lemma remdups_map_Pair: "remdups (map (Pair a) xs) = map (Pair a) (remdups xs)"
  by (induction xs) auto

lemma latest_sessions:
  assumes "vt \<in> set vts"
  shows "map m_session (filter (\<lambda>r. m_vtoken r = Some vt) (rev (last_of_groups session_key (rows_of vts t)))) = sessions_by_recency t vt"
proof -
  let ?rs = "filter (\<lambda>r. m_vtoken r = Some vt) (m_rows t)"
  have "filter (\<lambda>r. m_vtoken r = Some vt) (last_of_groups session_key (rows_of vts t)) =
      last_of_groups session_key (filter (\<lambda>r. m_vtoken r = Some vt) (rows_of vts t))"
    by (rule filter_last_of_groups [where Q = "\<lambda>k. fst k = Some vt"]) simp
  also have "filter (\<lambda>r. m_vtoken r = Some vt) (rows_of vts t) = ?rs"
    using assms by (auto simp: rows_of_def filter_filter intro!: filter_cong)
  finally have "map session_key (filter (\<lambda>r. m_vtoken r = Some vt) (last_of_groups session_key (rows_of vts t))) =
      remdups (map session_key ?rs)" by (simp add: keys_last_of_groups)
  moreover have "remdups (map session_key ?rs) = map (Pair (Some vt)) (remdups (map m_session ?rs))"
  proof -
    have "map session_key ?rs = map (Pair (Some vt)) (map m_session ?rs)" by simp
    then show ?thesis by (simp only: remdups_map_Pair)
  qed
  ultimately have "map snd (map session_key (filter (\<lambda>r. m_vtoken r = Some vt) (last_of_groups session_key (rows_of vts t)))) =
      remdups (map m_session ?rs)" by (simp add: comp_def)
  then have "rev (map m_session (filter (\<lambda>r. m_vtoken r = Some vt) (last_of_groups session_key (rows_of vts t)))) =
      rev (remdups (map m_session ?rs))" by (simp add: comp_def)
  then show ?thesis by (simp add: sessions_by_recency_def rev_filter rev_map)
qed

section \<open>The sweep loop\<close>

lemma delete_batch_split:
  assumes "distinct rs" "delete_batch limit old rs = (n, rs')"
  shows "distinct rs'" "filter (\<lambda>r. \<not> old r) rs' = filter (\<lambda>r. \<not> old r) rs"
    "n + length (filter old rs') = length (filter old rs)"
    "n = length (sql_limit limit (filter old rs))"
proof -
  let ?v = "sql_limit limit (filter old rs)"
  have n: "n = length ?v" and rs': "rs' = filter (\<lambda>r. r \<notin> set ?v) rs"
    using assms(2) by (auto simp: delete_batch_def Let_def)
  have sub: "set ?v \<subseteq> set (filter old rs)" "distinct ?v"
    using assms(1) by (auto simp: sql_limit_def dest: in_set_takeD)
  show "distinct rs'" using assms(1) by (simp add: rs')
  show "filter (\<lambda>r. \<not> old r) rs' = filter (\<lambda>r. \<not> old r) rs"
    using sub(1) by (auto simp: rs' filter_filter intro!: filter_cong)
  have "length (filter old rs') = card ({r \<in> set rs. old r} - set ?v)"
    using assms(1) by (simp add: rs' filter_filter distinct_card [symmetric] set_diff_eq conj_commute conj_left_commute)
  also have "\<dots> = card {r \<in> set rs. old r} - card (set ?v)"
    using sub(1) by (intro card_Diff_subset) auto
  also have "card {r \<in> set rs. old r} = length (filter old rs)"
    using assms(1) distinct_card [of "filter old rs"] by simp
  finally show "n + length (filter old rs') = length (filter old rs)"
    using sub distinct_card [of ?v] by (simp add: n sql_limit_def)
  show "n = length ?v" by (rule n)
qed

lemma sweep_loop_total:
  assumes "0 < b" "distinct rs" "b \<le> u64_max"
  shows "\<exists>k. sweep_loop b old rs d j = Some (d + length (filter old rs), k, filter (\<lambda>r. \<not> old r) rs)"
  using assms(2)
proof (induction "length (filter old rs)" arbitrary: rs d j rule: less_induct)
  case less
  obtain n rs' where del: "delete_batch (limit_of_batch b) old rs = (n, rs')" by fastforce
  note split = delete_batch_split [OF less.prems del]
  show ?case
  proof (cases "n < b")
    case True
    have "filter old rs' = []"
    proof -
      have "n = length (filter old rs) \<or> n = b"
        using split(4) assms(1,3) by (auto simp: sql_limit_def limit_of_batch_def u64_max_def min_def split: if_splits)
      with True split(3) show ?thesis by auto
    qed
    then have "filter (\<lambda>r. \<not> old r) rs' = rs'" and n: "n = length (filter old rs)"
      using split(3) by (simp_all add: filter_empty_conv filter_id_conv)
    with split(2) have rs': "rs' = filter (\<lambda>r. \<not> old r) rs" by simp
    have "sweep_loop b old rs d j = Some (d + n, j + 1, rs')"
      by (subst sweep_loop.simps) (simp add: del True)
    then show ?thesis unfolding n rs' by blast
  next
    case False
    then have "length (filter old rs') < length (filter old rs)" using split(3) assms(1) by simp
    from less.hyps [OF this split(1), of "d + n" "j + 1"] obtain k where
      "sweep_loop b old rs' (d + n) (j + 1) = Some (d + n + length (filter old rs'), k, filter (\<lambda>r. \<not> old r) rs')" by blast
    moreover have "sweep_loop b old rs d j = sweep_loop b old rs' (d + n) (j + 1)"
      by (subst sweep_loop.simps) (simp add: del False)
    ultimately have "sweep_loop b old rs d j = Some (d + length (filter old rs), k, filter (\<lambda>r. \<not> old r) rs)"
      using split(2,3) by (simp add: add.assoc)
    then show ?thesis by blast
  qed
qed

lemma sweep_loop_SomeD: "sweep_loop b old rs d j = Some y \<Longrightarrow> b \<noteq> 0"
  by (rule sweep_loop.raw_induct [of "\<lambda>b old rs d j y. b \<noteq> 0"]) (auto split: prod.splits if_splits)

lemma sweep_loop_zero: "sweep_loop 0 old rs d j = None"
  using sweep_loop_SomeD [of 0 old rs d j] by (cases "sweep_loop 0 old rs d j") auto

lemma sweep_expired_result:
  assumes "0 < rt_batch_size cfg \<or> rt_dry_run cfg" "distinct rs" "rt_batch_size cfg \<le> u64_max"
  shows "\<exists>m k. sweep_expired cfg old rs = Some
    (if rt_dry_run cfg then ((m, 0, k), rs) else ((length (filter old rs), length (filter old rs), k), filter (\<lambda>r. \<not> old r) rs))"
proof (cases "rt_dry_run cfg")
  case True
  then show ?thesis by (auto simp: sweep_expired_def Let_def)
next
  case False
  with assms sweep_loop_total [of "rt_batch_size cfg" rs old 0 0] show ?thesis by (auto simp: sweep_expired_def)
qed

text \<open>Rows of a table built by inserts have distinct ids.\<close>

definition table_ok :: "MessageTable \<Rightarrow> bool" where
  "table_ok t \<longleftrightarrow> distinct (map m_id (m_rows t)) \<and> (\<forall>r \<in> set (m_rows t). m_id r < m_next t)"

lemma table_ok_new: "table_ok MessageTable_new"
  by (simp add: table_ok_def MessageTable_new_def)

lemma table_ok_save: "table_ok t \<Longrightarrow> table_ok (save_message_with_msg_id now v vt sn peer role content mid t)"
  by (force simp: table_ok_def save_message_with_msg_id_def)

lemma table_ok_distinct: "table_ok t \<Longrightarrow> distinct (m_rows t)"
  by (simp add: table_ok_def distinct_map)

lemma top_row_mem:
  assumes "\<And>rs. rs \<noteq> [] \<Longrightarrow> tie rs \<in> set rs" "top_row tie f rs = Some r"
  shows "r \<in> set rs"
proof -
  let ?best = "filter (\<lambda>r. list_all (\<lambda>r'. f r' \<le> f r) rs) rs"
  have rs: "rs \<noteq> []" and r: "r = tie ?best" using assms(2) by (auto simp: top_row_def split: if_splits)
  have "Max (f ` set rs) \<in> f ` set rs" using rs by (intro Max_in) auto
  then obtain m where m: "Max (f ` set rs) = f m" "m \<in> set rs" by (rule imageE)
  have "\<forall>r' \<in> set rs. f r' \<le> f m" unfolding m(1) [symmetric] by simp
  with m(2) have "?best \<noteq> []" by (auto simp: filter_empty_conv list_all_iff)
  from assms(1) [OF this] show ?thesis by (simp add: r)
qed

lemma roles_of_latest:
  assumes "r \<in> set (last_of_groups session_key rs)"
  shows "map_of (fold (\<lambda>r. hm_insert (session_key r) (m_role r)) (rev (last_of_groups session_key rs)) []) (session_key r) = Some (m_role r)"
proof -
  have "\<forall>x \<in> set (rev (last_of_groups session_key rs)). m_role x = (\<lambda>k. m_role (last (filter (\<lambda>r. session_key r = k) rs))) (session_key x)"
    using last_of_groups_is_last [of _ session_key rs] by simp
  from map_of_fold_keyed [where F = "\<lambda>k. m_role (last (filter (\<lambda>r. session_key r = k) rs))" and kf = session_key, OF this]
  show ?thesis using assms last_of_groups_is_last [OF assms] by simp
qed

section \<open>Properties\<close>

text \<open>Escaping makes the content lookup a literal prefix test.  For every prefix text, wildcard and
  escape characters included, the pattern the lookup builds matches a message exactly when the message
  starts with that text, comparing characters as the engine does (ASCII letters regardless of case on
  SQLite).  Hence a row the lookup returns is an assistant message of that conversation that starts so.\<close>

theorem content_lookup_is_literal_prefix:
  assumes "\<And>rs. rs \<noteq> [] \<Longrightarrow> tie rs \<in> set rs"
  shows "(sql_like ci (like_prefix_pattern p) s \<longleftrightarrow>
      length p \<le> length s \<and> list_all2 (like_char ci) p (take (length p) s)) \<and>
    (find_assistant_message_by_content tie ci t peer p = Some res \<longrightarrow>
      (\<exists>r \<in> set (m_rows t). m_peer r = peer \<and> m_role r = ''assistant'' \<and> res = (unwrap_or [] (m_vtoken r), Some (m_session r)) \<and>
         list_all2 (like_char ci) p (take (length p) (m_content r))))"
proof
  show lit: "sql_like ci (like_prefix_pattern p) s \<longleftrightarrow>
      length p \<le> length s \<and> list_all2 (like_char ci) p (take (length p) s)" for s
    unfolding like_prefix_pattern_eq by (rule sql_like_escaped)
  show "find_assistant_message_by_content tie ci t peer p = Some res \<longrightarrow>
      (\<exists>r \<in> set (m_rows t). m_peer r = peer \<and> m_role r = ''assistant'' \<and> res = (unwrap_or [] (m_vtoken r), Some (m_session r)) \<and>
         list_all2 (like_char ci) p (take (length p) (m_content r)))"
  proof
    let ?rs = "filter (\<lambda>r. sql_like ci (like_prefix_pattern p) (m_content r)) (assistant_rows peer t)"
    assume "find_assistant_message_by_content tie ci t peer p = Some res"
    then obtain r where r: "top_row tie m_created ?rs = Some r" and res: "res = origin_of_row r"
      by (auto simp: find_assistant_message_by_content_def)
    have "r \<in> set ?rs" using top_row_mem [OF assms r] .
    then show "\<exists>r \<in> set (m_rows t). m_peer r = peer \<and> m_role r = ''assistant'' \<and> res = (unwrap_or [] (m_vtoken r), Some (m_session r)) \<and>
         list_all2 (like_char ci) p (take (length p) (m_content r))"
      using lit [of "m_content r"] by (auto simp: assistant_rows_def res origin_of_row_def)
  qed
qed

theorem content_lookup_is_literal_prefix_witness:
  "\<not> sql_like True (like_prefix_pattern ''50%_off'') ''50 anything off'' \<and>
   sql_like True (like_prefix_pattern ''50%_off'') ''50%_OFF sale''"
proof -
  have tie: "rs \<noteq> [] \<Longrightarrow> last rs \<in> set rs" for rs :: "MessageRow list" by (rule last_in_set)
  have 1: "\<not> list_all2 (like_char True) ''50%_off'' (take (length ''50%_off'') ''50 anything off'')"
    and 2: "length ''50%_off'' \<le> length ''50%_OFF sale''"
      "list_all2 (like_char True) ''50%_off'' (take (length ''50%_off'') ''50%_OFF sale'')" by code_simp+
  show ?thesis
    using content_lookup_is_literal_prefix [of last, OF tie, THEN conjunct1, of True "''50%_off''" "''50 anything off''"]
      content_lookup_is_literal_prefix [of last, OF tie, THEN conjunct1, of True "''50%_off''" "''50%_OFF sale''"] 1 2 by blast
qed

text \<open>C38: The status summary equals a scan of the messages.  For every requested backend, the list
  assembled from the two grouped queries names each of its sessions once, most recent first, and for
  each says whether its last message is the user's and what the user said last.\<close>

theorem session_entries_are_scan:
  assumes "vt \<in> set vts"
  shows "map_of (get_all_session_entries_per_vtoken t vts) (Some vt) =
    (if sessions_by_recency t vt = [] then None else Some (map (session_summary t vt) (sessions_by_recency t vt)))"
proof -
  let ?latest = "rev (last_of_groups session_key (rows_of vts t))"
  let ?roles = "fold (\<lambda>r. hm_insert (session_key r) (m_role r)) ?latest []"
  let ?uc = "fold (\<lambda>r. hm_insert (session_key r) (m_content r, m_created r))
      (last_of_groups session_key (filter is_user (rows_of vts t))) []"
  let ?e = "\<lambda>r. \<lparr>se_session = m_session r, se_last_user = map_option fst (map_of ?uc (session_key r)),
      se_waiting = (unwrap_or ''assistant'' (map_of ?roles (session_key r)) = ''user''),
      se_user_at = map_option snd (map_of ?uc (session_key r))\<rparr>"
  have e: "?e r = session_summary t vt (m_session r)" if r: "r \<in> set ?latest" "m_vtoken r = Some vt" for r
  proof -
    have key: "session_key r = (Some vt, m_session r)" using r by simp
    have last: "r = last (session_rows t vt (m_session r))"
      using last_of_groups_is_last [of r session_key "rows_of vts t"] r
      by (simp only: set_rev key session_key_rows [OF assms])
    have uc: "map_of ?uc (session_key r) =
        (if filter is_user (session_rows t vt (m_session r)) = [] then None
         else Some ((\<lambda>r. (m_content r, m_created r)) (last (filter is_user (session_rows t vt (m_session r))))))"
      unfolding key map_of_fold_last_of_groups [where key = session_key] session_key_rows [OF assms] by simp
    have role: "map_of ?roles (session_key r) = Some (m_role r)"
      using roles_of_latest [of r "rows_of vts t"] r by simp
    show ?thesis using last by (simp add: uc role session_summary_def last_opt_def is_user_def)
  qed
  have "map_of (get_all_session_entries_per_vtoken t vts) (Some vt) =
      (if filter (\<lambda>r. m_vtoken r = Some vt) ?latest = [] then None
       else Some (map ?e (filter (\<lambda>r. m_vtoken r = Some vt) ?latest)))"
    unfolding get_all_session_entries_per_vtoken_def Let_def map_of_fold_group [where k = m_vtoken] by simp
  also have "map ?e (filter (\<lambda>r. m_vtoken r = Some vt) ?latest) =
      map (session_summary t vt) (map m_session (filter (\<lambda>r. m_vtoken r = Some vt) ?latest))"
    unfolding map_map comp_def by (rule map_cong [OF refl], rule e) (unfold set_filter, blast+)
  finally show ?thesis
    unfolding latest_sessions [OF assms, of t, symmetric] map_is_Nil_conv .
qed

definition two_sessions :: MessageTable where
  "two_sessions = save_message 3 ''v'' (Some ''h1'') ''a'' ''p'' ''assistant'' ''done''
     (save_message 2 ''v'' (Some ''h1'') ''b'' ''p'' ''user'' ''hi''
       (save_message 1 ''v'' (Some ''h1'') ''a'' ''p'' ''user'' ''go'' MessageTable_new))"

theorem session_entries_are_scan_witness:
  "map_of (get_all_session_entries_per_vtoken two_sessions [''h1'']) (Some ''h1'') =
     Some [\<lparr>se_session = ''a'', se_last_user = Some ''go'', se_waiting = False, se_user_at = Some 1\<rparr>,
           \<lparr>se_session = ''b'', se_last_user = Some ''hi'', se_waiting = True, se_user_at = Some 2\<rparr>]"
proof -
  have 1: "''h1'' \<in> set [''h1'']" by simp
  have 2: "sessions_by_recency two_sessions ''h1'' = [''a'', ''b'']" by code_simp
  have 3: "map (session_summary two_sessions ''h1'') [''a'', ''b''] =
     [\<lparr>se_session = ''a'', se_last_user = Some ''go'', se_waiting = False, se_user_at = Some 1\<rparr>,
      \<lparr>se_session = ''b'', se_last_user = Some ''hi'', se_waiting = True, se_user_at = Some 2\<rparr>]" by code_simp
  from session_entries_are_scan [OF 1, of two_sessions] show ?thesis unfolding 2 3 by simp
qed

text \<open>C35: The retention sweep ends and deletes exactly the expired rows.  It returns if and only if it is
  a dry run, or its batch size is not zero, or it has no table to sweep; a dry run changes nothing, and a
  real one removes precisely the rows older than the lifetime of their table, however many batches that
  takes, and reports their number.\<close>

theorem retention_sweep_exact:
  assumes "table_ok t" "hm_wf (active_sessions st)" "rt_batch_size cfg \<le> u64_max"
  shows "(sweep_retention cfg now t st \<noteq> None \<longleftrightarrow>
      rt_dry_run cfg \<or> 0 < rt_batch_size cfg \<or> rt_messages_ttl_secs cfg = 0 \<and> rt_active_sessions_ttl_secs cfg = 0) \<and>
    (\<forall>rep t' st'. sweep_retention cfg now t st = Some (rep, t', st') \<longrightarrow>
      (if rt_dry_run cfg then t' = t \<and> st' = st \<and> rr_messages_deleted rep = 0 \<and> rr_active_sessions_deleted rep = 0
       else m_rows t' = filter (\<lambda>r. rt_messages_ttl_secs cfg = 0 \<or>
                \<not> m_created r < cutoff_epoch_secs (rt_messages_ttl_secs cfg) now) (m_rows t)
          \<and> active_sessions st' = filter (\<lambda>x. rt_active_sessions_ttl_secs cfg = 0 \<or>
                \<not> as_updated (snd x) < cutoff_epoch_secs (rt_active_sessions_ttl_secs cfg) now) (active_sessions st)
          \<and> rr_messages_deleted rep + length (m_rows t') = length (m_rows t)
          \<and> rr_active_sessions_deleted rep + length (active_sessions st') = length (active_sessions st)))"
proof -
  have dm: "distinct (m_rows t)" by (rule table_ok_distinct [OF assms(1)])
  have da: "distinct (active_sessions st)" using assms(2) by (simp add: distinct_map)
  show ?thesis
  proof (cases "0 < rt_batch_size cfg \<or> rt_dry_run cfg")
    case True
    note m = sweep_expired_result [OF True dm assms(3), of "old_message (cutoff_epoch_secs (rt_messages_ttl_secs cfg) now)"]
    note a = sweep_expired_result [OF True da assms(3), of "old_active (cutoff_epoch_secs (rt_active_sessions_ttl_secs cfg) now)"]
    show ?thesis
      using True m a
        sum_length_filter_compl [of "old_message (cutoff_epoch_secs (rt_messages_ttl_secs cfg) now)" "m_rows t"]
        sum_length_filter_compl [of "old_active (cutoff_epoch_secs (rt_active_sessions_ttl_secs cfg) now)" "active_sessions st"]
      by (cases "rt_dry_run cfg"; cases "rt_messages_ttl_secs cfg = 0"; cases "rt_active_sessions_ttl_secs cfg = 0")
        (auto simp: sweep_retention_def old_message_def [abs_def] old_active_def [abs_def])
  next
    case False
    then show ?thesis by (auto simp: sweep_retention_def sweep_expired_def sweep_loop_zero)
  qed
qed

theorem retention_sweep_exact_witness:
  "\<exists>rep t' st'. sweep_retention (RetentionConfig_default\<lparr>rt_dry_run := False, rt_batch_size := 1, rt_messages_ttl_secs := 10\<rparr>)
     13 two_sessions (Store_new Sqlite 60) = Some (rep, t', st') \<and> map m_created (m_rows t') = [3]"
proof -
  let ?cfg = "RetentionConfig_default\<lparr>rt_dry_run := False, rt_batch_size := 1, rt_messages_ttl_secs := 10\<rparr>"
  have 1: "table_ok two_sessions" unfolding two_sessions_def save_message_def by (intro table_ok_save table_ok_new)
  have 2: "hm_wf (active_sessions (Store_new Sqlite 60))" by (simp add: Store_new_def)
  have 3: "rt_batch_size ?cfg \<le> u64_max" by (simp add: u64_max_def)
  have 4: "map m_created (filter (\<lambda>r. rt_messages_ttl_secs ?cfg = 0 \<or>
      \<not> m_created r < cutoff_epoch_secs (rt_messages_ttl_secs ?cfg) 13) (m_rows two_sessions)) = [3]"
    by (simp add: two_sessions_def save_message_def save_message_with_msg_id_def MessageTable_new_def cutoff_epoch_secs_def
        i64_min_def i64_max_def)
  obtain rep t' st' where run: "sweep_retention ?cfg 13 two_sessions (Store_new Sqlite 60) = Some (rep, t', st')"
    using retention_sweep_exact [OF 1 2 3, of 13, THEN conjunct1] by (auto simp: RetentionConfig_default_def)
  have "m_rows t' = filter (\<lambda>r. rt_messages_ttl_secs ?cfg = 0 \<or>
      \<not> m_created r < cutoff_epoch_secs (rt_messages_ttl_secs ?cfg) 13) (m_rows two_sessions)"
    using retention_sweep_exact [OF 1 2 3, of 13, THEN conjunct2, rule_format, OF run] by (simp add: RetentionConfig_default_def)
  with run 4 show ?thesis by auto
qed

end
