(* ===== verification/Migrations.thy ===== *)
theory Migrations
  imports Message_Store Hub_Auth
begin

text \<open>
  Schema migrations (\<open>src/store/migrations.rs\<close> and the SQL files it embeds): a database as its version
  table, the columns of its tables, its indexes and the rows the data migrations touch; one definition
  per migration step, run in order in one transaction.  Hashing and the credential cipher are arguments.
\<close>

section \<open>Databases and statements\<close>

datatype mig_error = DuplicateColumn | NoSuchTable | MigUnique | NoMasterKey | CipherError

record mig_db =
  schema_version :: "nat list"
  db_tables :: "(string, string list) hmap"
  db_indexes :: "string list"
  mg_ctx :: "(vctx \<times> string \<times> string) list"  \<comment> \<open>\<open>vctx\<close>, \<open>real_ctx\<close>, \<open>peer_user_id\<close>\<close>
  mg_clients :: "vtoken list"
  mg_routes :: "(string \<times> vtoken) list"
  mg_msg_vtokens :: "vtoken option list"
  mg_active :: "(vctx \<times> vtoken) list"
  mg_backend :: "(vctx \<times> vtoken \<times> string) list"
  mg_creds :: "(int \<times> string) list"

definition mig_empty :: mig_db where
  "mig_empty = \<lparr>schema_version = [], db_tables = [], db_indexes = [], mg_ctx = [], mg_clients = [], mg_routes = [],
     mg_msg_vtokens = [], mg_active = [], mg_backend = [], mg_creds = []\<rparr>"

definition table_exists :: "mig_db \<Rightarrow> string \<Rightarrow> bool" where
  "table_exists db tbl \<longleftrightarrow> hm_contains (db_tables db) tbl"

definition column_exists :: "mig_db \<Rightarrow> string \<Rightarrow> string \<Rightarrow> bool" where
  "column_exists db tbl col \<longleftrightarrow> (case map_of (db_tables db) tbl of Some cols \<Rightarrow> col \<in> set cols | None \<Rightarrow> False)"

definition create_table :: "string \<Rightarrow> string list \<Rightarrow> mig_db \<Rightarrow> mig_db" where
  "create_table tbl cols db = (if table_exists db tbl then db else db\<lparr>db_tables := hm_insert tbl cols (db_tables db)\<rparr>)"

definition add_column :: "string \<Rightarrow> string \<Rightarrow> mig_db \<Rightarrow> mig_error + mig_db" where
  "add_column tbl col db = (case map_of (db_tables db) tbl of
     None \<Rightarrow> Inl NoSuchTable
   | Some cols \<Rightarrow> if col \<in> set cols then Inl DuplicateColumn
                  else Inr (db\<lparr>db_tables := hm_insert tbl (cols @ [col]) (db_tables db)\<rparr>))"

text \<open>\<open>CREATE [UNIQUE] INDEX IF NOT EXISTS\<close>; \<open>ok\<close> says whether the rows allow it.\<close>

definition create_index :: "string \<Rightarrow> string \<Rightarrow> bool \<Rightarrow> mig_db \<Rightarrow> mig_error + mig_db" where
  "create_index ix tbl ok db =
     (if ix \<in> set (db_indexes db) then Inr db
      else if \<not> table_exists db tbl then Inl NoSuchTable
      else if \<not> ok then Inl MigUnique
      else Inr (db\<lparr>db_indexes := db_indexes db @ [ix]\<rparr>))"

text \<open>The check-and-claim of a version; both SQL forms insert the row if it is absent.\<close>

definition try_claim_migration_in_tx :: "nat \<Rightarrow> mig_db \<Rightarrow> bool \<times> mig_db" where
  "try_claim_migration_in_tx ver db =
     (if ver \<in> set (schema_version db) then (False, db) else (True, db\<lparr>schema_version := schema_version db @ [ver]\<rparr>))"

definition claimed :: "nat \<Rightarrow> (mig_db \<Rightarrow> mig_error + mig_db) \<Rightarrow> mig_db \<Rightarrow> mig_error + mig_db" where
  "claimed ver body db = (case try_claim_migration_in_tx ver db of
     (False, _) \<Rightarrow> Inr db | (True, db') \<Rightarrow> body db')"

definition get_current_version :: "mig_db \<Rightarrow> nat" where
  "get_current_version db = fold max (filter (\<lambda>n. n < 2147483647) (schema_version db)) 0"

definition is_migration_run :: "nat \<Rightarrow> mig_db \<Rightarrow> bool" where
  "is_migration_run ver db \<longleftrightarrow> ver \<in> set (schema_version db)"

definition mig_bind :: "mig_error + mig_db \<Rightarrow> (mig_db \<Rightarrow> mig_error + mig_db) \<Rightarrow> mig_error + mig_db" where
  "mig_bind r k = (case r of Inl e \<Rightarrow> Inl e | Inr db \<Rightarrow> k db)"

section \<open>The steps\<close>

definition migrate_to_v1_tx :: "mig_db \<Rightarrow> mig_error + mig_db" where
  "migrate_to_v1_tx = claimed 1 (\<lambda>db. Inr
     (create_table ''bot_credentials'' [''id'', ''token'', ''base_url'', ''updated_at'']
     (create_table ''context_token_map'' [''vctx'', ''real_ctx'', ''peer_user_id'', ''expires_at'']
     (create_table ''routing_state'' [''from_user'', ''active_vtoken'', ''updated_at'']
     (create_table ''clients'' [''vtoken'', ''name'', ''label'', ''created_at'', ''last_seen''] db)))))"

definition migrate_to_v2_tx :: "mig_db \<Rightarrow> mig_error + mig_db" where
  "migrate_to_v2_tx = claimed 2 (\<lambda>db. Inr
     (create_table ''active_sessions'' [''vctx'', ''vtoken'', ''session_name'', ''updated_at'']
     (create_table ''backend_sessions_v2'' [''vctx'', ''vtoken'', ''session_name'', ''backend_session_id'', ''created_at''] db)))"

definition real_ctx_unique :: "mig_db \<Rightarrow> bool" where
  "real_ctx_unique db \<longleftrightarrow> distinct (map (\<lambda>(_, rc, _). rc) (mg_ctx db))"

definition migrate_to_v3_tx :: "mig_db \<Rightarrow> mig_error + mig_db" where
  "migrate_to_v3_tx = claimed 3 (\<lambda>db. create_index ''idx_context_token_map_real_ctx'' ''context_token_map'' (real_ctx_unique db) db)"

definition migrate_to_v4_tx :: "mig_db \<Rightarrow> mig_error + mig_db" where
  "migrate_to_v4_tx = claimed 4 (\<lambda>db.
     mig_bind (if column_exists db ''context_token_map'' ''created_at'' then Inr db
               else add_column ''context_token_map'' ''created_at'' db)
       (create_index ''idx_context_token_map_created_at'' ''context_token_map'' True))"

definition migrate_to_v5_tx :: "mig_db \<Rightarrow> mig_error + mig_db" where
  "migrate_to_v5_tx = claimed 5 (\<lambda>db.
     mig_bind (create_index ''idx_messages_vctx_created'' ''messages'' True
         (create_table ''messages'' [''id'', ''vctx'', ''vtoken'', ''session_name'', ''peer_user_id'', ''role'', ''content'', ''created_at''] db))
       (create_index ''idx_messages_peer_role_created'' ''messages'' True))"

text \<open>\<open>ci\<close> as for \<open>LIKE\<close> in general.\<close>

definition normalize_peer :: "bool \<Rightarrow> string \<Rightarrow> string" where
  "normalize_peer ci p = (if p \<noteq> [] \<and> \<not> sql_like ci ''peer:%'' p \<and> \<not> sql_like ci ''group:%'' p then ''peer:'' @ p else p)"

definition migrate_to_v6_tx :: "bool \<Rightarrow> mig_db \<Rightarrow> mig_error + mig_db" where
  "migrate_to_v6_tx ci = claimed 6 (\<lambda>db.
     if \<not> table_exists db ''context_token_map'' then Inl NoSuchTable
     else Inr (db\<lparr>mg_ctx := map (\<lambda>(v, rc, p). (v, rc, normalize_peer ci p)) (mg_ctx db)\<rparr>))"

text \<open>The first row of each non-empty conversation key stays.\<close>

fun dedup_peers :: "string list \<Rightarrow> (vctx \<times> string \<times> string) list \<Rightarrow> (vctx \<times> string \<times> string) list" where
  "dedup_peers seen [] = []"
| "dedup_peers seen ((v, rc, p) # rows) =
     (if p \<noteq> [] \<and> p \<in> set seen then dedup_peers seen rows else (v, rc, p) # dedup_peers (p # seen) rows)"

definition peers_unique :: "mig_db \<Rightarrow> bool" where
  "peers_unique db \<longleftrightarrow> distinct (filter (\<lambda>p. p \<noteq> []) (map (\<lambda>(_, _, p). p) (mg_ctx db)))"

definition migrate_to_v7_tx :: "DatabaseKind \<Rightarrow> mig_db \<Rightarrow> mig_error + mig_db" where
  "migrate_to_v7_tx kind = claimed 7 (\<lambda>db.
     if kind = MySql then Inr db
     else if \<not> table_exists db ''context_token_map'' then Inl NoSuchTable
     else (let db' = db\<lparr>mg_ctx := dedup_peers [] (mg_ctx db)\<rparr>
           in create_index ''idx_context_token_map_peer_user_id'' ''context_token_map'' (peers_unique db') db'))"

text \<open>Step 8 hashes stored tokens and encrypts bot credentials.  \<open>key\<close> says whether a master key is
  available; \<open>dec\<close> whether a stored credential decrypts under it; \<open>enc\<close> encrypts.\<close>

definition plain_only :: "vtoken list \<Rightarrow> vtoken list" where
  "plain_only vts = filter (\<lambda>vt. \<not> is_vtoken_hash vt) vts"

definition vtokens_to_hash :: "mig_db \<Rightarrow> vtoken list" where
  "vtokens_to_hash db = remdups (plain_only (mg_clients db) @ plain_only (map snd (mg_routes db)) @
     plain_only (List.map_filter (\<lambda>x. x) (mg_msg_vtokens db)))"

definition rename_vtoken :: "vtoken \<Rightarrow> vtoken \<Rightarrow> mig_db \<Rightarrow> mig_error + mig_db" where
  "rename_vtoken old new db =
     (if old \<in> set (mg_clients db) \<and> old \<noteq> new \<and> new \<in> set (mg_clients db) then Inl MigUnique
      else Inr (db\<lparr>mg_clients := map (\<lambda>x. if x = old then new else x) (mg_clients db),
                   mg_routes := map (\<lambda>(u, x). (u, if x = old then new else x)) (mg_routes db),
                   mg_msg_vtokens := map (\<lambda>x. if x = Some old then Some new else x) (mg_msg_vtokens db)\<rparr>))"

fun rename_all :: "(string \<Rightarrow> 8 word list) \<Rightarrow> vtoken list \<Rightarrow> mig_db \<Rightarrow> mig_error + mig_db" where
  "rename_all sha [] db = Inr db"
| "rename_all sha (old # olds) db = mig_bind (rename_vtoken old (hash_vtoken sha old) db) (rename_all sha olds)"

fun encrypt_creds :: "(string \<Rightarrow> bool) \<Rightarrow> (string \<Rightarrow> string option) \<Rightarrow> (int \<times> string) list \<Rightarrow> (int \<times> string) list option" where
  "encrypt_creds dec enc [] = Some []"
| "encrypt_creds dec enc ((i, tok) # rows) =
     (case (if dec tok then Some tok else enc tok) of
        None \<Rightarrow> None
      | Some tok' \<Rightarrow> map_option (\<lambda>rs. (i, tok') # rs) (encrypt_creds dec enc rows))"

definition migrate_to_v8_tx ::
  "(string \<Rightarrow> 8 word list) \<Rightarrow> bool \<Rightarrow> (string \<Rightarrow> bool) \<Rightarrow> (string \<Rightarrow> string option) \<Rightarrow> mig_db \<Rightarrow> mig_error + mig_db" where
  "migrate_to_v8_tx sha key dec enc = claimed 8 (\<lambda>db.
     case mg_clients db of
       [] \<Rightarrow> Inr db
     | first # _ \<Rightarrow>
         if is_vtoken_hash first then Inr db
         else if \<not> key then Inl NoMasterKey
         else mig_bind (rename_all sha (vtokens_to_hash db) db)
           (\<lambda>db. case encrypt_creds dec enc (mg_creds db) of
              None \<Rightarrow> Inl CipherError | Some rows \<Rightarrow> Inr (db\<lparr>mg_creds := rows\<rparr>)))"

definition migrate_to_v9_tx :: "mig_db \<Rightarrow> mig_error + mig_db" where
  "migrate_to_v9_tx = claimed 9 (\<lambda>db. if table_exists db ''messages''
     then create_index ''idx_messages_lookup'' ''messages'' True db else Inr db)"

definition migrate_to_v10_tx :: "mig_db \<Rightarrow> mig_error + mig_db" where
  "migrate_to_v10_tx = claimed 10 (\<lambda>db. if table_exists db ''clients''
     then mig_bind (add_column ''clients'' ''persona_name'' db) (add_column ''clients'' ''persona_emoji'') else Inr db)"

text \<open>The guard shared by the later steps: add a column once, and only to a table that is there.\<close>

definition add_column_if_missing :: "string \<Rightarrow> string \<Rightarrow> mig_db \<Rightarrow> mig_error + mig_db" where
  "add_column_if_missing tbl col db =
     (if table_exists db tbl \<and> \<not> column_exists db tbl col then add_column tbl col db else Inr db)"

definition migrate_to_v11_tx :: "mig_db \<Rightarrow> mig_error + mig_db" where
  "migrate_to_v11_tx = claimed 11 (add_column_if_missing ''active_sessions'' ''a2a_depth'')"

definition migrate_to_v12_tx :: "mig_db \<Rightarrow> mig_error + mig_db" where
  "migrate_to_v12_tx = claimed 12 (add_column_if_missing ''clients'' ''description'')"

definition migrate_to_v13_tx :: "mig_db \<Rightarrow> mig_error + mig_db" where
  "migrate_to_v13_tx = claimed 13 (\<lambda>db.
     if table_exists db ''messages'' \<and> \<not> column_exists db ''messages'' ''ilink_msg_id''
     then mig_bind (add_column ''messages'' ''ilink_msg_id'' db) (create_index ''idx_messages_ilink_msg_id'' ''messages'' True)
     else Inr db)"

definition migrate_to_v14_tx :: "mig_db \<Rightarrow> mig_error + mig_db" where
  "migrate_to_v14_tx = claimed 14 (add_column_if_missing ''backend_sessions_v2'' ''last_usage_json'')"

definition migrate_to_v15_tx :: "mig_db \<Rightarrow> mig_error + mig_db" where
  "migrate_to_v15_tx = claimed 15 (add_column_if_missing ''active_sessions'' ''expires_at'')"

definition migration_steps ::
  "DatabaseKind \<Rightarrow> bool \<Rightarrow> (string \<Rightarrow> 8 word list) \<Rightarrow> bool \<Rightarrow> (string \<Rightarrow> bool) \<Rightarrow> (string \<Rightarrow> string option) \<Rightarrow>
   (mig_db \<Rightarrow> mig_error + mig_db) list" where
  "migration_steps kind ci sha key dec enc =
     [migrate_to_v1_tx, migrate_to_v2_tx, migrate_to_v3_tx, migrate_to_v4_tx, migrate_to_v5_tx, migrate_to_v6_tx ci,
      migrate_to_v7_tx kind, migrate_to_v8_tx sha key dec enc, migrate_to_v9_tx, migrate_to_v10_tx, migrate_to_v11_tx,
      migrate_to_v12_tx, migrate_to_v13_tx, migrate_to_v14_tx, migrate_to_v15_tx]"

text \<open>One transaction: an error rolls everything back.\<close>

definition run_migrations ::
  "DatabaseKind \<Rightarrow> bool \<Rightarrow> (string \<Rightarrow> 8 word list) \<Rightarrow> bool \<Rightarrow> (string \<Rightarrow> bool) \<Rightarrow> (string \<Rightarrow> string option) \<Rightarrow>
   mig_db \<Rightarrow> (mig_error + unit) \<times> mig_db" where
  "run_migrations kind ci sha key dec enc db =
     (case fold (\<lambda>step r. mig_bind r step) (migration_steps kind ci sha key dec enc) (Inr db) of
        Inl e \<Rightarrow> (Inl e, db) | Inr db' \<Rightarrow> (Inr (), db'))"

section \<open>Claims\<close>

lemmas mig_steps = migrate_to_v1_tx_def migrate_to_v2_tx_def migrate_to_v3_tx_def migrate_to_v4_tx_def migrate_to_v5_tx_def
  migrate_to_v6_tx_def migrate_to_v7_tx_def migrate_to_v8_tx_def migrate_to_v9_tx_def migrate_to_v10_tx_def migrate_to_v11_tx_def
  migrate_to_v12_tx_def migrate_to_v13_tx_def migrate_to_v14_tx_def migrate_to_v15_tx_def

lemma claimed_skip: "ver \<in> set (schema_version db) \<Longrightarrow> claimed ver body db = Inr db"
  by (simp add: claimed_def try_claim_migration_in_tx_def)

lemma claimed_run:
  "ver \<notin> set (schema_version db) \<Longrightarrow> claimed ver body db = body (db\<lparr>schema_version := schema_version db @ [ver]\<rparr>)"
  by (simp add: claimed_def try_claim_migration_in_tx_def)

lemma mig_bind_simps [simp]: "mig_bind (Inl e) k = Inl e" "mig_bind (Inr db) k = k db"
  by (simp_all add: mig_bind_def)

lemma mig_bind_Inr: "mig_bind r k = Inr db' \<longleftrightarrow> (\<exists>db. r = Inr db \<and> k db = Inr db')"
  by (cases r) (auto simp: mig_bind_def)

text \<open>A statement body leaves the version table alone.\<close>

definition keeps_versions :: "(mig_db \<Rightarrow> mig_error + mig_db) \<Rightarrow> bool" where
  "keeps_versions body \<longleftrightarrow> (\<forall>db db'. body db = Inr db' \<longrightarrow> schema_version db' = schema_version db)"

lemma keeps_create_table [simp]: "schema_version (create_table tbl cols db) = schema_version db"
  by (simp add: create_table_def)

lemma keeps_add_column: "add_column tbl col db = Inr db' \<Longrightarrow> schema_version db' = schema_version db"
  by (auto simp: add_column_def split: option.splits if_splits)

lemma keeps_create_index: "create_index ix tbl ok db = Inr db' \<Longrightarrow> schema_version db' = schema_version db"
  by (auto simp: create_index_def split: if_splits)

lemma keeps_add_if_missing: "add_column_if_missing tbl col db = Inr db' \<Longrightarrow> schema_version db' = schema_version db"
  by (auto simp: add_column_if_missing_def dest: keeps_add_column split: if_splits)

lemma keeps_rename_all: "rename_all sha olds db = Inr db' \<Longrightarrow> schema_version db' = schema_version db"
  by (induction olds arbitrary: db) (auto simp: mig_bind_Inr rename_vtoken_def split: if_splits)

lemma claimed_versions:
  "keeps_versions body \<Longrightarrow> claimed ver body db = Inr db' \<Longrightarrow> set (schema_version db') = insert ver (set (schema_version db))"
  by (cases "ver \<in> set (schema_version db)") (auto simp: claimed_skip claimed_run keeps_versions_def)

definition is_step :: "(mig_db \<Rightarrow> mig_error + mig_db) \<Rightarrow> nat \<Rightarrow> bool" where
  "is_step step ver \<longleftrightarrow> (\<exists>body. step = claimed ver body \<and> keeps_versions body)"

lemma is_stepI: "(\<And>db db'. body db = Inr db' \<Longrightarrow> schema_version db' = schema_version db) \<Longrightarrow> is_step (claimed ver body) ver"
  by (auto simp: is_step_def keeps_versions_def)

lemma is_steps:
  "is_step migrate_to_v1_tx 1" "is_step migrate_to_v2_tx 2" "is_step migrate_to_v3_tx 3" "is_step migrate_to_v4_tx 4"
  "is_step migrate_to_v5_tx 5" "is_step (migrate_to_v6_tx ci) 6" "is_step (migrate_to_v7_tx kind) 7"
  "is_step (migrate_to_v8_tx sha key dec enc) 8" "is_step migrate_to_v9_tx 9" "is_step migrate_to_v10_tx 10"
  "is_step migrate_to_v11_tx 11" "is_step migrate_to_v12_tx 12" "is_step migrate_to_v13_tx 13"
  "is_step migrate_to_v14_tx 14" "is_step migrate_to_v15_tx 15"
  unfolding mig_steps
  by (rule is_stepI; auto simp: mig_bind_Inr Let_def dest!: keeps_add_column keeps_create_index keeps_add_if_missing keeps_rename_all
      split: if_splits list.splits option.splits)+

lemma migration_steps_claim:
  "list_all2 is_step (migration_steps kind ci sha key dec enc) [1, 2, 3, 4, 5, 6, 7, 8, 9, 10, 11, 12, 13, 14, 15]"
  by (simp add: migration_steps_def is_steps is_steps(1) [unfolded One_nat_def])

abbreviation run_steps :: "(mig_db \<Rightarrow> mig_error + mig_db) list \<Rightarrow> mig_error + mig_db \<Rightarrow> mig_error + mig_db" where
  "run_steps steps r \<equiv> fold (\<lambda>step r. mig_bind r step) steps r"

lemma run_steps_Inl [simp]: "run_steps steps (Inl e) = Inl e"
  by (induction steps) auto

lemma run_steps_versions:
  "list_all2 is_step steps vers \<Longrightarrow> run_steps steps (Inr db) = Inr db' \<Longrightarrow>
   set (schema_version db') = set vers \<union> set (schema_version db)"
proof (induction steps vers arbitrary: db rule: list_all2_induct)
  case (Cons step steps ver vers)
  then obtain body where b: "step = claimed ver body" "keeps_versions body" by (auto simp: is_step_def)
  show ?case
  proof (cases "step db")
    case (Inl e)
    with Cons.prems show ?thesis by simp
  next
    case (Inr db1)
    with Cons.prems have "run_steps steps (Inr db1) = Inr db'" by simp
    with Cons.IH claimed_versions [OF b(2), of ver db db1] Inr b(1) show ?thesis by auto
  qed
qed simp

lemma run_steps_skip:
  "list_all2 is_step steps vers \<Longrightarrow> set vers \<subseteq> set (schema_version db) \<Longrightarrow> run_steps steps (Inr db) = Inr db"
proof (induction steps vers arbitrary: db rule: list_all2_induct)
  case (Cons step steps ver vers)
  then have "step db = Inr db" by (auto simp: is_step_def claimed_skip)
  with Cons show ?case by simp
qed simp

section \<open>Schemas\<close>

text \<open>The columns the queries of \<open>src/store\<close> name, table by table.\<close>

definition query_columns :: "(string \<times> string list) list" where
  "query_columns =
     [(''clients'', [''vtoken'', ''name'', ''label'', ''last_seen'', ''persona_name'', ''persona_emoji'', ''description'']),
      (''routing_state'', [''from_user'', ''active_vtoken'', ''updated_at'']),
      (''context_token_map'', [''vctx'', ''real_ctx'', ''peer_user_id'', ''created_at'']),
      (''bot_credentials'', [''id'', ''token'', ''base_url'', ''updated_at'']),
      (''backend_sessions_v2'', [''vctx'', ''vtoken'', ''session_name'', ''backend_session_id'', ''last_usage_json'', ''created_at'']),
      (''active_sessions'', [''vctx'', ''vtoken'', ''session_name'', ''updated_at'', ''a2a_depth'', ''expires_at'']),
      (''messages'', [''id'', ''vctx'', ''vtoken'', ''session_name'', ''peer_user_id'', ''role'', ''content'', ''created_at'', ''ilink_msg_id''])]"

definition queries_typed :: "mig_db \<Rightarrow> bool" where
  "queries_typed db \<longleftrightarrow> list_all (\<lambda>(tbl, cols). list_all (column_exists db tbl) cols) query_columns"

text \<open>The schema of a database, without its rows.\<close>

definition schema_of :: "mig_db \<Rightarrow> mig_db" where
  "schema_of db = mig_empty\<lparr>schema_version := schema_version db, db_tables := db_tables db, db_indexes := db_indexes db\<rparr>"

lemma schema_of_simps [simp]:
  "schema_version (schema_of db) = schema_version db" "db_tables (schema_of db) = db_tables db"
  "db_indexes (schema_of db) = db_indexes db" "mg_clients (schema_of db) = []" "mg_ctx (schema_of db) = []"
  "table_exists (schema_of db) = table_exists db" "column_exists (schema_of db) = column_exists db"
  by (auto simp: schema_of_def mig_empty_def table_exists_def column_exists_def fun_eq_iff)

lemma schema_of_update [simp]:
  "schema_of (db\<lparr>mg_ctx := a\<rparr>) = schema_of db" "schema_of (db\<lparr>mg_creds := d\<rparr>) = schema_of db"
  "(schema_of db)\<lparr>mg_ctx := []\<rparr> = schema_of db"
  "schema_of (db\<lparr>schema_version := s\<rparr>) = (schema_of db)\<lparr>schema_version := s\<rparr>"
  "schema_of (db\<lparr>db_indexes := i\<rparr>) = (schema_of db)\<lparr>db_indexes := i\<rparr>"
  "schema_of (db\<lparr>db_tables := t\<rparr>) = (schema_of db)\<lparr>db_tables := t\<rparr>"
  by (auto simp: schema_of_def mig_empty_def)

lemma schema_create_table [simp]: "create_table tbl cols (schema_of db) = schema_of (create_table tbl cols db)"
  by (simp add: create_table_def)

lemma schema_add_column: "add_column tbl col db = Inr db' \<Longrightarrow> add_column tbl col (schema_of db) = Inr (schema_of db')"
  by (auto simp: add_column_def split: option.splits if_splits)

lemma schema_create_index: "create_index ix tbl ok db = Inr db' \<Longrightarrow> create_index ix tbl True (schema_of db) = Inr (schema_of db')"
  by (auto simp: create_index_def split: if_splits)

lemma schema_bindI:
  assumes "mig_bind r k = Inr db'" "\<And>d. r = Inr d \<Longrightarrow> r' = Inr (schema_of d)"
    and "\<And>d. k d = Inr db' \<Longrightarrow> k (schema_of d) = Inr (schema_of db')"
  shows "mig_bind r' k = Inr (schema_of db')"
  using assms by (cases r) auto

lemma schema_rename_all: "rename_all sha olds db = Inr db' \<Longrightarrow> schema_of db' = schema_of db"
  by (induction olds arbitrary: db) (auto simp: mig_bind_Inr rename_vtoken_def schema_of_def split: if_splits)

text \<open>A step simulates itself on the schema.\<close>

definition schema_sim :: "(mig_db \<Rightarrow> mig_error + mig_db) \<Rightarrow> bool" where
  "schema_sim step \<longleftrightarrow> (\<forall>db db'. step db = Inr db' \<longrightarrow> step (schema_of db) = Inr (schema_of db'))"

lemma schema_sim_claimed:
  assumes "\<And>db db'. body db = Inr db' \<Longrightarrow> body (schema_of db) = Inr (schema_of db')"
  shows "schema_sim (claimed ver body)"
  unfolding schema_sim_def
proof (intro allI impI)
  fix db db'
  assume a: "claimed ver body db = Inr db'"
  show "claimed ver body (schema_of db) = Inr (schema_of db')"
  proof (cases "ver \<in> set (schema_version db)")
    case True
    with a show ?thesis by (simp add: claimed_skip)
  next
    case False
    with a have "body (db\<lparr>schema_version := schema_version db @ [ver]\<rparr>) = Inr db'" by (simp add: claimed_run)
    from assms [OF this] False show ?thesis by (simp add: claimed_run)
  qed
qed

lemma schema_sim_steps:
  "schema_sim migrate_to_v1_tx" "schema_sim migrate_to_v2_tx" "schema_sim migrate_to_v3_tx" "schema_sim migrate_to_v4_tx"
  "schema_sim migrate_to_v5_tx" "schema_sim (migrate_to_v6_tx ci)" "schema_sim migrate_to_v9_tx" "schema_sim migrate_to_v10_tx"
  "schema_sim migrate_to_v11_tx" "schema_sim migrate_to_v12_tx" "schema_sim migrate_to_v13_tx"
  "schema_sim migrate_to_v14_tx" "schema_sim migrate_to_v15_tx"
  unfolding mig_steps
  by (rule schema_sim_claimed; auto simp: add_column_if_missing_def real_ctx_unique_def
          intro: schema_bindI schema_add_column schema_create_index split: if_splits)+

lemma schema_sim_v7: "schema_sim (migrate_to_v7_tx kind)"
  unfolding migrate_to_v7_tx_def
proof (rule schema_sim_claimed)
  fix db db' :: mig_db
  let ?db1 = "db\<lparr>mg_ctx := dedup_peers [] (mg_ctx db)\<rparr>"
  let ?ix = "create_index ''idx_context_token_map_peer_user_id'' ''context_token_map''"
  assume a: "(if kind = MySql then Inr db else if \<not> table_exists db ''context_token_map'' then Inl NoSuchTable
      else (let db' = ?db1 in ?ix (peers_unique db') db')) = Inr db'"
  have "?ix True (schema_of db) = Inr (schema_of db')" if "?ix (peers_unique ?db1) ?db1 = Inr db'"
    using schema_create_index [OF that] by simp
  with a show "(if kind = MySql then Inr (schema_of db)
      else if \<not> table_exists (schema_of db) ''context_token_map'' then Inl NoSuchTable
      else (let db' = (schema_of db)\<lparr>mg_ctx := dedup_peers [] (mg_ctx (schema_of db))\<rparr> in ?ix (peers_unique db') db')) = Inr (schema_of db')"
    by (auto simp: peers_unique_def Let_def split: if_splits)
qed

lemma schema_sim_v8: "schema_sim (migrate_to_v8_tx sha key dec enc)"
  unfolding migrate_to_v8_tx_def
  by (rule schema_sim_claimed) (fastforce simp: mig_bind_Inr dest: schema_rename_all split: if_splits list.splits option.splits)

lemma schema_sims: "list_all schema_sim (migration_steps kind ci sha key dec enc)"
  by (simp add: migration_steps_def schema_sim_steps schema_sim_v7 schema_sim_v8)

lemma run_steps_schema:
  "list_all schema_sim steps \<Longrightarrow> run_steps steps (Inr db) = Inr db' \<Longrightarrow> run_steps steps (Inr (schema_of db)) = Inr (schema_of db')"
proof (induction steps arbitrary: db)
  case (Cons step steps)
  show ?case
  proof (cases "step db")
    case (Inl e)
    with Cons.prems show ?thesis by simp
  next
    case (Inr db1)
    with Cons.prems have "step (schema_of db) = Inr (schema_of db1)" by (simp add: schema_sim_def)
    with Cons.IH [of db1] Cons.prems Inr show ?thesis by simp
  qed
qed simp

lemma run_steps_resume:
  assumes "list_all2 is_step steps vers" "run_steps (take k steps) (Inr db) = Inr base"
  shows "run_steps steps (Inr base) = run_steps steps (Inr db)"
proof -
  have tk: "list_all2 is_step (take k steps) (take k vers)" using assms(1) by (rule list_all2_takeI)
  have "set (take k vers) \<subseteq> set (schema_version base)" using run_steps_versions [OF tk assms(2)] by simp
  then have "run_steps (take k steps) (Inr base) = Inr base" by (rule run_steps_skip [OF tk])
  then have "run_steps (take k steps @ drop k steps) (Inr base) = run_steps (take k steps @ drop k steps) (Inr db)"
    using assms(2) unfolding fold_append comp_def by simp
  then show ?thesis by simp
qed

lemma fresh_install_typed:
  "\<exists>fresh. run_steps (migration_steps kind ci sha key dec enc) (Inr mig_empty) = Inr fresh \<and> queries_typed fresh"
proof -
  have "case run_steps (migration_steps kind ci sha key dec enc) (Inr mig_empty) of Inl e \<Rightarrow> False | Inr fresh \<Rightarrow> queries_typed fresh"
    by (cases kind) (simp_all only:, code_simp+)
  then show ?thesis by (auto split: sum.splits)
qed

section \<open>Data migrations\<close>

lemma rename_all_maps:
  assumes "list_all (\<lambda>vt. \<not> is_vtoken_hash vt) olds" "\<And>s. length (sha s) = 32" "rename_all sha olds db = Inr db'"
  shows "mg_clients db' = map (\<lambda>x. if x \<in> set olds then hash_vtoken sha x else x) (mg_clients db)
    \<and> mg_routes db' = map (\<lambda>(u, x). (u, if x \<in> set olds then hash_vtoken sha x else x)) (mg_routes db)
    \<and> mg_msg_vtokens db' = map (map_option (\<lambda>x. if x \<in> set olds then hash_vtoken sha x else x)) (mg_msg_vtokens db)
    \<and> mg_active db' = mg_active db \<and> mg_backend db' = mg_backend db \<and> mg_creds db' = mg_creds db"
  using assms(1,3)
proof (induction olds arbitrary: db)
  case Nil
  then show ?case by (auto simp: option.map_ident)
next
  case (Cons old olds)
  have hash: "is_vtoken_hash (hash_vtoken sha x)" for x by (rule hash_is_vtoken_hash [OF assms(2)])
  obtain db1 where db1: "rename_vtoken old (hash_vtoken sha old) db = Inr db1" "rename_all sha olds db1 = Inr db'"
    using Cons.prems(2) by (auto simp: mig_bind_Inr)
  have out: "hash_vtoken sha old \<notin> set olds" using Cons.prems(1) hash [of old] by (auto simp: list_all_iff)
  have eq1: "db1 = db\<lparr>mg_clients := map (\<lambda>x. if x = old then hash_vtoken sha old else x) (mg_clients db),
      mg_routes := map (\<lambda>(u, x). (u, if x = old then hash_vtoken sha old else x)) (mg_routes db),
      mg_msg_vtokens := map (\<lambda>x. if x = Some old then Some (hash_vtoken sha old) else x) (mg_msg_vtokens db)\<rparr>"
    using db1(1) by (auto simp: rename_vtoken_def split: if_splits)
  have ih: "mg_clients db' = map (\<lambda>x. if x \<in> set olds then hash_vtoken sha x else x) (mg_clients db1)
    \<and> mg_routes db' = map (\<lambda>(u, x). (u, if x \<in> set olds then hash_vtoken sha x else x)) (mg_routes db1)
    \<and> mg_msg_vtokens db' = map (map_option (\<lambda>x. if x \<in> set olds then hash_vtoken sha x else x)) (mg_msg_vtokens db1)
    \<and> mg_active db' = mg_active db1 \<and> mg_backend db' = mg_backend db1 \<and> mg_creds db' = mg_creds db1"
    using Cons.IH [OF _ db1(2)] Cons.prems(1) by simp
  have m: "map_option f (if x = Some old then Some h else x) = map_option (\<lambda>y. if y = old then f h else f y) x" for f :: "string \<Rightarrow> string" and x h
    by (cases x) auto
  show ?case using ih out unfolding eq1 by (auto simp: m intro!: option.map_cong)
qed

lemma encrypt_creds_ok:
  "encrypt_creds dec enc rows = Some rows' \<Longrightarrow> (\<And>t c. enc t = Some c \<Longrightarrow> dec c) \<Longrightarrow>
   map fst rows' = map fst rows \<and> list_all (\<lambda>(i, t). dec t) rows'"
  by (induction dec enc rows arbitrary: rows' rule: encrypt_creds.induct) (auto split: option.splits if_splits)

lemma dedup_peers_props:
  "distinct (filter (\<lambda>p. p \<noteq> []) (map (\<lambda>(_, _, p). p) (dedup_peers seen rows))) \<and>
   (\<forall>p \<in> (\<lambda>(_, _, p). p) ` set (dedup_peers seen rows). p \<noteq> [] \<longrightarrow> p \<notin> set seen) \<and>
   set (dedup_peers seen rows) \<subseteq> set rows"
  by (induction seen rows rule: dedup_peers.induct) (auto split: if_splits)

section \<open>Properties\<close>


text \<open>C36: Every query is well typed after migration.  Take a database that any number of leading steps
  produced, with whatever rows: if the walk succeeds, every column that the queries of the store name
  exists in its table, and the schema is the one a fresh installation gets.\<close>

theorem migrated_schema_typed:
  assumes "run_steps (take k (migration_steps kind ci sha key dec enc)) (Inr mig_empty) = Inr base"
    and "schema_of db = base" "run_migrations kind ci sha key dec enc db = (Inr (), db')"
  shows "queries_typed db' \<and> run_migrations kind ci sha key dec enc mig_empty = (Inr (), schema_of db')"
proof -
  let ?steps = "migration_steps kind ci sha key dec enc"
  obtain fresh where fresh: "run_steps ?steps (Inr mig_empty) = Inr fresh" "queries_typed fresh"
    using fresh_install_typed by blast
  have "run_steps ?steps (Inr db) = Inr db'"
    using assms(3) by (auto simp: run_migrations_def split: sum.splits)
  from run_steps_schema [OF schema_sims this] have "run_steps ?steps (Inr base) = Inr (schema_of db')"
    by (simp add: assms(2))
  with run_steps_resume [OF migration_steps_claim assms(1)] fresh(1) have eq: "schema_of db' = fresh" by simp
  have "queries_typed (schema_of db') = queries_typed db'" by (simp add: queries_typed_def)
  with fresh eq show ?thesis by (simp add: run_migrations_def)
qed

text \<open>A version-2 database with a plaintext token and two rows of one conversation.\<close>

definition zero_sha :: "string \<Rightarrow> 8 word list" where
  "zero_sha s = replicate 32 0"

definition v2_db :: mig_db where
  "v2_db = (case run_steps [migrate_to_v1_tx, migrate_to_v2_tx] (Inr mig_empty) of
     Inr db \<Rightarrow> db\<lparr>mg_clients := [''vhub_a''], mg_routes := [(''ann'', ''vhub_a'')], mg_active := [(''v1'', ''vhub_a'')],
       mg_ctx := [(''v1'', ''c1'', ''ann''), (''v2'', ''c2'', ''ann'')], mg_creds := [(1, ''tok'')]\<rparr>
   | Inl _ \<Rightarrow> mig_empty)"

theorem migrated_schema_typed_witness:
  "queries_typed (snd (run_migrations Sqlite True zero_sha True (\<lambda>t. t = ''sealed'') (\<lambda>t. Some ''sealed'') v2_db))"
proof -
  let ?steps = "migration_steps Sqlite True zero_sha True (\<lambda>t. t = ''sealed'') (\<lambda>t. Some ''sealed'')"
  let ?run = "run_migrations Sqlite True zero_sha True (\<lambda>t. t = ''sealed'') (\<lambda>t. Some ''sealed'')"
  have 1: "run_steps (take 2 ?steps) (Inr mig_empty) = Inr (schema_of v2_db)" by code_simp
  have "fst (?run v2_db) = Inr ()" by code_simp
  then have 3: "?run v2_db = (Inr (), snd (?run v2_db))" by (metis prod.collapse)
  from migrated_schema_typed [OF 1 refl 3] show ?thesis by (rule conjunct1)
qed

text \<open>What hashing the stored tokens covers.  When step 8 runs on a database whose first client still
  has a plaintext token and succeeds, every token of the clients, routes and message history is a hash
  and every bot credential decrypts; the session tables are not touched, so plaintext tokens there stay;
  and when the database has no client at all, the step changes nothing but its version mark, so a
  plaintext bot credential stays in the clear.\<close>

theorem hashing_step_coverage:
  assumes "\<And>s. length (sha s) = 32" "\<And>t c. enc t = Some c \<Longrightarrow> dec c"
    and "8 \<notin> set (schema_version db)" "migrate_to_v8_tx sha True dec enc db = Inr db'"
  shows "(mg_clients db \<noteq> [] \<and> \<not> is_vtoken_hash (hd (mg_clients db)) \<longrightarrow>
      list_all is_vtoken_hash (mg_clients db') \<and> list_all (\<lambda>(u, vt). is_vtoken_hash vt) (mg_routes db') \<and>
      list_all (\<lambda>x. x = None \<or> is_vtoken_hash (the x)) (mg_msg_vtokens db') \<and> list_all (\<lambda>(i, t). dec t) (mg_creds db')) \<and>
    mg_active db' = mg_active db \<and> mg_backend db' = mg_backend db \<and>
    (mg_clients db = [] \<longrightarrow> db' = db\<lparr>schema_version := schema_version db @ [8]\<rparr>)"
proof -
  let ?db = "db\<lparr>schema_version := schema_version db @ [8]\<rparr>"
  have hash: "is_vtoken_hash (hash_vtoken sha x)" for x by (rule hash_is_vtoken_hash [OF assms(1)])
  show ?thesis
  proof (cases "mg_clients db \<noteq> [] \<and> \<not> is_vtoken_hash (hd (mg_clients db))")
    case False
    then have "db' = ?db"
      using assms(3,4) by (auto simp: migrate_to_v8_tx_def claimed_run split: list.splits if_splits)
    with False show ?thesis by auto
  next
    case True
    let ?olds = "vtokens_to_hash ?db"
    from True assms(3,4) obtain db1 rows where
      db1: "rename_all sha ?olds ?db = Inr db1" and rows: "encrypt_creds dec enc (mg_creds db1) = Some rows" "db' = db1\<lparr>mg_creds := rows\<rparr>"
      by (auto simp: migrate_to_v8_tx_def claimed_run mig_bind_Inr split: list.splits if_splits option.splits)
    have plain: "list_all (\<lambda>vt. \<not> is_vtoken_hash vt) ?olds"
      by (auto simp: vtokens_to_hash_def plain_only_def list_all_iff)
    have cov: "x \<in> set ?olds" if "\<not> is_vtoken_hash x"
        "x \<in> set (mg_clients db) \<union> snd ` set (mg_routes db) \<union> {y. Some y \<in> set (mg_msg_vtokens db)}" for x
      using that by (force simp: vtokens_to_hash_def plain_only_def List.map_filter_def)
    note r = rename_all_maps [OF plain assms(1) db1]
    have "list_all is_vtoken_hash (mg_clients db')" using r rows(2) hash cov by (auto simp: list_all_iff)
    moreover have "list_all (\<lambda>(u, vt). is_vtoken_hash vt) (mg_routes db')"
      using r rows(2) hash cov by (force simp: list_all_iff)
    moreover have "list_all (\<lambda>x. x = None \<or> is_vtoken_hash (the x)) (mg_msg_vtokens db')"
    proof -
      let ?F = "\<lambda>x. if x \<in> set ?olds then hash_vtoken sha x else x"
      have "map_option ?F y = None \<or> is_vtoken_hash (the (map_option ?F y))" if "y \<in> set (mg_msg_vtokens db)" for y
        using hash cov [of "the y"] that by (cases y) auto
      then have "list_all (\<lambda>y. map_option ?F y = None \<or> is_vtoken_hash (the (map_option ?F y))) (mg_msg_vtokens db)"
        by (simp add: list_all_iff)
      moreover have "mg_msg_vtokens db' = map (map_option ?F) (mg_msg_vtokens db)" using r rows(2) by simp
      ultimately show ?thesis by (simp only: list.pred_map comp_def)
    qed
    moreover have "list_all (\<lambda>(i, t). dec t) (mg_creds db')"
      using encrypt_creds_ok [OF rows(1) assms(2)] rows(2) by simp
    ultimately show ?thesis using True r rows(2) by simp
  qed
qed

theorem hashing_step_coverage_witness:
  "\<exists>db'. migrate_to_v8_tx zero_sha True (\<lambda>t. t = ''sealed'') (\<lambda>t. Some ''sealed'') v2_db = Inr db' \<and>
     list_all is_vtoken_hash (mg_clients db') \<and> mg_active db' = [(''v1'', ''vhub_a'')] \<and> \<not> is_vtoken_hash ''vhub_a''"
proof -
  let ?m = "migrate_to_v8_tx zero_sha True (\<lambda>t. t = ''sealed'') (\<lambda>t. Some ''sealed'') v2_db"
  have 1: "length (zero_sha s) = 32" for s by (simp add: zero_sha_def)
  have 2: "Some ''sealed'' = Some c \<Longrightarrow> c = ''sealed''" for c by simp
  have 3: "8 \<notin> set (schema_version v2_db)" by code_simp
  have "case ?m of Inr db' \<Rightarrow> True | Inl _ \<Rightarrow> False" by code_simp
  then obtain db' where 4: "?m = Inr db'" by (auto split: sum.splits)
  have 5: "mg_clients v2_db \<noteq> [] \<and> \<not> is_vtoken_hash (hd (mg_clients v2_db))" "mg_active v2_db = [(''v1'', ''vhub_a'')]"
    "\<not> is_vtoken_hash ''vhub_a''" by code_simp+
  from hashing_step_coverage [OF 1 2 3 4] 4 5 show ?thesis by auto
qed

end
