(* ===== verification/Hub_Crypto.thy ===== *)
theory Hub_Crypto
  imports Hub_Store Hub_Auth
begin

text \<open>
  Encryption of the bot token at rest (\<open>src/runtime/crypto.rs\<close>) and the credential row
  (\<open>src/store/credentials.rs\<close>).  The AEAD cipher (\<open>seal\<close>, \<open>open\<close>) and the base64 codec are arguments; the
  layout \<open>nonce || ciphertext || tag\<close>, the length and UTF-8 checks and the key formats are modelled.  A
  Rust panic is the result \<open>Panic\<close>.
\<close>

section \<open>Keys\<close>

datatype 'a checked = Ok 'a | Err | Panic

text \<open>\<open>trim_matches(c)\<close>.\<close>

definition trim_matches :: "char \<Rightarrow> string \<Rightarrow> string" where
  "trim_matches c s = rev (dropWhile (\<lambda>x. x = c) (rev (dropWhile (\<lambda>x. x = c) s)))"

definition hex_val :: "char \<Rightarrow> nat option" where
  "hex_val c = (let n = of_char c :: nat in
     if 48 \<le> n \<and> n \<le> 57 then Some (n - 48)
     else if 97 \<le> n \<and> n \<le> 102 then Some (n - 87)
     else if 65 \<le> n \<and> n \<le> 70 then Some (n - 55) else None)"

text \<open>\<open>u8::from_str_radix(s, 16)\<close> of a two-byte string: a leading plus sign is accepted.\<close>

definition hex_byte :: "char \<Rightarrow> char \<Rightarrow> 8 word option" where
  "hex_byte a b = (case hex_val b of
     None \<Rightarrow> None
   | Some lo \<Rightarrow> if a = CHR ''+'' then Some (of_nat lo)
                else (case hex_val a of None \<Rightarrow> None | Some hi \<Rightarrow> Some (of_nat (16 * hi + lo))))"

text \<open>Slicing a string at a byte that continues a UTF-8 character panics: both ends of a two-byte slice
  must be character boundaries.\<close>

fun decode_hex_bytes :: "string \<Rightarrow> 8 word list checked" where
  "decode_hex_bytes [] = Ok []"
| "decode_hex_bytes [a] = Err"
| "decode_hex_bytes (a # b # s) =
     (if is_cont a \<or> (case s of [] \<Rightarrow> False | c # _ \<Rightarrow> is_cont c) then Panic
      else (case hex_byte a b of
         None \<Rightarrow> Err
       | Some x \<Rightarrow> (case decode_hex_bytes s of Ok xs \<Rightarrow> Ok (x # xs) | Err \<Rightarrow> Err | Panic \<Rightarrow> Panic)))"

definition decode_hex :: "string \<Rightarrow> 8 word list checked" where
  "decode_hex s = (if odd (length s) then Err else decode_hex_bytes s)"

definition decode_key :: "(string \<Rightarrow> 8 word list option) \<Rightarrow> string \<Rightarrow> 8 word list checked" where
  "decode_key b64_decode raw =
     (let s = trim_matches CHR 0x27 (trim_matches CHR 0x22 (trim raw))
      in case b64_decode s of
           Some bytes \<Rightarrow> if length bytes = 32 then Ok bytes
                          else (case decode_hex s of Ok h \<Rightarrow> if length h = 32 then Ok h else Err | Err \<Rightarrow> Err | Panic \<Rightarrow> Panic)
         | None \<Rightarrow> (case decode_hex s of Ok h \<Rightarrow> if length h = 32 then Ok h else Err | Err \<Rightarrow> Err | Panic \<Rightarrow> Panic))"

definition load_or_derive_master_key :: "(string \<Rightarrow> 8 word list option) \<Rightarrow> string option \<Rightarrow> 8 word list checked" where
  "load_or_derive_master_key b64_decode env = (case env of None \<Rightarrow> Err | Some s \<Rightarrow> decode_key b64_decode s)"

section \<open>Tokens\<close>

text \<open>Well-formed UTF-8.\<close>

definition cont_in :: "nat \<Rightarrow> nat \<Rightarrow> char \<Rightarrow> bool" where
  "cont_in lo hi c \<longleftrightarrow> lo \<le> (of_char c :: nat) \<and> (of_char c :: nat) \<le> hi"

fun utf8_valid :: "string \<Rightarrow> bool" where
  "utf8_valid [] = True"
| "utf8_valid (a # s) =
     (let n = of_char a :: nat in
      if n < 128 then utf8_valid s
      else if 194 \<le> n \<and> n \<le> 223 then (case s of b # s' \<Rightarrow> cont_in 128 191 b \<and> utf8_valid s' | _ \<Rightarrow> False)
      else if 224 \<le> n \<and> n \<le> 239 then (case s of b # c # s' \<Rightarrow>
          cont_in (if n = 224 then 160 else 128) (if n = 237 then 159 else 191) b \<and> cont_in 128 191 c \<and> utf8_valid s' | _ \<Rightarrow> False)
      else if 240 \<le> n \<and> n \<le> 244 then (case s of b # c # d # s' \<Rightarrow>
          cont_in (if n = 240 then 144 else 128) (if n = 244 then 143 else 191) b \<and> cont_in 128 191 c \<and> cont_in 128 191 d \<and> utf8_valid s' | _ \<Rightarrow> False)
      else False)"

definition bytes_of :: "string \<Rightarrow> 8 word list" where
  "bytes_of s = map (\<lambda>c. word_of_nat (of_char c)) s"

definition chars_of :: "8 word list \<Rightarrow> string" where
  "chars_of bs = map (\<lambda>b. char_of (unat b)) bs"

definition encrypt_token ::
  "(8 word list \<Rightarrow> 8 word list \<Rightarrow> 8 word list) \<Rightarrow> (8 word list \<Rightarrow> string) \<Rightarrow> 8 word list \<Rightarrow> string \<Rightarrow> string" where
  "encrypt_token seal b64_encode nonce plain = b64_encode (nonce @ seal nonce (bytes_of plain))"

definition decrypt_token ::
  "(8 word list \<Rightarrow> 8 word list \<Rightarrow> 8 word list option) \<Rightarrow> (string \<Rightarrow> 8 word list option) \<Rightarrow> string \<Rightarrow> string option" where
  "decrypt_token open_aead b64_decode blob =
     (case b64_decode (trim blob) of
        None \<Rightarrow> None
      | Some bytes \<Rightarrow>
          if length bytes < 12 + 16 then None
          else (case open_aead (take 12 bytes) (drop 12 bytes) of
             None \<Rightarrow> None
           | Some p \<Rightarrow> if utf8_valid (chars_of p) then Some (chars_of p) else None))"

section \<open>The credential row\<close>

text \<open>The table has at most the row with id 1: \<open>(token, base_url)\<close>.\<close>

type_synonym cred_row = "(string \<times> string) option"

definition save_credentials :: "(string \<Rightarrow> string) option \<Rightarrow> string \<Rightarrow> string \<Rightarrow> cred_row \<Rightarrow> (DbError + unit) \<times> cred_row" where
  "save_credentials enc token_plain base_url row = (case enc of
     None \<Rightarrow> (Inl MasterKeyMissing, row)
   | Some e \<Rightarrow> (Inr (), Some (e token_plain, base_url)))"

definition load_credentials :: "(string \<Rightarrow> string option) option \<Rightarrow> cred_row \<Rightarrow> DbError + (string \<times> string) option" where
  "load_credentials dec row = (case row of
     None \<Rightarrow> Inr None
   | Some (blob, base_url) \<Rightarrow> (case dec of
       None \<Rightarrow> Inl MasterKeyMissing
     | Some d \<Rightarrow> (case d blob of None \<Rightarrow> Inl DecryptFailed | Some t \<Rightarrow> Inr (Some (t, base_url)))))"

section \<open>Lemmas\<close>

lemma chars_of_bytes_of [simp]: "chars_of (bytes_of s) = s"
proof -
  have "char_of (unat (word_of_nat (of_char c) :: 8 word)) = c" for c :: char
  proof -
    have "(of_char c :: nat) < 2 ^ 8" using nat_of_char_less_256 [of c] by simp
    then have "take_bit 8 (of_char c :: nat) = of_char c" by (simp only: take_bit_nat_eq_self_iff)
    then show ?thesis by (simp add: unsigned_of_nat)
  qed
  then show ?thesis by (simp add: chars_of_def bytes_of_def comp_def)
qed

lemma HEX_digit:
  assumes "n < 16"
  shows "hex_val (HEX ! n) = Some n" "HEX ! n \<noteq> CHR ''+''" "\<not> is_cont (HEX ! n)"
proof -
  have "list_all (\<lambda>n. hex_val (HEX ! n) = Some n \<and> HEX ! n \<noteq> CHR ''+'' \<and> \<not> is_cont (HEX ! n)) [0..<16]" by code_simp
  then show "hex_val (HEX ! n) = Some n" "HEX ! n \<noteq> CHR ''+''" "\<not> is_cont (HEX ! n)"
    using assms by (auto simp: list_all_iff)
qed

lemma nibbles_sum: "word_of_nat (16 * unat (drop_bit 4 b) + unat (and b 0x0f)) = (b :: 8 word)"
proof -
  have "and b 0x0f = take_bit 4 b" by (simp add: take_bit_eq_mask mask_eq_exp_minus_1)
  then have "16 * unat (drop_bit 4 b) + unat (and b 0x0f) = unat b"
    by (simp add: drop_bit_eq_div unat_div take_bit_eq_mod unat_mod)
  then show ?thesis by simp
qed

lemma decode_hex_lower: "decode_hex_bytes (hex_lower bs) = Ok bs"
proof (induction bs)
  case Nil
  then show ?case by (simp add: hex_lower_def)
next
  case (Cons b bs)
  let ?hi = "HEX ! unat (drop_bit 4 b)" and ?lo = "HEX ! unat (and b 0x0f)"
  have "hex_byte ?hi ?lo = Some b"
    using nibble_bounds [of b] HEX_digit nibbles_sum [of b] by (simp add: hex_byte_def)
  moreover have "\<not> is_cont ?hi" using nibble_bounds [of b] HEX_digit(3) by simp
  moreover have "case hex_lower bs of [] \<Rightarrow> True | c # _ \<Rightarrow> \<not> is_cont c"
    by (cases bs) (simp_all add: hex_lower_def HEX_digit(3) nibble_bounds)
  moreover have "hex_lower (b # bs) = ?hi # ?lo # hex_lower bs" by (simp add: hex_lower_def)
  ultimately show ?case using Cons.IH by (auto split: list.splits)
qed

lemma hex_char_graphic: "hex_char c \<Longrightarrow> graphic c \<and> c \<noteq> CHR 0x22 \<and> c \<noteq> CHR 0x27"
  by (auto simp: hex_char_def is_ascii_hexdigit_def graphic_def Let_def)

lemma trim_all_graphic: "list_all graphic s \<Longrightarrow> trim s = s"
  by (rule trim_graphic) (cases s; auto simp: list_all_iff)

lemma hex_lower_graphic: "list_all graphic (hex_lower k)"
  using hex_lower_hex [of k] by (auto simp: list_all_iff dest: hex_char_graphic)

lemma trim_matches_id: "q \<notin> set s \<Longrightarrow> trim_matches q s = s"
proof -
  assume q: "q \<notin> set s"
  have "dropWhile (\<lambda>x. x = q) xs = xs" if "set xs \<subseteq> set s" for xs
    using that q by (cases xs) auto
  then show ?thesis by (simp add: trim_matches_def)
qed

lemma hex_lower_unquoted: "CHR 0x22 \<notin> set (hex_lower k)" "CHR 0x27 \<notin> set (hex_lower k)"
  using hex_lower_hex [of k] by (auto simp: list_all_iff dest: hex_char_graphic)

lemma decode_hex_bytes_length: "decode_hex_bytes s = Ok bs \<Longrightarrow> length s = 2 * length bs"
  by (induction s arbitrary: bs rule: decode_hex_bytes.induct) (auto split: if_splits option.splits checked.splits)

text \<open>A key of even byte length with a two-byte character across a pair boundary panics: here the letter
  \<open>a\<close>, an e-acute and the letter \<open>b\<close>; and a plus sign passes for a high digit.\<close>

lemma decode_key_panics:
  "decode_key (\<lambda>_. None) [CHR ''a'', CHR 0xc3, CHR 0xa9, CHR ''b''] = Panic"
  "decode_hex ''+f'' = Ok [0x0f]"
proof -
  have t: "trim [CHR ''a'', CHR 0xc3, CHR 0xa9, CHR ''b''] = [CHR ''a'', CHR 0xc3, CHR 0xa9, CHR ''b'']"
    by (rule trim_graphic) (simp add: graphic_def)
  then show "decode_key (\<lambda>_. None) [CHR ''a'', CHR 0xc3, CHR 0xa9, CHR ''b''] = Panic"
    by (simp add: decode_key_def trim_matches_id decode_hex_def is_cont_def)
  show "decode_hex ''+f'' = Ok [0x0f]"
    by (simp add: decode_hex_def is_cont_def hex_byte_def hex_val_def)
qed

section \<open>Properties\<close>

text \<open>C34: Credentials survive storage.  For a cipher whose \<open>open\<close> undoes \<open>seal\<close> and whose output is 16
  bytes longer than its input, and a printable codec that decodes what it encodes, saving any token and
  loading it with the same key returns the token and its URL.  Without a key saving fails and changes
  nothing, and loading a stored row fails.  A 32-byte key printed in lower-case hex is read back, since a
  base64 text of 64 characters does not hold 32 bytes.\<close>

theorem credentials_round_trip:
  assumes opens: "\<And>n p. open_aead n (seal n p) = Some p" and tag: "\<And>n p. length (seal n p) = length p + 16"
    and b64: "\<And>bs. b64_decode (b64_encode bs) = Some bs" "\<And>bs. list_all graphic (b64_encode bs)"
    and b64_len: "\<And>s bs. length s = 64 \<Longrightarrow> b64_decode s = Some bs \<Longrightarrow> length bs \<noteq> 32"
    and nonce: "length nonce = 12" and tok: "utf8_valid tok" and k: "length k = 32"
  shows "(\<exists>row'. save_credentials (Some (encrypt_token seal b64_encode nonce)) tok url row = (Inr (), row')
        \<and> load_credentials (Some (decrypt_token open_aead b64_decode)) row' = Inr (Some (tok, url))
        \<and> load_credentials None row' = Inl MasterKeyMissing)
    \<and> save_credentials None tok url row = (Inl MasterKeyMissing, row)
    \<and> load_or_derive_master_key b64_decode (Some (hex_lower k)) = Ok k"
proof (intro conjI)
  have "decrypt_token open_aead b64_decode (encrypt_token seal b64_encode nonce tok) = Some tok"
    using opens tag b64 nonce tok by (simp add: decrypt_token_def encrypt_token_def trim_all_graphic)
  then show "\<exists>row'. save_credentials (Some (encrypt_token seal b64_encode nonce)) tok url row = (Inr (), row')
        \<and> load_credentials (Some (decrypt_token open_aead b64_decode)) row' = Inr (Some (tok, url))
        \<and> load_credentials None row' = Inl MasterKeyMissing"
    by (simp add: load_credentials_def save_credentials_def)
  have "decode_hex (hex_lower k) = Ok k" by (simp add: decode_hex_def decode_hex_lower)
  with k b64_len [of "hex_lower k"] show "load_or_derive_master_key b64_decode (Some (hex_lower k)) = Ok k"
    by (auto simp: load_or_derive_master_key_def decode_key_def Let_def trim_all_graphic hex_lower_graphic
        trim_matches_id hex_lower_unquoted split: option.split)
qed (simp add: save_credentials_def)

text \<open>A codec with the laws: hex digits after a marker.\<close>

definition tagged_decode :: "string \<Rightarrow> 8 word list option" where
  "tagged_decode s = (case s of c # r \<Rightarrow> (case decode_hex r of Ok b \<Rightarrow> Some b | _ \<Rightarrow> None) | [] \<Rightarrow> None)"

lemma tagged_decode_laws:
  "tagged_decode (CHR ''x'' # hex_lower bs) = Some bs"
  "length s = 64 \<Longrightarrow> tagged_decode s = Some bs \<Longrightarrow> length bs \<noteq> 32"
  by (auto simp: tagged_decode_def decode_hex_def decode_hex_lower split: list.splits checked.splits if_splits
      dest!: decode_hex_bytes_length)

theorem credentials_round_trip_witness:
  "(\<exists>row'. save_credentials (Some (encrypt_token (\<lambda>n p. p @ replicate 16 0) (\<lambda>b. CHR ''x'' # hex_lower b) (replicate 12 7)))
        ''tok'' ''https://u'' None = (Inr (), row')
      \<and> load_credentials (Some (decrypt_token (\<lambda>n c. Some (take (length c - 16) c)) tagged_decode)) row' = Inr (Some (''tok'', ''https://u''))
      \<and> load_credentials None row' = Inl MasterKeyMissing)
    \<and> save_credentials None ''tok'' ''https://u'' None = (Inl MasterKeyMissing, None)
    \<and> load_or_derive_master_key tagged_decode (Some (hex_lower (replicate 32 0xa5))) = Ok (replicate 32 0xa5)"
  by (rule credentials_round_trip) (simp_all add: tagged_decode_laws hex_lower_graphic graphic_def)

end
