(* ===== verification/Hub_State.thy ===== *)
theory Hub_State
  imports Message_Store Message_Queue Agent_Acl Client_Registry Hub_Router Pairing Hub_Auth
begin

text \<open>
  The state one hub process owns (\<open>hub/state.rs\<close>): registry, pairing sessions, queue, last-seen clock,
  router, store and message history, the agent-call waiters (\<open>mcp/waiter.rs\<close>), the stream tickets
  (\<open>server/sse_ticket.rs\<close>) and the health check (\<open>hub/health.rs\<close>).  \<open>hs_sent\<close> records the messages handed to
  the upstream, in order.
\<close>

section \<open>Agent-call waiters\<close>

text \<open>
  \<open>aw_pending\<close> holds the call ids whose sender is in the map, \<open>aw_receivers\<close> those whose receiver is
  alive, \<open>aw_replies\<close> the values sent and not yet received.
\<close>

record A2aWaiter =
  aw_pending :: "string list"
  aw_receivers :: "string list"
  aw_replies :: "(string, string) hmap"

definition A2aWaiter_new :: A2aWaiter where
  "A2aWaiter_new = \<lparr>aw_pending = [], aw_receivers = [], aw_replies = []\<rparr>"

definition waiter_register :: "string \<Rightarrow> A2aWaiter \<Rightarrow> A2aWaiter" where
  "waiter_register cid w = w\<lparr>aw_pending := List.insert cid (aw_pending w), aw_receivers := List.insert cid (aw_receivers w)\<rparr>"

definition waiter_resolve :: "string \<Rightarrow> string \<Rightarrow> A2aWaiter \<Rightarrow> bool \<times> A2aWaiter" where
  "waiter_resolve cid reply w =
     (if cid \<in> set (aw_pending w)
      then (let w1 = w\<lparr>aw_pending := removeAll cid (aw_pending w)\<rparr>
            in if cid \<in> set (aw_receivers w) then (True, w1\<lparr>aw_replies := hm_insert cid reply (aw_replies w1)\<rparr>) else (False, w1))
      else (False, w))"

definition waiter_cancel :: "string \<Rightarrow> A2aWaiter \<Rightarrow> A2aWaiter" where
  "waiter_cancel cid w = w\<lparr>aw_pending := removeAll cid (aw_pending w)\<rparr>"

text \<open>The receiver side: what \<open>timeout(..., reply_rx)\<close> yields, after which the receiver is gone.\<close>

datatype rx_outcome = RxReply string | RxDisconnected | RxTimeout

definition waiter_await :: "bool \<Rightarrow> string \<Rightarrow> A2aWaiter \<Rightarrow> rx_outcome option \<times> A2aWaiter" where
  "waiter_await elapsed_timeout cid w =
     (let gone = w\<lparr>aw_receivers := removeAll cid (aw_receivers w), aw_replies := hm_remove cid (aw_replies w)\<rparr>
      in case map_of (aw_replies w) cid of
           Some r \<Rightarrow> (Some (RxReply r), gone)
         | None \<Rightarrow> if cid \<notin> set (aw_pending w) then (Some RxDisconnected, gone)
                   else if elapsed_timeout then (Some RxTimeout, gone) else (None, w))"

datatype waiter_op = WRegister string | WResolve string string | WCancel string

fun waiter_exec :: "A2aWaiter \<Rightarrow> waiter_op \<Rightarrow> A2aWaiter" where
  "waiter_exec w (WRegister cid) = waiter_register cid w"
| "waiter_exec w (WResolve cid r) = snd (waiter_resolve cid r w)"
| "waiter_exec w (WCancel cid) = waiter_cancel cid w"

definition waiter_run :: "A2aWaiter \<Rightarrow> waiter_op list \<Rightarrow> A2aWaiter" where
  "waiter_run w ops = foldl waiter_exec w ops"

section \<open>Stream tickets\<close>

definition TICKET_TTL :: nat where
  "TICKET_TTL = secs 30"

type_synonym SseTicketStore = "(string, instant) hmap"

definition ticket_issue :: "instant \<Rightarrow> string \<Rightarrow> SseTicketStore \<Rightarrow> SseTicketStore" where
  "ticket_issue now t m = hm_insert t (now + TICKET_TTL) (hm_retain (\<lambda>_ exp. exp > now) m)"

definition ticket_consume :: "instant \<Rightarrow> string \<Rightarrow> SseTicketStore \<Rightarrow> bool \<times> SseTicketStore" where
  "ticket_consume now t m =
     (if t = [] then (False, m)
      else (case map_of m t of Some exp \<Rightarrow> (exp > now, hm_remove t m) | None \<Rightarrow> (False, m)))"

datatype ticket_op = TIssue string | TConsume string

fun ticket_exec :: "SseTicketStore \<Rightarrow> instant \<times> ticket_op \<Rightarrow> bool \<times> SseTicketStore" where
  "ticket_exec m (now, TIssue t) = (False, ticket_issue now t m)"
| "ticket_exec m (now, TConsume t) = ticket_consume now t m"

text \<open>The calls that were answered \<open>true\<close>, in order.\<close>

fun ticket_log :: "SseTicketStore \<Rightarrow> (instant \<times> ticket_op) list \<Rightarrow> (instant \<times> string) list" where
  "ticket_log m [] = []"
| "ticket_log m (x # xs) = (case ticket_exec m x of (ok, m') \<Rightarrow>
     (case x of (now, TConsume t) \<Rightarrow> if ok then (now, t) # ticket_log m' xs else ticket_log m' xs
      | _ \<Rightarrow> ticket_log m' xs))"

section \<open>The hub\<close>

text \<open>The counters of \<open>Metrics\<close> (\<open>hub/state.rs\<close>) the dispatcher and the bot API update; \<open>fetch_add\<close> wraps.\<close>

record HubMetrics =
  mt_user_messages :: u64
  mt_dispatched :: u64
  mt_dropped :: u64
  mt_rejected :: "(vtoken, u64) hmap"
  mt_persist_dropped :: u64
  mt_quote_miss :: u64
  mt_send_total :: u64
  mt_send_errors :: u64

definition HubMetrics_new :: HubMetrics where
  "HubMetrics_new = \<lparr>mt_user_messages = 0, mt_dispatched = 0, mt_dropped = 0, mt_rejected = [],
     mt_persist_dropped = 0, mt_quote_miss = 0, mt_send_total = 0, mt_send_errors = 0\<rparr>"

record HubState =
  hs_registry :: ClientRegistry
  hs_pairing :: PairingRegistry
  hs_queue :: InMemoryQueue
  hs_last_seen :: "(vtoken, nat) hmap"
  hs_router :: Router
  hs_store :: Store
  hs_messages :: MessageTable
  hs_waiter :: A2aWaiter
  hs_tickets :: SseTicketStore
  hs_relay_secret :: string
  hs_admin :: AdminConfig
  hs_acl :: AgentAcl
  hs_sent :: "WeixinMessage list"
  hs_metrics :: HubMetrics

definition HubState_new :: "Store \<Rightarrow> MessageTable \<Rightarrow> nat \<Rightarrow> string \<Rightarrow> AdminConfig \<Rightarrow> AgentAcl \<Rightarrow> HubState" where
  "HubState_new st ms limit secret adm acl = \<lparr>hs_registry = registry_new, hs_pairing = PairingRegistry_new,
     hs_queue = with_limit limit, hs_last_seen = [], hs_router = Router_new None, hs_store = st, hs_messages = ms,
     hs_waiter = A2aWaiter_new, hs_tickets = [], hs_relay_secret = secret, hs_admin = adm, hs_acl = acl, hs_sent = [], hs_metrics = HubMetrics_new\<rparr>"

section \<open>Health check\<close>

definition OFFLINE_THRESHOLD_SECS :: nat where
  "OFFLINE_THRESHOLD_SECS = 90"

definition stale_vtokens :: "nat \<Rightarrow> HubState \<Rightarrow> vtoken list" where
  "stale_vtokens now_secs h = map fst (filter (\<lambda>(_, t). t < now_secs - OFFLINE_THRESHOLD_SECS) (hs_last_seen h))"

definition health_check :: "nat \<Rightarrow> HubState \<Rightarrow> HubState" where
  "health_check now_secs h = h\<lparr>hs_registry := fold mark_offline (stale_vtokens now_secs h) (hs_registry h)\<rparr>"

section \<open>Lemmas\<close>

text \<open>The reply a call receives: the first one that names it, unless the call was cancelled before.\<close>

fun first_reply :: "string \<Rightarrow> waiter_op list \<Rightarrow> string option" where
  "first_reply cid [] = None"
| "first_reply cid (WRegister c # ops) = first_reply cid ops"
| "first_reply cid (WResolve c r # ops) = (if c = cid then Some r else first_reply cid ops)"
| "first_reply cid (WCancel c # ops) = (if c = cid then None else first_reply cid ops)"

lemma waiter_exec_other:
  assumes "\<And>r. x \<noteq> WResolve cid r" "x \<noteq> WCancel cid" "x \<noteq> WRegister cid"
  shows "map_of (aw_replies (waiter_exec w x)) cid = map_of (aw_replies w) cid"
    and "cid \<in> set (aw_pending (waiter_exec w x)) \<longleftrightarrow> cid \<in> set (aw_pending w)"
    and "cid \<in> set (aw_receivers (waiter_exec w x)) \<longleftrightarrow> cid \<in> set (aw_receivers w)"
  using assms by (cases x; auto simp: waiter_register_def waiter_resolve_def waiter_cancel_def Let_def)+

lemma waiter_run_settled:
  "cid \<notin> set (aw_pending w) \<Longrightarrow> WRegister cid \<notin> set ops \<Longrightarrow>
   map_of (aw_replies (waiter_run w ops)) cid = map_of (aw_replies w) cid"
proof (induction ops arbitrary: w)
  case Nil
  then show ?case by (simp add: waiter_run_def)
next
  case (Cons x xs)
  have "cid \<notin> set (aw_pending (waiter_exec w x)) \<and> map_of (aw_replies (waiter_exec w x)) cid = map_of (aw_replies w) cid"
    using Cons.prems by (cases x) (auto simp: waiter_register_def waiter_resolve_def waiter_cancel_def Let_def)
  then show ?case using Cons.IH [of "waiter_exec w x"] Cons.prems(2) by (simp add: waiter_run_def)
qed

lemma waiter_run_first_reply:
  assumes "cid \<in> set (aw_pending w)" "cid \<in> set (aw_receivers w)" "map_of (aw_replies w) cid = None"
    and "WRegister cid \<notin> set ops"
  shows "map_of (aw_replies (waiter_run w ops)) cid = first_reply cid ops"
  using assms
proof (induction ops arbitrary: w)
  case Nil
  then show ?case by (simp add: waiter_run_def)
next
  case (Cons x xs)
  show ?case
  proof (cases "(\<exists>r. x = WResolve cid r) \<or> x = WCancel cid")
    case True
    then have "cid \<notin> set (aw_pending (waiter_exec w x)) \<and> map_of (aw_replies (waiter_exec w x)) cid = first_reply cid (x # xs)"
      using Cons.prems by (auto simp: waiter_resolve_def waiter_cancel_def Let_def)
    then show ?thesis using waiter_run_settled [of cid "waiter_exec w x" xs] Cons.prems(4) by (simp add: waiter_run_def)
  next
    case False
    then have "first_reply cid (x # xs) = first_reply cid xs" by (cases x) auto
    moreover have "map_of (aw_replies (waiter_run (waiter_exec w x) xs)) cid = first_reply cid xs"
      using waiter_exec_other [of x cid w] False Cons.prems by (intro Cons.IH) auto
    ultimately show ?thesis by (simp add: waiter_run_def)
  qed
qed

lemma ticket_wf:
  "hm_wf m \<Longrightarrow> hm_wf (ticket_issue now t m)" "hm_wf m \<Longrightarrow> hm_wf (snd (ticket_consume now t m))"
  by (auto simp: ticket_issue_def ticket_consume_def intro: wf_insert wf_remove wf_retain split: option.split)

text \<open>Successful consumptions of a ticket are paid for by its issues, or by its entry in the map.\<close>

lemma ticket_log_bounded:
  "hm_wf m \<Longrightarrow> length (filter (\<lambda>(_, u). u = t) (ticket_log m ops))
     \<le> length (filter (\<lambda>(_, x). x = TIssue t) ops) + (if hm_contains m t then 1 else 0)"
proof (induction ops arbitrary: m)
  case Nil
  then show ?case by simp
next
  case (Cons x xs)
  obtain now op where x: "x = (now, op)" by force
  show ?case
  proof (cases op)
    case (TIssue u)
    have "length (filter (\<lambda>(_, u). u = t) (ticket_log (ticket_issue now u m) xs))
        \<le> length (filter (\<lambda>(_, x). x = TIssue t) xs) + (if hm_contains (ticket_issue now u m) t then 1 else 0)"
      using Cons by (simp add: ticket_wf)
    moreover have "hm_contains (ticket_issue now u m) t \<Longrightarrow> u = t \<or> hm_contains m t"
      using Cons.prems by (auto simp: ticket_issue_def map_laws split: if_splits option.splits)
    ultimately show ?thesis using TIssue x by (auto split: if_splits)
  next
    case (TConsume u)
    have "length (filter (\<lambda>(_, u). u = t) (ticket_log (snd (ticket_consume now u m)) xs))
        \<le> length (filter (\<lambda>(_, x). x = TIssue t) xs) + (if hm_contains (snd (ticket_consume now u m)) t then 1 else 0)"
      using Cons by (simp add: ticket_wf)
    then show ?thesis using TConsume x Cons.prems
      by (auto simp: ticket_consume_def map_laws split: if_splits option.splits)
  qed
qed

lemma ticket_log_issued:
  "hm_wf m \<Longrightarrow> (now, t) \<in> set (ticket_log m ops) \<Longrightarrow>
   (\<exists>t0. (t0, TIssue t) \<in> set ops \<and> now < t0 + TICKET_TTL) \<or> (\<exists>e. map_of m t = Some e \<and> now < e)"
proof (induction ops arbitrary: m)
  case Nil
  then show ?case by simp
next
  case (Cons x xs)
  obtain n op where x: "x = (n, op)" by force
  show ?case
  proof (cases op)
    case (TIssue u)
    then have "(now, t) \<in> set (ticket_log (ticket_issue n u m) xs)" using Cons.prems x by simp
    from Cons.IH [OF ticket_wf(1) [OF Cons.prems(1)] this] show ?thesis
      using TIssue x Cons.prems(1) by (auto simp: ticket_issue_def map_laws split: if_splits option.splits)
  next
    case (TConsume u)
    have "fst (ticket_consume n u m) \<Longrightarrow> \<exists>e. map_of m u = Some e \<and> n < e"
      by (auto simp: ticket_consume_def split: if_splits option.splits)
    moreover have "map_of (snd (ticket_consume n u m)) t = Some e \<Longrightarrow> map_of m t = Some e" for e
      using Cons.prems(1) by (auto simp: ticket_consume_def map_laws split: if_splits option.splits)
    moreover have "(now, t) \<in> set (ticket_log (snd (ticket_consume n u m)) xs) \<or> fst (ticket_consume n u m) \<and> now = n \<and> t = u"
      using Cons.prems(2) TConsume x by (cases "ticket_consume n u m") (auto split: if_splits)
    ultimately show ?thesis using Cons.IH [OF ticket_wf(2) [OF Cons.prems(1)], of n u] x by fastforce
  qed
qed

text \<open>The health check takes exactly the stale clients offline.\<close>

lemma fold_mark_offline:
  "map_of (by_vtoken (fold mark_offline vs r)) v = map_option (\<lambda>c. if v \<in> set vs then c\<lparr>online := False\<rparr> else c) (map_of (by_vtoken r) v)"
  by (induction vs arbitrary: r) (auto simp: mark_offline_def map_of_modify map_option_case split: option.splits)

section \<open>Properties\<close>

text \<open>A stream ticket opens at most one stream, and only while it is fresh: over any sequence of calls the
  successful redemptions of a ticket are at most as many as its issues, and each comes within the lifetime of
  an issue of that very ticket.\<close>

theorem ticket_single_use:
  "length (filter (\<lambda>(_, u). u = t) (ticket_log [] ops)) \<le> length (filter (\<lambda>(_, x). x = TIssue t) ops)
   \<and> ((now, t) \<in> set (ticket_log [] ops) \<longrightarrow> (\<exists>t0. (t0, TIssue t) \<in> set ops \<and> now < t0 + TICKET_TTL))"
  using ticket_log_bounded [of "[]" t ops] ticket_log_issued [of "[]" now t ops] by auto

theorem ticket_single_use_witness:
  "\<exists>t0. (t0, TIssue ''ab'') \<in> set [(5, TIssue ''ab''), (9, TConsume ''ab''), (10, TConsume ''ab'')] \<and> 9 < t0 + TICKET_TTL"
proof -
  have "(9, ''ab'') \<in> set (ticket_log [] [(5, TIssue ''ab''), (9, TConsume ''ab''), (10, TConsume ''ab'')])"
    by (simp add: ticket_issue_def ticket_consume_def hm_retain_def TICKET_TTL_def)
  then show ?thesis using ticket_single_use [of "''ab''" "[(5, TIssue ''ab''), (9, TConsume ''ab''), (10, TConsume ''ab'')]" 9] by blast
qed

end
