(* ===== verification/Quote_Route.thy ===== *)
theory Quote_Route
  imports Hub_Router
begin

text \<open>
  Where a quoted message came from (\<open>hub/quote_route.rs\<close>) and how the hub marks the origin of a
  backend's reply (\<open>hub/outbound_label.rs\<close>).  Outbound replies get a footer line naming the backend
  and the session; a user who quotes such a reply is routed back by reading identifiers, time stamps
  or that footer out of the \<open>ref_msg\<close> object of the quoting message.  The lemmas show that the footer
  the one module writes is the footer the other reads.
\<close>

section \<open>Merging a quote into the routing decision\<close>

datatype QuoteOrigin = OriginClient vtoken string "string option" "string option" | OriginHub HubCommand

definition merge_routing_with_quote :: "RoutingDecision \<Rightarrow> QuoteOrigin option \<Rightarrow> RoutingDecision" where
  "merge_routing_with_quote base quoted = (case base of
     HubInternal _ \<Rightarrow> base
   | _ \<Rightarrow> (case quoted of
        Some (OriginClient vt _ _ sn) \<Rightarrow> ForwardTo vt sn
      | Some (OriginHub cmd) \<Rightarrow> HubInternal cmd
      | None \<Rightarrow> base))"

section \<open>Reading the quoted message\<close>

text \<open>The separators \<open> \<cdot> \<close> (a middle dot between blanks) and the em dash, in UTF-8.\<close>

definition mid_dot :: string where
  "mid_dot = [CHR '' '', CHR 0xC2, CHR 0xB7, CHR '' '']"

definition em_dash :: string where
  "em_dash = [CHR 0xE2, CHR 0x80, CHR 0x94]"

definition hr_sep :: string where
  "hr_sep = [CHR 0x0A] @ ''---'' @ [CHR 0x0A]"

lemma split_once_length: "p \<noteq> [] \<Longrightarrow> split_once p s = Some (a, b) \<Longrightarrow> length b < length s"
  by (drule split_once_Some) (cases p; simp)

function split_str :: "string \<Rightarrow> string \<Rightarrow> string list" where
  "split_str p s = (if p = [] then [s] else
     (case split_once p s of None \<Rightarrow> [s] | Some (a, b) \<Rightarrow> a # split_str p b))"
  by pat_completeness auto
termination
  by (relation "measure (\<lambda>(p, s). length s)") (auto dest: split_once_length)

declare split_str.simps [simp del]

definition session_like :: "string \<Rightarrow> bool" where
  "session_like p \<longleftrightarrow> starts_with p ''at-'' \<or> starts_with p ''session-''"

definition parse_footer_from_quoted_text :: "string \<Rightarrow> (string \<times> string option) option" where
  "parse_footer_from_quoted_text t =
     (let line = (case rsplit_once hr_sep t of
            Some (_, after) \<Rightarrow> Some (trim after)
          | None \<Rightarrow> (case rsplit_once ([CHR 0x0A] @ em_dash @ '' '') t of
               Some (_, after) \<Rightarrow> Some (trim ('' '' @ after))
             | None \<Rightarrow> map_option trim (strip_prefix (trim t) (em_dash @ '' ''))))
      in case line of None \<Rightarrow> None
         | Some footer_line \<Rightarrow>
             if footer_line = [] then None
             else (let parts = split_str mid_dot footer_line; nm = trim (hd parts)
                   in if nm = [] then None
                      else Some (nm, find session_like (map trim (rev parts)))))"

definition quoted_item :: "MessageItem \<Rightarrow> json option" where
  "quoted_item it = (case as_object (extra it) of None \<Rightarrow> None
     | Some ob \<Rightarrow> Option.bind (map_of ob ''ref_msg'') (json_get ''message_item''))"

definition over_quotes :: "(json \<Rightarrow> 'a option) \<Rightarrow> WeixinMessage \<Rightarrow> 'a option" where
  "over_quotes f m = Option.bind (item_list m) (find_map (\<lambda>it. Option.bind (quoted_item it) f))"

definition quoted_ms :: "json \<Rightarrow> int option" where
  "quoted_ms mi = Option.bind (json_get ''create_time_ms'' mi) as_i64"

definition collect_quoted_timestamp :: "WeixinMessage \<Rightarrow> int option" where
  "collect_quoted_timestamp m = over_quotes quoted_ms m"

definition collect_quoted_msg_id :: "WeixinMessage \<Rightarrow> string option" where
  "collect_quoted_msg_id m = over_quotes (\<lambda>mi.
     opt_filter (\<lambda>i. trim i \<noteq> []) (Option.bind (json_get ''msg_id'' mi) as_str)) m"

definition collect_quoted_content :: "WeixinMessage \<Rightarrow> (string \<times> int option) option" where
  "collect_quoted_content m = over_quotes (\<lambda>mi.
     map_option (\<lambda>t. (t, quoted_ms mi))
       (opt_filter (\<lambda>s. trim s \<noteq> [])
          (Option.bind (Option.bind (json_get ''text_item'' mi) (json_get ''text'')) as_str))) m"

definition collect_quoted :: "WeixinMessage \<Rightarrow> (string \<times> int option) option" where
  "collect_quoted m = collect_quoted_content m"

definition footer_from_user_quote :: "WeixinMessage \<Rightarrow> (string \<times> string option) option" where
  "footer_from_user_quote m = Option.bind (collect_quoted_content m) (\<lambda>(t, _). parse_footer_from_quoted_text t)"

section \<open>Marking outbound replies\<close>

definition should_append_outbound_origin_label :: "nat \<Rightarrow> string option \<Rightarrow> bool" where
  "should_append_outbound_origin_label online_count env =
     (case map_option to_ascii_lowercase (opt_filter (\<lambda>s. s \<noteq> []) (map_option trim env)) of
        None \<Rightarrow> online_count > 1
      | Some v \<Rightarrow> if v \<in> {''0'', ''false'', ''no'', ''off''} then False
                  else if v \<in> {''1'', ''true'', ''yes'', ''on''} then True
                  else online_count > 1)"

definition shown_label :: "string \<Rightarrow> string option \<Rightarrow> string option" where
  "shown_label nm lbl = opt_filter (\<lambda>l. l \<noteq> nm) (opt_filter (\<lambda>s. s \<noteq> []) (map_option trim lbl))"

definition format_outbound_origin_line :: "string \<Rightarrow> string option \<Rightarrow> string" where
  "format_outbound_origin_line nm lbl = (case shown_label nm lbl of
     Some l \<Rightarrow> nm @ mid_dot @ l | None \<Rightarrow> nm)"

definition shown_session :: "string option \<Rightarrow> string option" where
  "shown_session sn = opt_filter (\<lambda>s. s \<noteq> [] \<and> s \<noteq> ''default'') (map_option trim sn)"

definition format_outbound_footer :: "string \<Rightarrow> string option \<Rightarrow> string option \<Rightarrow> string" where
  "format_outbound_footer nm lbl sn =
     (let workspace = format_outbound_origin_line nm lbl
      in case shown_session sn of Some s \<Rightarrow> workspace @ mid_dot @ s | None \<Rightarrow> workspace)"

definition build_persona_header :: "string option \<Rightarrow> string option \<Rightarrow> string option" where
  "build_persona_header pn pe = (case map_option trim pn of
     None \<Rightarrow> None
   | Some n \<Rightarrow> if n = [] then None
       else (let bold = ''**'' @ n @ ''**'';
                 display = (case opt_filter (\<lambda>s. s \<noteq> []) (map_option trim pe) of
                    Some e \<Rightarrow> e @ '' '' @ bold | None \<Rightarrow> bold)
             in Some (display @ [CHR 0x0A, CHR 0x0A])))"

definition build_session_only_footer :: "string option \<Rightarrow> string option" where
  "build_session_only_footer sn = (case map_option trim sn of None \<Rightarrow> None
     | Some s \<Rightarrow> if s = [] \<or> s = ''default'' then None else Some s)"

definition on_first_text :: "(string \<Rightarrow> string) \<Rightarrow> WeixinMessage \<Rightarrow> WeixinMessage" where
  "on_first_text f m = (case item_list m of
     Some (it # its) \<Rightarrow> (case text_item it of
         Some ti \<Rightarrow> (case ti_text ti of
             Some t \<Rightarrow> m\<lparr>item_list := Some (it\<lparr>text_item := Some (ti\<lparr>ti_text := Some (f t)\<rparr>)\<rparr> # its)\<rparr>
           | None \<Rightarrow> m)
       | None \<Rightarrow> m)
   | _ \<Rightarrow> m)"

definition has_persona :: "string option \<Rightarrow> bool" where
  "has_persona pn = (case pn of None \<Rightarrow> False | Some n \<Rightarrow> trim n \<noteq> [])"

definition apply_persona_and_footer_to_first_text_item ::
  "string option \<Rightarrow> string option \<Rightarrow> string \<Rightarrow> string option \<Rightarrow> string option \<Rightarrow> WeixinMessage \<Rightarrow> WeixinMessage" where
  "apply_persona_and_footer_to_first_text_item pn pe nm lbl sn = on_first_text (\<lambda>t.
     if has_persona pn
     then (let body = unwrap_or [] (build_persona_header pn pe) @ t
           in case build_session_only_footer sn of
                Some s \<Rightarrow> body @ [CHR 0x0A] @ hr_sep @ s | None \<Rightarrow> body)
     else t @ [CHR 0x0A] @ hr_sep @ format_outbound_footer nm lbl sn)"

definition append_outbound_origin_footer_to_first_text_item ::
  "string \<Rightarrow> string option \<Rightarrow> string option \<Rightarrow> WeixinMessage \<Rightarrow> WeixinMessage" where
  "append_outbound_origin_footer_to_first_text_item nm lbl sn =
     on_first_text (\<lambda>t. t @ [CHR 0x0A] @ hr_sep @ format_outbound_footer nm lbl sn)"

section \<open>The footer round trip\<close>

text \<open>What may stand between two separators of a footer line: trimmed, non-empty, one line, no middle dot after a blank.\<close>

definition footer_word :: "string \<Rightarrow> bool" where
  "footer_word w \<longleftrightarrow> w \<noteq> [] \<and> trim w = w \<and> CHR 0x0A \<notin> set w \<and> \<not> contains_str [CHR '' '', CHR 0xC2, CHR 0xB7] w"

lemma contains_str_Cons: "\<not> contains_str p (c # s) \<Longrightarrow> \<not> contains_str p s"
  by simp

lemma split_once_mid_dot:
  "\<not> contains_str [CHR '' '', CHR 0xC2, CHR 0xB7] a \<Longrightarrow> split_once mid_dot (a @ mid_dot @ b) = Some (a, b)"
proof (induction a)
  case Nil
  then show ?case by (simp add: mid_dot_def)
next
  case (Cons c a)
  have "take (length mid_dot) (c # a @ mid_dot @ b) \<noteq> mid_dot"
    using Cons.prems by (cases a; cases "tl a"; auto simp: mid_dot_def take_Cons')
  with Cons show ?case by simp
qed

lemma split_once_mid_dot_None:
  "\<not> contains_str [CHR '' '', CHR 0xC2, CHR 0xB7] a \<Longrightarrow> split_once mid_dot a = None"
proof (induction a)
  case Nil
  then show ?case by (simp add: mid_dot_def)
next
  case (Cons c a)
  have "take (length mid_dot) (c # a) \<noteq> mid_dot"
    using Cons.prems by (cases a; cases "tl a"; auto simp: mid_dot_def take_Cons')
  with Cons show ?case by simp
qed

lemma split_str_join:
  "ws \<noteq> [] \<Longrightarrow> list_all footer_word ws \<Longrightarrow> split_str mid_dot (join mid_dot ws) = ws"
proof (induction mid_dot ws rule: join.induct)
  case (2 x)
  then show ?case
    by (subst split_str.simps) (simp add: footer_word_def split_once_mid_dot_None)
next
  case (3 x y xs)
  then have "split_once mid_dot (x @ mid_dot @ join mid_dot (y # xs)) = Some (x, join mid_dot (y # xs))"
    by (intro split_once_mid_dot) (simp add: footer_word_def)
  with 3 show ?case
    by (subst split_str.simps) (auto simp: mid_dot_def)
qed simp

lemma ws_enc_no_inner_blank: "e \<in> set ws_enc \<Longrightarrow> CHR '' '' \<notin> set (tl e) \<and> CHR '' '' \<notin> set (butlast e)"
  by (auto simp: ws_enc_def)

lemma strip_any_None: "strip_any encs s = None \<longleftrightarrow> (\<forall>e \<in> set encs. e \<noteq> [] \<longrightarrow> \<not> prefix e s)"
  by (auto simp: strip_any_def find_map_None prefix_def split: if_splits)
     (metis not_None_eq strip_prefix_iff)

lemma prefix_before_blank:
  "prefix e (w @ c # x) \<Longrightarrow> w \<noteq> [] \<Longrightarrow> c \<notin> set (tl e) \<Longrightarrow> prefix e w"
  by (auto simp: prefix_append prefix_Cons)

lemma trim_done: "trim w = w \<Longrightarrow> strip_any ws_enc w = None \<and> strip_any (map rev ws_enc) (rev w) = None"
proof
  assume t: "trim w = w"
  show "strip_any ws_enc w = None" using trim_no_leading [of w] t by simp
  have "trim_end w = w" using t trim_end_idem [of "trim_start w"] by (simp add: trim_def)
  then have "rev w = trim_with (map rev ws_enc) (rev w)" by (metis rev_rev_ident trim_end_def)
  then show "strip_any (map rev ws_enc) (rev w) = None" using trim_with_done by metis
qed

lemma trim_from_done: "strip_any ws_enc w = None \<Longrightarrow> strip_any (map rev ws_enc) (rev w) = None \<Longrightarrow> trim w = w"
  by (simp add: trim_def trim_start_idem trim_end_def trim_with_id)

lemma trim_around_blank:
  assumes "trim a = a" "trim b = b" "a \<noteq> []" "b \<noteq> []"
  shows "trim (a @ CHR '' '' # x @ CHR '' '' # b) = a @ CHR '' '' # x @ CHR '' '' # b"
proof (rule trim_from_done)
  show "strip_any ws_enc (a @ CHR '' '' # x @ CHR '' '' # b) = None"
    using trim_done [OF assms(1)] assms(3) ws_enc_no_inner_blank
    by (auto simp: strip_any_None dest: prefix_before_blank)
  have "CHR '' '' \<notin> set (tl (rev e))" if "e \<in> set ws_enc" for e
    using ws_enc_no_inner_blank [OF that] by (cases e rule: rev_cases) auto
  then show "strip_any (map rev ws_enc) (rev (a @ CHR '' '' # x @ CHR '' '' # b)) = None"
    using trim_done [OF assms(2)] assms(4)
    by (auto simp: strip_any_None dest: prefix_before_blank)
qed

lemma join_last: "ws \<noteq> [] \<Longrightarrow> \<exists>x. join sep (w # ws) = w @ sep @ x @ last ws \<and> (x = [] \<or> (\<exists>y. x = y @ sep))"
  by (induction ws arbitrary: w) (auto simp: join_Cons)

lemma trim_footer: "ws \<noteq> [] \<Longrightarrow> list_all footer_word ws \<Longrightarrow> trim (join mid_dot ws) = join mid_dot ws"
proof (cases ws)
  case (Cons w us)
  assume ws: "list_all footer_word ws"
  show ?thesis
  proof (cases "us = []")
    case False
    then obtain x where x: "join mid_dot (w # us) = w @ mid_dot @ x @ last us" "x = [] \<or> (\<exists>y. x = y @ mid_dot)"
      using join_last by metis
    have w: "footer_word w" "footer_word (last us)" using ws False Cons by (auto simp: list_all_iff)
    have "\<exists>z. mid_dot @ x = CHR '' '' # z @ [CHR '' '']" using x(2) by (auto simp: mid_dot_def)
    then obtain z where z: "mid_dot @ x @ last us = CHR '' '' # z @ CHR '' '' # last us"
      by (metis append_Cons append_assoc append_Nil)
    show ?thesis
      using w trim_around_blank [of w "last us" z] by (simp only: Cons x(1) z footer_word_def simp_thms)
  qed (use ws Cons in \<open>simp add: footer_word_def\<close>)
qed simp

lemma rsplit_once_line:
  assumes "CHR 0x0A \<notin> set line"
  shows "rsplit_once hr_sep (t @ hr_sep @ line) = Some (t, line)"
proof -
  have "split_once (rev hr_sep) (a @ rev hr_sep @ b) = Some (a, b)" if "CHR 0x0A \<notin> set a" for a b
    using that by (induction a) (auto simp: hr_sep_def)
  from this [of "rev line" "rev t"] assms show ?thesis by (simp add: rsplit_once_def)
qed

lemma parse_footer_join:
  assumes "ws \<noteq> []" "list_all footer_word ws"
  shows "parse_footer_from_quoted_text (t @ hr_sep @ join mid_dot ws) = Some (hd ws, find session_like (rev ws))"
proof -
  have nl: "CHR 0x0A \<notin> set (join mid_dot ws)"
    using assms by (induction mid_dot ws rule: join.induct) (auto simp: footer_word_def mid_dot_def)
  have ne: "join mid_dot ws \<noteq> []" using assms by (cases ws; cases "tl ws") (auto simp: footer_word_def)
  have tr: "map trim (rev ws) = rev ws" "trim (hd ws) = hd ws" "hd ws \<noteq> []"
    using assms by (auto simp: list_all_iff footer_word_def intro!: map_idI)
  show ?thesis
    by (simp add: parse_footer_from_quoted_text_def Let_def rsplit_once_line [OF nl] trim_footer [OF assms] ne
        split_str_join [OF assms] tr)
qed

definition footer_parts :: "string \<Rightarrow> string option \<Rightarrow> string option \<Rightarrow> string list" where
  "footer_parts nm lbl sn = nm # (case shown_label nm lbl of None \<Rightarrow> [] | Some l \<Rightarrow> [l]) @
     (case shown_session sn of None \<Rightarrow> [] | Some s \<Rightarrow> [s])"

lemma format_outbound_footer_parts: "format_outbound_footer nm lbl sn = join mid_dot (footer_parts nm lbl sn)"
  by (simp add: format_outbound_footer_def format_outbound_origin_line_def footer_parts_def Let_def split: option.split)

definition first_text :: "WeixinMessage \<Rightarrow> string option" where
  "first_text m = (case item_list m of Some (it # _) \<Rightarrow> item_text it | _ \<Rightarrow> None)"

lemma on_first_text: "first_text (on_first_text f m) = map_option f (first_text m)"
  by (auto simp: on_first_text_def first_text_def item_text_def split: option.splits list.splits)

text \<open>Footer round trip. When a backend without a persona answers with a text, the marked reply carries
  a footer from which the quote parser reads back the backend's name and, when the session shown has one
  of the two generated forms, that session.
\<close>

theorem footer_round_trip:
  assumes "first_text m = Some t" "\<not> has_persona pn"
    and "list_all footer_word (footer_parts nm lbl sn)"
    and "\<not> session_like nm" "\<And>l. shown_label nm lbl = Some l \<Longrightarrow> \<not> session_like l"
  shows "Option.bind (first_text (apply_persona_and_footer_to_first_text_item pn pe nm lbl sn m)) parse_footer_from_quoted_text
    = Some (nm, opt_filter session_like (shown_session sn))"
proof -
  have "find session_like (rev (footer_parts nm lbl sn)) = opt_filter session_like (shown_session sn)"
    using assms(4,5) by (auto simp: footer_parts_def opt_filter_def split: option.split)
  with parse_footer_join [OF _ assms(3), of "t @ [CHR 0x0A]"] show ?thesis
    by (simp add: apply_persona_and_footer_to_first_text_item_def on_first_text assms(1,2) format_outbound_footer_parts)
      (simp add: footer_parts_def)
qed

theorem footer_round_trip_witness:
  "Option.bind (first_text (apply_persona_and_footer_to_first_text_item None None ''claude'' (Some ''dev box'')
      (Some ''at-20260615'') (build_text_reply ''u'' 1 ''ctx'' ''hi''))) parse_footer_from_quoted_text
    = Some (''claude'', Some ''at-20260615'')"
proof -
  have l: "shown_label ''claude'' (Some ''dev box'') = Some ''dev box''"
    by (simp add: shown_label_def opt_filter_def trim_graphic graphic_def)
  have s: "shown_session (Some ''at-20260615'') = Some ''at-20260615''"
    by (simp add: shown_session_def opt_filter_def trim_graphic graphic_def)
  have 1: "first_text (build_text_reply ''u'' 1 ''ctx'' ''hi'') = Some ''hi''"
    by (simp add: first_text_def build_text_reply_def item_text_def type_defaults)
  have 2: "list_all footer_word (footer_parts ''claude'' (Some ''dev box'') (Some ''at-20260615''))"
    by (simp add: footer_parts_def l s footer_word_def trim_graphic graphic_def)
  have 3: "\<not> session_like ''claude''" "\<not> session_like ''dev box''" "session_like ''at-20260615''"
    by (simp_all add: session_like_def starts_with_def)
  show ?thesis
    using footer_round_trip [OF 1 _ 2 3(1), of None None] 3 by (simp add: has_persona_def l s opt_filter_def)
qed

end
