(* ===== verification/Hub_Messages.thy ===== *)
theory Hub_Messages
  imports Message_Store
begin

text \<open>
  The texts the hub sends to the user (\<open>hub/messages.rs\<close>, the help text of \<open>hub/commands.rs\<close> and
  \<open>redact_token\<close> of \<open>lib.rs\<close>), in UTF-8.  The creation time of a history row is the number of
  seconds it was written at, so \<open>parse_elapsed_secs\<close> reads that number instead of its textual form.
\<close>

section \<open>Fixed texts\<close>

definition NO_BACKEND :: string where
  "NO_BACKEND = ([CHR 0xE2, CHR 0x9D, CHR 0x8C] @ '' '' @ [CHR 0xE5, CHR 0xBD, CHR 0x93, CHR 0xE5, CHR 0x89,
     CHR 0x8D, CHR 0xE6, CHR 0x9C, CHR 0xAA, CHR 0xE8, CHR 0xB7, CHR 0xAF, CHR 0xE7, CHR 0x94, CHR 0xB1,
     CHR 0xE5, CHR 0x88, CHR 0xB0, CHR 0xE4, CHR 0xBB, CHR 0xBB, CHR 0xE4, CHR 0xBD, CHR 0x95, CHR 0xE5,
     CHR 0x90, CHR 0x8E, CHR 0xE7, CHR 0xAB, CHR 0xAF, CHR 0xEF, CHR 0xBC, CHR 0x8C, CHR 0xE8, CHR 0xAF,
     CHR 0xB7, CHR 0xE5, CHR 0x85, CHR 0x88, CHR 0xE7, CHR 0x94, CHR 0xA8] @ '' '' @ [CHR 0x60] @
     ''/use <'' @ [CHR 0xE5, CHR 0x90, CHR 0x8D, CHR 0xE7, CHR 0xA7, CHR 0xB0] @ ''>'' @ [CHR 0x60] @
     '' '' @ [CHR 0xE5, CHR 0x88, CHR 0x87, CHR 0xE6, CHR 0x8D, CHR 0xA2, CHR 0xE5, CHR 0x88, CHR 0xB0,
     CHR 0xE4, CHR 0xB8, CHR 0x80, CHR 0xE4, CHR 0xB8, CHR 0xAA, CHR 0xE5, CHR 0x90, CHR 0x8E, CHR 0xE7,
     CHR 0xAB, CHR 0xAF, CHR 0xE3, CHR 0x80, CHR 0x82])"

definition NO_BACKEND_ONLINE :: string where
  "NO_BACKEND_ONLINE = ([CHR 0xE4, CHR 0xBD, CHR 0xA0, CHR 0xE5, CHR 0xA5, CHR 0xBD, CHR 0xEF, CHR 0xBC, CHR 0x81, CHR 0xE6,
     CHR 0x88, CHR 0x91, CHR 0xE6, CHR 0x98, CHR 0xAF] @ '' iLink Hub '' @ [CHR 0xE6, CHR 0xB6, CHR 0x88,
     CHR 0xE6, CHR 0x81, CHR 0xAF, CHR 0xE8, CHR 0xB7, CHR 0xAF, CHR 0xE7, CHR 0x94, CHR 0xB1, CHR 0xE6,
     CHR 0x9C, CHR 0x8D, CHR 0xE5, CHR 0x8A, CHR 0xA1, CHR 0xE3, CHR 0x80, CHR 0x82, CHR 0x0A, CHR 0x0A,
     CHR 0xE5, CHR 0xBD, CHR 0x93, CHR 0xE5, CHR 0x89, CHR 0x8D, CHR 0xE6, CHR 0x9A, CHR 0x82, CHR 0xE6,
     CHR 0x97, CHR 0xA0] @ '' AI '' @ [CHR 0xE5, CHR 0x8A, CHR 0xA9, CHR 0xE6, CHR 0x89, CHR 0x8B,
     CHR 0xE5, CHR 0x90, CHR 0x8E, CHR 0xE7, CHR 0xAB, CHR 0xAF, CHR 0xE5, CHR 0x9C, CHR 0xA8, CHR 0xE7,
     CHR 0xBA, CHR 0xBF, CHR 0xEF, CHR 0xBC, CHR 0x8C, CHR 0xE6, CHR 0x82, CHR 0xA8, CHR 0xE7, CHR 0x9A,
     CHR 0x84, CHR 0xE6, CHR 0xB6, CHR 0x88, CHR 0xE6, CHR 0x81, CHR 0xAF, CHR 0xE6, CHR 0x9A, CHR 0x82,
     CHR 0xE6, CHR 0x97, CHR 0xB6, CHR 0xE6, CHR 0x97, CHR 0xA0, CHR 0xE6, CHR 0xB3, CHR 0x95, CHR 0xE8,
     CHR 0xA2, CHR 0xAB, CHR 0xE5, CHR 0xA4, CHR 0x84, CHR 0xE7, CHR 0x90, CHR 0x86, CHR 0xE3, CHR 0x80,
     CHR 0x82, CHR 0x0A, CHR 0x0A, CHR 0xE6, CHR 0x82, CHR 0xA8, CHR 0xE5, CHR 0x8F, CHR 0xAF, CHR 0xE4,
     CHR 0xBB, CHR 0xA5, CHR 0xEF, CHR 0xBC, CHR 0x9A, CHR 0x0A, CHR 0xE2, CHR 0x80, CHR 0xA2] @ '' '' @
     [CHR 0xE5, CHR 0x8F, CHR 0x91, CHR 0xE9, CHR 0x80, CHR 0x81] @ '' /status '' @ [CHR 0xE6, CHR 0x9F,
     CHR 0xA5, CHR 0xE7, CHR 0x9C, CHR 0x8B, CHR 0xE6, CHR 0x9C, CHR 0x8D, CHR 0xE5, CHR 0x8A, CHR 0xA1,
     CHR 0xE7, CHR 0x8A, CHR 0xB6, CHR 0xE6, CHR 0x80, CHR 0x81, CHR 0x0A, CHR 0xE2, CHR 0x80,
     CHR 0xA2] @ '' '' @ [CHR 0xE5, CHR 0x8F, CHR 0x91, CHR 0xE9, CHR 0x80, CHR 0x81] @ '' /list   '' @
     [CHR 0xE6, CHR 0x9F, CHR 0xA5, CHR 0xE7, CHR 0x9C, CHR 0x8B, CHR 0xE5, CHR 0xB7, CHR 0xB2, CHR 0xE6,
     CHR 0xB3, CHR 0xA8, CHR 0xE5, CHR 0x86, CHR 0x8C, CHR 0xE7, CHR 0x9A, CHR 0x84, CHR 0xE5, CHR 0x90,
     CHR 0x8E, CHR 0xE7, CHR 0xAB, CHR 0xAF, CHR 0x0A, CHR 0xE2, CHR 0x80, CHR 0xA2] @ '' '' @ [CHR 0xE5,
     CHR 0x8F, CHR 0x91, CHR 0xE9, CHR 0x80, CHR 0x81] @ '' /help   '' @ [CHR 0xE6, CHR 0x9F, CHR 0xA5,
     CHR 0xE7, CHR 0x9C, CHR 0x8B, CHR 0xE5, CHR 0xAE, CHR 0x8C, CHR 0xE6, CHR 0x95, CHR 0xB4, CHR 0xE5,
     CHR 0xB8, CHR 0xAE, CHR 0xE5, CHR 0x8A, CHR 0xA9, CHR 0x0A, CHR 0x0A, CHR 0xE5, CHR 0xA6, CHR 0x82,
     CHR 0xE9, CHR 0x9C, CHR 0x80, CHR 0xE6, CHR 0x8E, CHR 0xA5, CHR 0xE5, CHR 0x85, CHR 0xA5] @
     '' AI '' @ [CHR 0xE5, CHR 0x8A, CHR 0xA9, CHR 0xE6, CHR 0x89, CHR 0x8B, CHR 0xEF, CHR 0xBC,
     CHR 0x8C, CHR 0xE8, CHR 0xAF, CHR 0xB7, CHR 0xE8, CHR 0x81, CHR 0x94, CHR 0xE7, CHR 0xB3, CHR 0xBB,
     CHR 0xE7, CHR 0xAE, CHR 0xA1, CHR 0xE7, CHR 0x90, CHR 0x86, CHR 0xE5, CHR 0x91, CHR 0x98, CHR 0xE9,
     CHR 0x85, CHR 0x8D, CHR 0xE7, CHR 0xBD, CHR 0xAE, CHR 0xE5, CHR 0x90, CHR 0x8E, CHR 0xE7, CHR 0xAB,
     CHR 0xAF, CHR 0xE6, CHR 0x9C, CHR 0x8D, CHR 0xE5, CHR 0x8A, CHR 0xA1, CHR 0xE3, CHR 0x80, CHR 0x82])"

definition UNRECOGNIZED_COMMAND :: string where
  "UNRECOGNIZED_COMMAND = ([CHR 0xE6, CHR 0x9C, CHR 0xAA, CHR 0xE8, CHR 0xAF, CHR 0x86, CHR 0xE5, CHR 0x88, CHR 0xAB, CHR 0xE7,
     CHR 0x9A, CHR 0x84, CHR 0xE6, CHR 0x8C, CHR 0x87, CHR 0xE4, CHR 0xBB, CHR 0xA4, CHR 0xE3, CHR 0x80,
     CHR 0x82, CHR 0xE5, CHR 0x8F, CHR 0x91, CHR 0xE9, CHR 0x80, CHR 0x81] @ '' /help '' @ [CHR 0xE6,
     CHR 0x9F, CHR 0xA5, CHR 0xE7, CHR 0x9C, CHR 0x8B, CHR 0xE5, CHR 0x8F, CHR 0xAF, CHR 0xE7, CHR 0x94,
     CHR 0xA8, CHR 0xE6, CHR 0x8C, CHR 0x87, CHR 0xE4, CHR 0xBB, CHR 0xA4, CHR 0xE3, CHR 0x80, CHR 0x82])"

definition SESSION_LIST_NO_SESSIONS :: string where
  "SESSION_LIST_NO_SESSIONS = ([CHR 0xE5, CHR 0xBD, CHR 0x93, CHR 0xE5, CHR 0x89, CHR 0x8D, CHR 0xE5, CHR 0x90, CHR 0x8E, CHR 0xE7,
     CHR 0xAB, CHR 0xAF, CHR 0xE5, CHR 0xB0, CHR 0x9A, CHR 0xE6, CHR 0x97, CHR 0xA0] @ '' session '' @
     [CHR 0xE8, CHR 0xAE, CHR 0xB0, CHR 0xE5, CHR 0xBD, CHR 0x95, CHR 0xE3, CHR 0x80, CHR 0x82, CHR 0x0A,
     CHR 0xE5, CHR 0x8F, CHR 0x91, CHR 0xE9, CHR 0x80, CHR 0x81] @ '' '' @ [CHR 0x60] @
     ''/session new <'' @ [CHR 0xE5, CHR 0x90, CHR 0x8D, CHR 0xE7, CHR 0xA7, CHR 0xB0] @ ''>'' @
     [CHR 0x60] @ '' '' @ [CHR 0xE5, CHR 0x88, CHR 0x9B, CHR 0xE5, CHR 0xBB, CHR 0xBA, CHR 0xE4,
     CHR 0xB8, CHR 0x80, CHR 0xE4, CHR 0xB8, CHR 0xAA] @ '' session'' @ [CHR 0xE3, CHR 0x80, CHR 0x82])"

definition SESSION_LIST_SWITCH_HINT :: string where
  "SESSION_LIST_SWITCH_HINT = ([CHR 0x0A, CHR 0xE7, CHR 0x94, CHR 0xA8] @ '' '' @ [CHR 0x60] @ ''/session use <'' @ [CHR 0xE5,
     CHR 0x90, CHR 0x8D, CHR 0xE7, CHR 0xA7, CHR 0xB0] @ ''>'' @ [CHR 0x60] @ '' '' @ [CHR 0xE5,
     CHR 0x88, CHR 0x87, CHR 0xE6, CHR 0x8D, CHR 0xA2, CHR 0xEF, CHR 0xBC, CHR 0x8C, CHR 0x60] @
     ''/session new <'' @ [CHR 0xE5, CHR 0x90, CHR 0x8D, CHR 0xE7, CHR 0xA7, CHR 0xB0] @ ''>'' @
     [CHR 0x60] @ '' '' @ [CHR 0xE6, CHR 0x96, CHR 0xB0, CHR 0xE5, CHR 0xBB, CHR 0xBA, CHR 0xE3,
     CHR 0x80, CHR 0x82])"

definition SESSION_SLOT_NO_UUID :: string where
  "SESSION_SLOT_NO_UUID = ([CHR 0xEF, CHR 0xBC, CHR 0x88, CHR 0xE5, CHR 0xB0, CHR 0x9A, CHR 0xE6, CHR 0x97, CHR 0xA0] @
     '' UUID'' @ [CHR 0xEF, CHR 0xBC, CHR 0x8C, CHR 0xE4, CHR 0xB8, CHR 0x8B, CHR 0xE6, CHR 0xAC,
     CHR 0xA1, CHR 0xE5, CHR 0xAF, CHR 0xB9, CHR 0xE8, CHR 0xAF, CHR 0x9D, CHR 0xE6, CHR 0x97, CHR 0xB6,
     CHR 0xE7, CHR 0x94, CHR 0xB1, CHR 0xE5, CHR 0x90, CHR 0x8E, CHR 0xE7, CHR 0xAB, CHR 0xAF, CHR 0xE5,
     CHR 0x86, CHR 0x99, CHR 0xE5, CHR 0x85, CHR 0xA5, CHR 0xEF, CHR 0xBC, CHR 0x89])"

section \<open>Texts with arguments\<close>

definition session_new_ok :: "string \<Rightarrow> string" where
  "session_new_ok n = ([CHR 0xE2, CHR 0x9C, CHR 0x85] @ '' '' @ [CHR 0xE5, CHR 0xB7, CHR 0xB2, CHR 0xE5, CHR 0x9C,
     CHR 0xA8, CHR 0xE5, CHR 0xBD, CHR 0x93, CHR 0xE5, CHR 0x89, CHR 0x8D, CHR 0xE5, CHR 0x90, CHR 0x8E,
     CHR 0xE7, CHR 0xAB, CHR 0xAF, CHR 0xE5, CHR 0x88, CHR 0x9B, CHR 0xE5, CHR 0xBB, CHR 0xBA, CHR 0xE5,
     CHR 0xB9, CHR 0xB6, CHR 0xE5, CHR 0x88, CHR 0x87, CHR 0xE6, CHR 0x8D, CHR 0xA2, CHR 0xE5, CHR 0x88,
     CHR 0xB0] @ '' session '' @ [CHR 0x60]) @ n @ [CHR 0x60, CHR 0xE3, CHR 0x80, CHR 0x82]"

definition session_new_created_switch_failed :: "string \<Rightarrow> string \<Rightarrow> string" where
  "session_new_created_switch_failed n e = ([CHR 0xE2, CHR 0x9C, CHR 0x85] @ '' '' @ [CHR 0xE5, CHR 0xB7, CHR 0xB2, CHR 0xE5, CHR 0x88,
     CHR 0x9B, CHR 0xE5, CHR 0xBB, CHR 0xBA] @ '' session '' @ [CHR 0x60]) @ n @ ([CHR 0x60, CHR 0xEF, CHR 0xBC, CHR 0x8C, CHR 0xE4, CHR 0xBD, CHR 0x86, CHR 0xE5, CHR 0x88, CHR 0x87,
     CHR 0xE6, CHR 0x8D, CHR 0xA2, CHR 0xE5, CHR 0xA4, CHR 0xB1, CHR 0xE8, CHR 0xB4, CHR 0xA5, CHR 0xEF,
     CHR 0xBC, CHR 0x9A]) @ e"

definition session_new_failed :: "string \<Rightarrow> string" where
  "session_new_failed e = ([CHR 0xE2, CHR 0x9D, CHR 0x8C] @ '' '' @ [CHR 0xE5, CHR 0x88, CHR 0x9B, CHR 0xE5, CHR 0xBB,
     CHR 0xBA] @ '' session '' @ [CHR 0xE5, CHR 0xA4, CHR 0xB1, CHR 0xE8, CHR 0xB4, CHR 0xA5, CHR 0xEF,
     CHR 0xBC, CHR 0x9A]) @ e"

definition session_use_ok :: "string \<Rightarrow> string" where
  "session_use_ok n = ([CHR 0xE2, CHR 0x9C, CHR 0x85] @ '' '' @ [CHR 0xE5, CHR 0xB7, CHR 0xB2, CHR 0xE5, CHR 0x88,
     CHR 0x87, CHR 0xE6, CHR 0x8D, CHR 0xA2, CHR 0xE5, CHR 0x88, CHR 0xB0] @ '' session '' @ [CHR 0x60]) @ n @ [CHR 0x60]"

definition session_use_failed :: "string \<Rightarrow> string" where
  "session_use_failed e = ([CHR 0xE2, CHR 0x9D, CHR 0x8C] @ '' '' @ [CHR 0xE5, CHR 0x88, CHR 0x87, CHR 0xE6, CHR 0x8D,
     CHR 0xA2] @ '' session '' @ [CHR 0xE5, CHR 0xA4, CHR 0xB1, CHR 0xE8, CHR 0xB4, CHR 0xA5, CHR 0xEF,
     CHR 0xBC, CHR 0x9A]) @ e"

definition session_use_slot_create_failed :: "string \<Rightarrow> string" where
  "session_use_slot_create_failed e = ([CHR 0xE2, CHR 0x9D, CHR 0x8C] @ '' '' @ [CHR 0xE5, CHR 0x88, CHR 0x9B, CHR 0xE5, CHR 0xBB,
     CHR 0xBA] @ '' session slot '' @ [CHR 0xE5, CHR 0xA4, CHR 0xB1, CHR 0xE8, CHR 0xB4, CHR 0xA5,
     CHR 0xEF, CHR 0xBC, CHR 0x9A]) @ e"

definition session_use_query_failed :: "string \<Rightarrow> string" where
  "session_use_query_failed e = ([CHR 0xE2, CHR 0x9D, CHR 0x8C] @ '' '' @ [CHR 0xE6, CHR 0x9F, CHR 0xA5, CHR 0xE8, CHR 0xAF,
     CHR 0xA2] @ '' session '' @ [CHR 0xE5, CHR 0xA4, CHR 0xB1, CHR 0xE8, CHR 0xB4, CHR 0xA5, CHR 0xEF,
     CHR 0xBC, CHR 0x9A]) @ e"

definition session_delete_active_error :: "string \<Rightarrow> string" where
  "session_delete_active_error n = ([CHR 0xE2, CHR 0x9D, CHR 0x8C] @ '' '' @ [CHR 0xE6, CHR 0x97, CHR 0xA0, CHR 0xE6, CHR 0xB3,
     CHR 0x95, CHR 0xE5, CHR 0x88, CHR 0xA0, CHR 0xE9, CHR 0x99, CHR 0xA4, CHR 0xE5, CHR 0xBD, CHR 0x93,
     CHR 0xE5, CHR 0x89, CHR 0x8D, CHR 0xE6, CHR 0xB4, CHR 0xBB, CHR 0xE8, CHR 0xB7, CHR 0x83, CHR 0xE7,
     CHR 0x9A, CHR 0x84] @ '' session '' @ [CHR 0x60]) @ n @
     ([CHR 0x60, CHR 0xE3, CHR 0x80, CHR 0x82, CHR 0x0A, CHR 0xE8, CHR 0xAF, CHR 0xB7, CHR 0xE5, CHR 0x85,
     CHR 0x88, CHR 0xE7, CHR 0x94, CHR 0xA8] @ '' '' @ [CHR 0x60] @ ''/session use <'' @ [CHR 0xE5,
     CHR 0x85, CHR 0xB6, CHR 0xE4, CHR 0xBB, CHR 0x96, CHR 0xE5, CHR 0x90, CHR 0x8D, CHR 0xE7, CHR 0xA7,
     CHR 0xB0] @ ''>'' @ [CHR 0x60] @ '' '' @ [CHR 0xE5, CHR 0x88, CHR 0x87, CHR 0xE6, CHR 0x8D,
     CHR 0xA2, CHR 0xE5, CHR 0x90, CHR 0x8E, CHR 0xE5, CHR 0x86, CHR 0x8D, CHR 0xE5, CHR 0x88, CHR 0xA0,
     CHR 0xE9, CHR 0x99, CHR 0xA4, CHR 0xE3, CHR 0x80, CHR 0x82])"

definition session_delete_ok :: "string \<Rightarrow> string" where
  "session_delete_ok n = ([CHR 0xE2, CHR 0x9C, CHR 0x85] @ '' '' @ [CHR 0xE5, CHR 0xB7, CHR 0xB2, CHR 0xE5, CHR 0x88,
     CHR 0xA0, CHR 0xE9, CHR 0x99, CHR 0xA4] @ '' session '' @ [CHR 0x60]) @ n @ [CHR 0x60]"

definition session_delete_not_found :: "string \<Rightarrow> string" where
  "session_delete_not_found n = ([CHR 0xE2, CHR 0x9D, CHR 0x8C] @ '' '' @ [CHR 0xE6, CHR 0x9C, CHR 0xAA, CHR 0xE6, CHR 0x89,
     CHR 0xBE, CHR 0xE5, CHR 0x88, CHR 0xB0] @ '' session '' @ [CHR 0x60]) @ n @ [CHR 0x60]"

definition session_delete_failed :: "string \<Rightarrow> string" where
  "session_delete_failed e = ([CHR 0xE2, CHR 0x9D, CHR 0x8C] @ '' '' @ [CHR 0xE5, CHR 0x88, CHR 0xA0, CHR 0xE9, CHR 0x99,
     CHR 0xA4] @ '' session '' @ [CHR 0xE5, CHR 0xA4, CHR 0xB1, CHR 0xE8, CHR 0xB4, CHR 0xA5, CHR 0xEF,
     CHR 0xBC, CHR 0x9A]) @ e"

definition session_list_failed :: "string \<Rightarrow> string" where
  "session_list_failed e = ([CHR 0xE2, CHR 0x9D, CHR 0x8C] @ '' '' @ [CHR 0xE6, CHR 0x9F, CHR 0xA5, CHR 0xE8, CHR 0xAF,
     CHR 0xA2] @ '' session '' @ [CHR 0xE5, CHR 0xA4, CHR 0xB1, CHR 0xE8, CHR 0xB4, CHR 0xA5, CHR 0xEF,
     CHR 0xBC, CHR 0x9A]) @ e"

section \<open>The status overview\<close>

definition parse_elapsed_secs :: "int \<Rightarrow> int \<Rightarrow> nat" where
  "parse_elapsed_secs now ts = nat (max (now - ts) 0)"

definition format_elapsed :: "nat \<Rightarrow> string" where
  "format_elapsed s = (if s < 60 then show_nat s @ ''s'' else show_nat (s div 60) @ ''m'' @ show_nat (s mod 60) @ ''s'')"

definition status_entry_line :: "int \<Rightarrow> SessionStatusEntry \<Rightarrow> string" where
  "status_entry_line now e =
     (let snippet = unwrap_or ([CHR 0xEF, CHR 0xBC, CHR 0x88, CHR 0xE6, CHR 0x97, CHR 0xA0, CHR 0xE6, CHR 0xB6, CHR 0x88, CHR 0xE6,
     CHR 0x81, CHR 0xAF, CHR 0xE8, CHR 0xAE, CHR 0xB0, CHR 0xE5, CHR 0xBD, CHR 0x95, CHR 0xEF, CHR 0xBC,
     CHR 0x89]) (se_last_user e);
          truncated = (if chars_count snippet > 30 then chars_take 30 snippet @ [CHR 0xE2, CHR 0x80, CHR 0xA6] else snippet);
          elapsed = unwrap_or [] (map_option (\<lambda>t. '' ('' @ format_elapsed (parse_elapsed_secs now t) @ '')'') (se_user_at e));
          tag = (if se_waiting e then ('' '' @ [CHR 0xE2, CHR 0x8F, CHR 0xB3]) @ elapsed else [])
      in (''  '' @ [CHR 0xE2, CHR 0x94, CHR 0x94] @ '' ['') @ se_session e @ '']'' @ tag @ '' '' @ truncated)"

definition status_client_lines :: "int \<Rightarrow> string \<times> SessionStatusEntry list \<Rightarrow> string list" where
  "status_client_lines now c = (case c of (nm, entries) \<Rightarrow>
     if entries = [] then [([CHR 0xF0, CHR 0x9F, CHR 0x9F, CHR 0xA2] @ '' '' @ [CHR 0x60]) @ nm @ ([CHR 0x60, CHR 0x0A] @ ''  '' @ [CHR 0xE2, CHR 0x94, CHR 0x94] @ '' '' @ [CHR 0xEF, CHR 0xBC,
     CHR 0x88, CHR 0xE6, CHR 0x97, CHR 0xA0, CHR 0xE4, CHR 0xBC, CHR 0x9A, CHR 0xE8, CHR 0xAF, CHR 0x9D,
     CHR 0xE8, CHR 0xAE, CHR 0xB0, CHR 0xE5, CHR 0xBD, CHR 0x95, CHR 0xEF, CHR 0xBC, CHR 0x89])]
     else (([CHR 0xF0, CHR 0x9F, CHR 0x9F, CHR 0xA2] @ '' '' @ [CHR 0x60]) @ nm @ [CHR 0x60]) # map (status_entry_line now) entries)"

definition hub_status :: "int \<Rightarrow> nat \<Rightarrow> nat \<Rightarrow> (string \<times> SessionStatusEntry list) list \<Rightarrow> string" where
  "hub_status now n_online n_total client_sessions =
     (let head = (''iLink Hub '' @ [CHR 0xE7, CHR 0x8A, CHR 0xB6, CHR 0xE6, CHR 0x80, CHR 0x81, CHR 0xEF, CHR 0xBC,
     CHR 0x9A]) @ show_nat n_online @ ''/'' @ show_nat n_total @ ('' '' @ [CHR 0xE4, CHR 0xB8, CHR 0xAA, CHR 0xE5, CHR 0xAE, CHR 0xA2, CHR 0xE6, CHR 0x88, CHR 0xB7,
     CHR 0xE7, CHR 0xAB, CHR 0xAF, CHR 0xE5, CHR 0x9C, CHR 0xA8, CHR 0xE7, CHR 0xBA, CHR 0xBF])
      in join [CHR 0x0A] (if client_sessions = [] then [head]
           else [head, [], (''**'' @ [CHR 0xE4, CHR 0xBC, CHR 0x9A, CHR 0xE8, CHR 0xAF, CHR 0x9D, CHR 0xE5, CHR 0x88, CHR 0x97,
     CHR 0xE8, CHR 0xA1, CHR 0xA8, CHR 0xEF, CHR 0xBC, CHR 0x9A] @ ''**'')] @ concat (map (status_client_lines now) client_sessions)))"

section \<open>Help and redaction\<close>

definition build_help_text :: string where
  "build_help_text = (''iLink Hub '' @ [CHR 0xE5, CHR 0xB8, CHR 0xAE, CHR 0xE5, CHR 0x8A, CHR 0xA9, CHR 0x0A, CHR 0x0A,
     CHR 0xE5, CHR 0x8F, CHR 0xAF, CHR 0xE7, CHR 0x94, CHR 0xA8, CHR 0xE6, CHR 0x8C, CHR 0x87, CHR 0xE4,
     CHR 0xBB, CHR 0xA4, CHR 0xEF, CHR 0xBC, CHR 0x88, CHR 0xE6, CHR 0x8B, CHR 0xAC, CHR 0xE5, CHR 0x8F,
     CHR 0xB7, CHR 0xE5, CHR 0x86, CHR 0x85, CHR 0xE4, CHR 0xB8, CHR 0xBA, CHR 0xE7, CHR 0xBC, CHR 0xA9,
     CHR 0xE5, CHR 0x86, CHR 0x99, CHR 0xEF, CHR 0xBC, CHR 0x89, CHR 0xEF, CHR 0xBC, CHR 0x9A,
     CHR 0x0A] @ ''/status'' @ [CHR 0xEF, CHR 0xBC, CHR 0x88] @ ''/s'' @ [CHR 0xEF, CHR 0xBC, CHR 0x89,
     CHR 0xE2, CHR 0x80, CHR 0x94] @ '' '' @ [CHR 0xE6, CHR 0x9F, CHR 0xA5, CHR 0xE7, CHR 0x9C, CHR 0x8B,
     CHR 0xE5, CHR 0xBD, CHR 0x93, CHR 0xE5, CHR 0x89, CHR 0x8D] @ '' Hub '' @ [CHR 0xE7, CHR 0x8A,
     CHR 0xB6, CHR 0xE6, CHR 0x80, CHR 0x81, CHR 0x0A] @ ''/list'' @ [CHR 0xEF, CHR 0xBC, CHR 0x88] @
     ''/ls'' @ [CHR 0xEF, CHR 0xBC, CHR 0x89, CHR 0xE2, CHR 0x80, CHR 0x94] @ '' '' @ [CHR 0xE5,
     CHR 0x88, CHR 0x97, CHR 0xE5, CHR 0x87, CHR 0xBA, CHR 0xE6, CHR 0x89, CHR 0x80, CHR 0xE6, CHR 0x9C,
     CHR 0x89, CHR 0xE5, CHR 0xB7, CHR 0xB2, CHR 0xE6, CHR 0xB3, CHR 0xA8, CHR 0xE5, CHR 0x86, CHR 0x8C,
     CHR 0xE7, CHR 0x9A, CHR 0x84] @ '' AI '' @ [CHR 0xE5, CHR 0x90, CHR 0x8E, CHR 0xE7, CHR 0xAB,
     CHR 0xAF, CHR 0x0A] @ ''/use <'' @ [CHR 0xE5, CHR 0x90, CHR 0x8D, CHR 0xE7, CHR 0xA7, CHR 0xB0,
     CHR 0xE6, CHR 0x88, CHR 0x96, CHR 0xE5, CHR 0xBA, CHR 0x8F, CHR 0xE5, CHR 0x8F, CHR 0xB7] @ ''>'' @
     [CHR 0xEF, CHR 0xBC, CHR 0x88] @ ''/u <'' @ [CHR 0xE5, CHR 0x90, CHR 0x8D, CHR 0xE7, CHR 0xA7,
     CHR 0xB0, CHR 0xE6, CHR 0x88, CHR 0x96, CHR 0xE5, CHR 0xBA, CHR 0x8F, CHR 0xE5, CHR 0x8F,
     CHR 0xB7] @ ''>'' @ [CHR 0xEF, CHR 0xBC, CHR 0x89, CHR 0xE2, CHR 0x80, CHR 0x94] @ '' '' @
     [CHR 0xE5, CHR 0x88, CHR 0x87, CHR 0xE6, CHR 0x8D, CHR 0xA2, CHR 0xE5, CHR 0x88, CHR 0xB0, CHR 0xE6,
     CHR 0x8C, CHR 0x87, CHR 0xE5, CHR 0xAE, CHR 0x9A, CHR 0xE7, CHR 0x9A, CHR 0x84] @ '' AI '' @
     [CHR 0xE5, CHR 0x90, CHR 0x8E, CHR 0xE7, CHR 0xAB, CHR 0xAF, CHR 0x0A] @ ''/help'' @ [CHR 0xEF,
     CHR 0xBC, CHR 0x88] @ ''/h'' @ [CHR 0xEF, CHR 0xBC, CHR 0x89, CHR 0xE2, CHR 0x80, CHR 0x94] @
     '' '' @ [CHR 0xE6, CHR 0x98, CHR 0xBE, CHR 0xE7, CHR 0xA4, CHR 0xBA, CHR 0xE6, CHR 0xAD, CHR 0xA4,
     CHR 0xE5, CHR 0xB8, CHR 0xAE, CHR 0xE5, CHR 0x8A, CHR 0xA9, CHR 0x0A, CHR 0x0A] @ ''Session '' @
     [CHR 0xE7, CHR 0xAE, CHR 0xA1, CHR 0xE7, CHR 0x90, CHR 0x86, CHR 0xEF, CHR 0xBC, CHR 0x88, CHR 0xE5,
     CHR 0x90, CHR 0x8C, CHR 0xE4, CHR 0xB8, CHR 0x80, CHR 0xE5, CHR 0x90, CHR 0x8E, CHR 0xE7, CHR 0xAB,
     CHR 0xAF, CHR 0xE4, CHR 0xB8, CHR 0x8B, CHR 0xE7, CHR 0x9A, CHR 0x84, CHR 0xE5, CHR 0xA4, CHR 0x9A,
     CHR 0xE4, CHR 0xBC, CHR 0x9A, CHR 0xE8, CHR 0xAF, CHR 0x9D, CHR 0xEF, CHR 0xBC, CHR 0x89, CHR 0xEF,
     CHR 0xBC, CHR 0x9A, CHR 0x0A] @ ''/session list'' @ [CHR 0xEF, CHR 0xBC, CHR 0x88] @ ''/sl'' @
     [CHR 0xEF, CHR 0xBC, CHR 0x89, CHR 0xE2, CHR 0x80, CHR 0x94] @ '' '' @ [CHR 0xE5, CHR 0x88,
     CHR 0x97, CHR 0xE5, CHR 0x87, CHR 0xBA, CHR 0xE5, CHR 0xBD, CHR 0x93, CHR 0xE5, CHR 0x89, CHR 0x8D,
     CHR 0xE5, CHR 0xAF, CHR 0xB9, CHR 0xE8, CHR 0xAF, CHR 0x9D, CHR 0xE7, CHR 0x9A, CHR 0x84, CHR 0xE6,
     CHR 0x89, CHR 0x80, CHR 0xE6, CHR 0x9C, CHR 0x89] @ '' sessions'' @ [CHR 0x0A] @
     ''/session new <'' @ [CHR 0xE5, CHR 0x90, CHR 0x8D, CHR 0xE7, CHR 0xA7, CHR 0xB0] @ ''> [UUID]'' @
     [CHR 0xEF, CHR 0xBC, CHR 0x88] @ ''/sn <'' @ [CHR 0xE5, CHR 0x90, CHR 0x8D, CHR 0xE7, CHR 0xA7,
     CHR 0xB0] @ ''>'' @ [CHR 0xEF, CHR 0xBC, CHR 0x89, CHR 0xE2, CHR 0x80, CHR 0x94] @ '' '' @
     [CHR 0xE5, CHR 0x88, CHR 0x9B, CHR 0xE5, CHR 0xBB, CHR 0xBA, CHR 0xE6, CHR 0x96, CHR 0xB0] @
     '' session'' @ [CHR 0xEF, CHR 0xBC, CHR 0x88, CHR 0xE5, CHR 0x8F, CHR 0xAF, CHR 0xE9, CHR 0x80,
     CHR 0x89, CHR 0xE5, CHR 0x88, CHR 0x9D, CHR 0xE5, CHR 0xA7, CHR 0x8B] @ '' UUID'' @ [CHR 0xEF,
     CHR 0xBC, CHR 0x89, CHR 0x0A] @ ''/session use <'' @ [CHR 0xE5, CHR 0x90, CHR 0x8D, CHR 0xE7,
     CHR 0xA7, CHR 0xB0] @ ''>'' @ [CHR 0xEF, CHR 0xBC, CHR 0x88] @ ''/su <'' @ [CHR 0xE5, CHR 0x90,
     CHR 0x8D, CHR 0xE7, CHR 0xA7, CHR 0xB0] @ ''>'' @ [CHR 0xEF, CHR 0xBC, CHR 0x89, CHR 0xE2, CHR 0x80,
     CHR 0x94] @ '' '' @ [CHR 0xE5, CHR 0x88, CHR 0x87, CHR 0xE6, CHR 0x8D, CHR 0xA2, CHR 0xE5, CHR 0x88,
     CHR 0xB0, CHR 0xE6, CHR 0x8C, CHR 0x87, CHR 0xE5, CHR 0xAE, CHR 0x9A] @ '' session'' @ [CHR 0x0A] @
     ''/session delete <'' @ [CHR 0xE5, CHR 0x90, CHR 0x8D, CHR 0xE7, CHR 0xA7, CHR 0xB0] @ ''>'' @
     [CHR 0xEF, CHR 0xBC, CHR 0x88] @ ''/sd <'' @ [CHR 0xE5, CHR 0x90, CHR 0x8D, CHR 0xE7, CHR 0xA7,
     CHR 0xB0] @ ''>'' @ [CHR 0xEF, CHR 0xBC, CHR 0x89, CHR 0xE2, CHR 0x80, CHR 0x94] @ '' '' @
     [CHR 0xE5, CHR 0x88, CHR 0xA0, CHR 0xE9, CHR 0x99, CHR 0xA4, CHR 0xE6, CHR 0x8C, CHR 0x87, CHR 0xE5,
     CHR 0xAE, CHR 0x9A] @ '' session'' @ [CHR 0x0A, CHR 0x0A, CHR 0xE5, CHR 0xBF, CHR 0xAB, CHR 0xE6,
     CHR 0x8D, CHR 0xB7] @ '' @ '' @ [CHR 0xE5, CHR 0x90, CHR 0x8E, CHR 0xE7, CHR 0xAB, CHR 0xAF,
     CHR 0xEF, CHR 0xBC, CHR 0x9A, CHR 0xE5, CHR 0x8F, CHR 0x91, CHR 0xE9, CHR 0x80, CHR 0x81] @ '' '' @
     [CHR 0x60] @ ''@<'' @ [CHR 0xE5, CHR 0x90, CHR 0x8D, CHR 0xE7, CHR 0xA7, CHR 0xB0, CHR 0xE6,
     CHR 0x88, CHR 0x96, CHR 0xE5, CHR 0xBA, CHR 0x8F, CHR 0xE5, CHR 0x8F, CHR 0xB7] @ ''> <'' @
     [CHR 0xE6, CHR 0xB6, CHR 0x88, CHR 0xE6, CHR 0x81, CHR 0xAF] @ ''>'' @ [CHR 0x60] @ '' '' @
     [CHR 0xE5, CHR 0x8F, CHR 0xAF, CHR 0xE4, CHR 0xB8, CHR 0xB4, CHR 0xE6, CHR 0x97, CHR 0xB6, CHR 0xE5,
     CHR 0x9C, CHR 0xA8, CHR 0xE8, CHR 0xAF, CHR 0xA5, CHR 0xE5, CHR 0x90, CHR 0x8E, CHR 0xE7, CHR 0xAB,
     CHR 0xAF, CHR 0xE4, CHR 0xB8, CHR 0x8A] @ ''**'' @ [CHR 0xE6, CHR 0x96, CHR 0xB0, CHR 0xE5,
     CHR 0xBB, CHR 0xBA, CHR 0xE4, CHR 0xB8, CHR 0x80, CHR 0xE4, CHR 0xB8, CHR 0xAA, CHR 0xE4, CHR 0xBC,
     CHR 0x9A, CHR 0xE8, CHR 0xAF, CHR 0x9D] @ ''**'' @ [CHR 0xE5, CHR 0xB9, CHR 0xB6, CHR 0xE5,
     CHR 0x8F, CHR 0x91, CHR 0xE9, CHR 0x80, CHR 0x81, CHR 0xE6, CHR 0xAD, CHR 0xA4, CHR 0xE6, CHR 0xB6,
     CHR 0x88, CHR 0xE6, CHR 0x81, CHR 0xAF, CHR 0xEF, CHR 0xBC, CHR 0x8C, CHR 0xE4, CHR 0xB8, CHR 0x8D,
     CHR 0xE4, CHR 0xBC, CHR 0x9A, CHR 0xE6, CHR 0x94, CHR 0xB9, CHR 0xE5, CHR 0x8F, CHR 0x98, CHR 0xE4,
     CHR 0xBD, CHR 0xA0, CHR 0xE5, CHR 0xBD, CHR 0x93, CHR 0xE5, CHR 0x89, CHR 0x8D] @ '' /use '' @
     [CHR 0xE7, CHR 0x9A, CHR 0x84, CHR 0xE5, CHR 0x90, CHR 0x8E, CHR 0xE7, CHR 0xAB, CHR 0xAF, CHR 0xE5,
     CHR 0x92, CHR 0x8C, CHR 0xE6, CHR 0xB4, CHR 0xBB, CHR 0xE8, CHR 0xB7, CHR 0x83] @ '' session'' @
     [CHR 0xEF, CHR 0xBC, CHR 0x88, CHR 0xE4, CHR 0xB8, CHR 0x8E, CHR 0xE5, CHR 0xBC, CHR 0x95, CHR 0xE7,
     CHR 0x94, CHR 0xA8, CHR 0xE5, CHR 0x9B, CHR 0x9E, CHR 0xE5, CHR 0xA4, CHR 0x8D, CHR 0xE7, CHR 0xB1,
     CHR 0xBB, CHR 0xE4, CHR 0xBC, CHR 0xBC, CHR 0xE7, CHR 0x9A, CHR 0x84, CHR 0xE4, CHR 0xB8, CHR 0xB4,
     CHR 0xE6, CHR 0x97, CHR 0xB6, CHR 0xE6, CHR 0x93, CHR 0x8D, CHR 0xE4, CHR 0xBD, CHR 0x9C, CHR 0xEF,
     CHR 0xBC, CHR 0x89, CHR 0xE3, CHR 0x80, CHR 0x82, CHR 0xE5, CHR 0x90, CHR 0x8D, CHR 0xE7, CHR 0xA7,
     CHR 0xB0, CHR 0xE4, CHR 0xB8, CHR 0x8E] @ '' /use '' @ [CHR 0xE4, CHR 0xBD, CHR 0xBF, CHR 0xE7,
     CHR 0x94, CHR 0xA8, CHR 0xE7, CHR 0x9A, CHR 0x84, CHR 0xE5, CHR 0x90, CHR 0x8D, CHR 0xE7, CHR 0xA7,
     CHR 0xB0, CHR 0xE4, CHR 0xB8, CHR 0x80, CHR 0xE8, CHR 0x87, CHR 0xB4, CHR 0xEF, CHR 0xBC, CHR 0x88,
     CHR 0xE5, CHR 0x8F, CHR 0xAF, CHR 0xE7, CHR 0x94, CHR 0xA8] @ '' /list '' @ [CHR 0xE6, CHR 0x9F,
     CHR 0xA5, CHR 0xE7, CHR 0x9C, CHR 0x8B, CHR 0xEF, CHR 0xBC, CHR 0x8C, CHR 0xE5, CHR 0xBA, CHR 0x8F,
     CHR 0xE5, CHR 0x8F, CHR 0xB7, CHR 0xE5, CHR 0x8D, CHR 0xB3] @ '' /list '' @ [CHR 0xE4, CHR 0xB8,
     CHR 0xAD, CHR 0xE7, CHR 0x9A, CHR 0x84, CHR 0xE7, CHR 0xBC, CHR 0x96, CHR 0xE5, CHR 0x8F, CHR 0xB7,
     CHR 0xEF, CHR 0xBC, CHR 0x89, CHR 0xEF, CHR 0xBC, CHR 0x9B, CHR 0xE5, CHR 0x90, CHR 0x8D, CHR 0xE7,
     CHR 0xA7, CHR 0xB0, CHR 0xE5, CHR 0x8F, CHR 0x96, CHR 0xE7, CHR 0xAC, CHR 0xAC, CHR 0xE4, CHR 0xB8,
     CHR 0x80, CHR 0xE4, CHR 0xB8, CHR 0xAA, CHR 0xE7, CHR 0xA9, CHR 0xBA, CHR 0xE6, CHR 0xA0, CHR 0xBC,
     CHR 0xE4, CHR 0xB9, CHR 0x8B, CHR 0xE5, CHR 0x89, CHR 0x8D, CHR 0xE7, CHR 0x9A, CHR 0x84, CHR 0xE9,
     CHR 0x83, CHR 0xA8, CHR 0xE5, CHR 0x88, CHR 0x86, CHR 0xEF, CHR 0xBC, CHR 0x8C, CHR 0xE5, CHR 0x85,
     CHR 0xB6, CHR 0xE4, CHR 0xBD, CHR 0x99, CHR 0xE4, CHR 0xB8, CHR 0xBA, CHR 0xE6, CHR 0xB6, CHR 0x88,
     CHR 0xE6, CHR 0x81, CHR 0xAF, CHR 0xE5, CHR 0x86, CHR 0x85, CHR 0xE5, CHR 0xAE, CHR 0xB9, CHR 0xE3,
     CHR 0x80, CHR 0x82, CHR 0xE9, CHR 0x9C, CHR 0x80, CHR 0xE8, CHR 0xA6, CHR 0x81, CHR 0xE7, CHR 0xBB,
     CHR 0xA7, CHR 0xE7, CHR 0xBB, CHR 0xAD, CHR 0xE8, CHR 0xBF, CHR 0x99, CHR 0xE4, CHR 0xB8, CHR 0xAA,
     CHR 0xE4, CHR 0xB8, CHR 0xB4, CHR 0xE6, CHR 0x97, CHR 0xB6, CHR 0xE4, CHR 0xBC, CHR 0x9A, CHR 0xE8,
     CHR 0xAF, CHR 0x9D, CHR 0xE6, CHR 0x97, CHR 0xB6, CHR 0xEF, CHR 0xBC, CHR 0x8C, CHR 0xE5, CHR 0xBC,
     CHR 0x95, CHR 0xE7, CHR 0x94, CHR 0xA8, CHR 0xE5, CHR 0xAE, CHR 0x83, CHR 0xE7, CHR 0x9A, CHR 0x84,
     CHR 0xE5, CHR 0x9B, CHR 0x9E, CHR 0xE5, CHR 0xA4, CHR 0x8D, CHR 0xE5, CHR 0x8D, CHR 0xB3, CHR 0xE5,
     CHR 0x8F, CHR 0xAF, CHR 0xE3, CHR 0x80, CHR 0x82, CHR 0x0A, CHR 0x0A, CHR 0xE5, CHR 0xBC, CHR 0x95,
     CHR 0xE7, CHR 0x94, CHR 0xA8, CHR 0xE5, CHR 0x9B, CHR 0x9E, CHR 0xE5, CHR 0xA4, CHR 0x8D, CHR 0xEF,
     CHR 0xBC, CHR 0x9A, CHR 0xE5, CHR 0xBC, CHR 0x95, CHR 0xE7, CHR 0x94, CHR 0xA8, CHR 0xE6, CHR 0x9F,
     CHR 0x90, CHR 0xE6, CHR 0x9D, CHR 0xA1, CHR 0xE6, CHR 0x9C, CHR 0xBA, CHR 0xE5, CHR 0x99, CHR 0xA8,
     CHR 0xE4, CHR 0xBA, CHR 0xBA, CHR 0xE6, CHR 0xB6, CHR 0x88, CHR 0xE6, CHR 0x81, CHR 0xAF, CHR 0xE5,
     CHR 0x90, CHR 0x8E, CHR 0xE5, CHR 0x8F, CHR 0x91, CHR 0xE9, CHR 0x80, CHR 0x81, CHR 0xE7, CHR 0x9A,
     CHR 0x84, CHR 0xE5, CHR 0x86, CHR 0x85, CHR 0xE5, CHR 0xAE, CHR 0xB9, CHR 0xEF, CHR 0xBC, CHR 0x8C,
     CHR 0xE4, CHR 0xBC, CHR 0x9A, CHR 0xE4, CHR 0xBC, CHR 0x98, CHR 0xE5, CHR 0x85, CHR 0x88, CHR 0xE8,
     CHR 0xB7, CHR 0xAF, CHR 0xE7, CHR 0x94, CHR 0xB1, CHR 0xE5, CHR 0x88, CHR 0xB0, CHR 0xE5, CHR 0x8F,
     CHR 0x91, CHR 0xE5, CHR 0x87, CHR 0xBA, CHR 0xE8, CHR 0xAF, CHR 0xA5, CHR 0xE6, CHR 0x9D, CHR 0xA1,
     CHR 0xE6, CHR 0xB6, CHR 0x88, CHR 0xE6, CHR 0x81, CHR 0xAF, CHR 0xE7, CHR 0x9A, CHR 0x84, CHR 0xE5,
     CHR 0x90, CHR 0x8E, CHR 0xE7, CHR 0xAB, CHR 0xAF, CHR 0xEF, CHR 0xBC, CHR 0x88, CHR 0xE6, CHR 0x88,
     CHR 0x96] @ '' Hub '' @ [CHR 0xE6, CHR 0x8C, CHR 0x87, CHR 0xE4, CHR 0xBB, CHR 0xA4, CHR 0xE7,
     CHR 0xBB, CHR 0x93, CHR 0xE6, CHR 0x9E, CHR 0x9C, CHR 0xEF, CHR 0xBC, CHR 0x89, CHR 0xEF, CHR 0xBC,
     CHR 0x8C, CHR 0xE4, CHR 0xB8, CHR 0x8D, CHR 0xE5, CHR 0xBF, CHR 0x85, CHR 0xE4, CHR 0xBE, CHR 0x9D,
     CHR 0xE8, CHR 0xB5, CHR 0x96, CHR 0xE5, CHR 0xBD, CHR 0x93, CHR 0xE5, CHR 0x89, CHR 0x8D] @
     '' /use'' @ [CHR 0xE3, CHR 0x80, CHR 0x82, CHR 0x0A, CHR 0xE5, CHR 0xA4, CHR 0x9A, CHR 0xE5,
     CHR 0x90, CHR 0x8E, CHR 0xE7, CHR 0xAB, CHR 0xAF, CHR 0xE6, CHR 0x97, CHR 0xB6, CHR 0xEF, CHR 0xBC,
     CHR 0x8C, CHR 0xE5, CHR 0x90, CHR 0x84, CHR 0xE5, CHR 0x90, CHR 0x8E, CHR 0xE7, CHR 0xAB, CHR 0xAF,
     CHR 0xE5, CHR 0x9B, CHR 0x9E, CHR 0xE5, CHR 0xA4, CHR 0x8D, CHR 0xE6, CHR 0x9C, CHR 0xAB, CHR 0xE5,
     CHR 0xB0, CHR 0xBE, CHR 0xE5, CHR 0x8F, CHR 0xAF, CHR 0xE8, CHR 0x83, CHR 0xBD, CHR 0xE5, CHR 0xB8,
     CHR 0xA6, CHR 0xE6, CHR 0x9C, CHR 0x89, CHR 0xE3, CHR 0x80, CHR 0x8C, CHR 0xE2, CHR 0x80,
     CHR 0x94] @ '' '' @ [CHR 0xE5, CHR 0xB7, CHR 0xA5, CHR 0xE4, CHR 0xBD, CHR 0x9C, CHR 0xE5, CHR 0x8C,
     CHR 0xBA, CHR 0xE5, CHR 0x90, CHR 0x8D, CHR 0xE3, CHR 0x80, CHR 0x8D, CHR 0xE5, CHR 0xB1, CHR 0x95,
     CHR 0xE7, CHR 0xA4, CHR 0xBA, CHR 0xE8, CHR 0xA1, CHR 0x8C, CHR 0xEF, CHR 0xBC, CHR 0x88, CHR 0xE4,
     CHR 0xBB, CHR 0x85] @ ''**'' @ [CHR 0xE5, CHR 0x90, CHR 0x8C, CHR 0xE6, CHR 0x97, CHR 0xB6,
     CHR 0xE5, CHR 0x9C, CHR 0xA8, CHR 0xE7, CHR 0xBA, CHR 0xBF] @ ''**'' @ [CHR 0xE7, CHR 0x9A,
     CHR 0x84, CHR 0xE5, CHR 0x90, CHR 0x8E, CHR 0xE7, CHR 0xAB, CHR 0xAF, CHR 0xE5, CHR 0xA4, CHR 0x9A,
     CHR 0xE4, CHR 0xBA, CHR 0x8E, CHR 0xE4, CHR 0xB8, CHR 0x80, CHR 0xE4, CHR 0xB8, CHR 0xAA, CHR 0xE6,
     CHR 0x97, CHR 0xB6, CHR 0xE9, CHR 0xBB, CHR 0x98, CHR 0xE8, CHR 0xAE, CHR 0xA4, CHR 0xE8, CHR 0xBF,
     CHR 0xBD, CHR 0xE5, CHR 0x8A, CHR 0xA0, CHR 0xEF, CHR 0xBC, CHR 0x9B, CHR 0xE5, CHR 0x8E, CHR 0x86,
     CHR 0xE5, CHR 0x8F, CHR 0xB2, CHR 0xE6, CHR 0xB3, CHR 0xA8, CHR 0xE5, CHR 0x86, CHR 0x8C, CHR 0xE4,
     CHR 0xBD, CHR 0x86, CHR 0xE7, CHR 0xA6, CHR 0xBB, CHR 0xE7, CHR 0xBA, CHR 0xBF, CHR 0xE7, CHR 0x9A,
     CHR 0x84, CHR 0xE5, CHR 0xAE, CHR 0xA2, CHR 0xE6, CHR 0x88, CHR 0xB7, CHR 0xE7, CHR 0xAB, CHR 0xAF,
     CHR 0xE4, CHR 0xB8, CHR 0x8D, CHR 0xE8, CHR 0xAE, CHR 0xA1, CHR 0xE5, CHR 0x85, CHR 0xA5, CHR 0xEF,
     CHR 0xBC, CHR 0x89, CHR 0xE3, CHR 0x80, CHR 0x82, CHR 0xE5, CHR 0x8F, CHR 0xAF, CHR 0xE7, CHR 0x94,
     CHR 0xA8, CHR 0xE7, CHR 0x8E, CHR 0xAF, CHR 0xE5, CHR 0xA2, CHR 0x83, CHR 0xE5, CHR 0x8F, CHR 0x98,
     CHR 0xE9, CHR 0x87, CHR 0x8F] @ '' ILINKHUB_OUTBOUND_ORIGIN_LABEL '' @ [CHR 0xE5, CHR 0xBC,
     CHR 0xBA, CHR 0xE5, CHR 0x88, CHR 0xB6, CHR 0xE5, CHR 0x85, CHR 0xB3] @ ''/'' @ [CHR 0xE5, CHR 0xBC,
     CHR 0x80, CHR 0xE3, CHR 0x80, CHR 0x82, CHR 0x0A, CHR 0x0A, CHR 0xE5, CHR 0x85, CHR 0xB3, CHR 0xE4,
     CHR 0xBA, CHR 0x8E] @ '' iLink Hub'' @ [CHR 0xEF, CHR 0xBC, CHR 0x9A, CHR 0x0A, CHR 0xE6, CHR 0x9C,
     CHR 0xAC, CHR 0xE6, CHR 0x9C, CHR 0x8D, CHR 0xE5, CHR 0x8A, CHR 0xA1, CHR 0xE6, CHR 0x98, CHR 0xAF,
     CHR 0xE4, CHR 0xB8, CHR 0x80, CHR 0xE4, CHR 0xB8, CHR 0xAA, CHR 0xE6, CHR 0xB6, CHR 0x88, CHR 0xE6,
     CHR 0x81, CHR 0xAF, CHR 0xE8, CHR 0xB7, CHR 0xAF, CHR 0xE7, CHR 0x94, CHR 0xB1, CHR 0xE4, CHR 0xB8,
     CHR 0xAD, CHR 0xE6, CHR 0x9E, CHR 0xA2, CHR 0xEF, CHR 0xBC, CHR 0x8C, CHR 0xE5, CHR 0x8F, CHR 0xAF,
     CHR 0xE5, CHR 0xB0, CHR 0x86, CHR 0xE6, CHR 0x82, CHR 0xA8, CHR 0xE7, CHR 0x9A, CHR 0x84, CHR 0xE5,
     CHR 0xBE, CHR 0xAE, CHR 0xE4, CHR 0xBF, CHR 0xA1, CHR 0xE6, CHR 0xB6, CHR 0x88, CHR 0xE6, CHR 0x81,
     CHR 0xAF, CHR 0xE8, CHR 0xBD, CHR 0xAC, CHR 0xE5, CHR 0x8F, CHR 0x91, CHR 0xE7, CHR 0xBB, CHR 0x99,
     CHR 0xE5, CHR 0xB7, CHR 0xB2, CHR 0xE6, CHR 0x8E, CHR 0xA5, CHR 0xE5, CHR 0x85, CHR 0xA5, CHR 0xE7,
     CHR 0x9A, CHR 0x84] @ '' AI '' @ [CHR 0xE5, CHR 0x8A, CHR 0xA9, CHR 0xE6, CHR 0x89, CHR 0x8B,
     CHR 0xE5, CHR 0x90, CHR 0x8E, CHR 0xE7, CHR 0xAB, CHR 0xAF, CHR 0xE8, CHR 0xBF, CHR 0x9B, CHR 0xE8,
     CHR 0xA1, CHR 0x8C, CHR 0xE5, CHR 0xA4, CHR 0x84, CHR 0xE7, CHR 0x90, CHR 0x86, CHR 0xE3, CHR 0x80,
     CHR 0x82, CHR 0x0A, CHR 0x0A, CHR 0xE7, CHR 0xAE, CHR 0xA1, CHR 0xE7, CHR 0x90, CHR 0x86, CHR 0xE5,
     CHR 0x91, CHR 0x98, CHR 0xE6, CHR 0x8E, CHR 0xA5, CHR 0xE5, CHR 0x85, CHR 0xA5, CHR 0xE6, CHR 0x8C,
     CHR 0x87, CHR 0xE5, CHR 0x8D, CHR 0x97, CHR 0xEF, CHR 0xBC, CHR 0x9A, CHR 0x0A] @ ''1. '' @
     [CHR 0xE9, CHR 0x83, CHR 0xA8, CHR 0xE7, CHR 0xBD, CHR 0xB2, CHR 0xE5, CHR 0xB9, CHR 0xB6, CHR 0xE5,
     CHR 0x90, CHR 0xAF, CHR 0xE5, CHR 0x8A, CHR 0xA8] @ '' ilink-hub serve'' @ [CHR 0x0A] @ ''2. '' @
     [CHR 0xE8, CHR 0xBF, CHR 0x90, CHR 0xE8, CHR 0xA1, CHR 0x8C] @ '' ilink-hub register --name <'' @
     [CHR 0xE5, CHR 0x90, CHR 0x8D, CHR 0xE7, CHR 0xA7, CHR 0xB0] @ ''> '' @ [CHR 0xE6, CHR 0xB3,
     CHR 0xA8, CHR 0xE5, CHR 0x86, CHR 0x8C, CHR 0xE5, CHR 0x90, CHR 0x8E, CHR 0xE7, CHR 0xAB, CHR 0xAF,
     CHR 0x0A] @ ''3. '' @ [CHR 0xE5, CHR 0xB0, CHR 0x86, CHR 0xE8, CHR 0xBE, CHR 0x93, CHR 0xE5,
     CHR 0x87, CHR 0xBA, CHR 0xE7, CHR 0x9A, CHR 0x84] @ '' WEIXIN_TOKEN '' @ [CHR 0xE9, CHR 0x85,
     CHR 0x8D, CHR 0xE7, CHR 0xBD, CHR 0xAE, CHR 0xE5, CHR 0x88, CHR 0xB0, CHR 0xE6, CHR 0x82, CHR 0xA8,
     CHR 0xE7, CHR 0x9A, CHR 0x84] @ '' AI '' @ [CHR 0xE6, CHR 0x9C, CHR 0x8D, CHR 0xE5, CHR 0x8A,
     CHR 0xA1, CHR 0x0A] @ ''4. AI '' @ [CHR 0xE6, CHR 0x9C, CHR 0x8D, CHR 0xE5, CHR 0x8A, CHR 0xA1,
     CHR 0xE8, CHR 0xB0, CHR 0x83, CHR 0xE7, CHR 0x94, CHR 0xA8] @ '' /ilink/bot/getupdates '' @
     [CHR 0xE6, CHR 0x8E, CHR 0xA5, CHR 0xE6, CHR 0x94, CHR 0xB6, CHR 0xE6, CHR 0xB6, CHR 0x88, CHR 0xE6,
     CHR 0x81, CHR 0xAF, CHR 0xEF, CHR 0xBC, CHR 0x8C, CHR 0xE5, CHR 0xB9, CHR 0xB6, CHR 0xE9, CHR 0x80,
     CHR 0x9A, CHR 0xE8, CHR 0xBF, CHR 0x87] @ '' /ilink/bot/sendmessage '' @ [CHR 0xE5, CHR 0x9B,
     CHR 0x9E, CHR 0xE5, CHR 0xA4, CHR 0x8D])"

definition redact_token :: "string \<Rightarrow> string" where
  "redact_token t = chars_take 8 t @ [CHR 0xE2, CHR 0x80, CHR 0xA6]"

end
