(* ===== verification/Dispatch_Core.thy ===== *)
theory Dispatch_Core
  imports Hub_State Quote_Route Hub_Messages
begin

text \<open>
  The helpers of the dispatcher: virtual contexts and the hub's extension field
  (\<open>hub/dispatch/hub_ext.rs\<close>), queue pushes with their counters (\<open>hub/dispatch/queue.rs\<close>),
  \<open>@backend\<close> mentions (\<open>hub/dispatch/mention.rs\<close>) and the four layers of quote resolution
  (\<open>hub/dispatch/quote.rs\<close>).

  What a call reads from outside the hub is one record: the clock, generated identifiers, the choices
  the database makes among equal rows, the collation of \<open>LIKE\<close>, whether the history semaphore has a
  permit, and \<open>de_fault\<close>, which says for a store operation and the key it is called with whether it
  fails (or times out) with some error text.  A failed store call leaves the tables as they were.
  The history insert the source spawns as a task of its own is applied at the end of the call.
\<close>

section \<open>The environment of a call\<close>

record DispatchEnv =
  de_now :: int
  de_ts :: string  \<comment> \<open>the time stamp in a generated session name\<close>
  de_at :: string  \<comment> \<open>the time stamp in the session of a mention\<close>
  de_uuid :: "string \<Rightarrow> string \<Rightarrow> string"
  de_msg_id :: int
  de_fault :: "string \<Rightarrow> string \<Rightarrow> string option"
  de_scope_index :: bool  \<comment> \<open>the unique index on the conversation key exists\<close>
  de_tie :: "MessageRow list \<Rightarrow> MessageRow"
  de_newest :: "vtoken list \<Rightarrow> vtoken"
  de_like_ci :: bool
  de_permit :: bool

section \<open>Virtual contexts and the extension field\<close>

definition ephemeral_vctx :: "DispatchEnv \<Rightarrow> string \<Rightarrow> vctx" where
  "ephemeral_vctx env key = ''vctx_'' @ de_uuid env ''ephemeral'' key"

definition resolve_vctx_for_message ::
  "DispatchEnv \<Rightarrow> string \<Rightarrow> string \<Rightarrow> string \<Rightarrow> string option \<Rightarrow> HubState \<Rightarrow> vctx \<times> HubState" where
  "resolve_vctx_for_message env key rc peer gid h =
     (if de_fault env ''find_or_create_vctx'' key \<noteq> None then (ephemeral_vctx env key, h)
      else (case find_or_create_vctx (de_scope_index env) (de_uuid env ''upsert'' key) (de_uuid env ''insert'' key)
                   peer gid rc (hs_store h) of
          (Inr v, st) \<Rightarrow> (v, h\<lparr>hs_store := st\<rparr>)
        | (Inl _, st) \<Rightarrow> (ephemeral_vctx env key, h\<lparr>hs_store := st\<rparr>)))"

definition session_ext :: "string \<Rightarrow> string option \<Rightarrow> HubExt" where
  "session_ext n sid = HubExt_default\<lparr>ext_session_id := sid, ext_session_name := Some n\<rparr>"

definition build_hub_ext_for_vctx ::
  "DispatchEnv \<Rightarrow> Store \<Rightarrow> vctx \<Rightarrow> vtoken \<Rightarrow> string option \<Rightarrow> HubExt option" where
  "build_hub_ext_for_vctx env st v vt override =
     (case opt_filter (\<lambda>n. n \<noteq> []) override of
        Some n \<Rightarrow>
          (let sid = (if de_fault env ''get_backend_session'' vt \<noteq> None then None
                      else opt_filter (\<lambda>t. t \<noteq> []) (map_option trim (get_backend_session st v vt n)))
           in Some (session_ext n sid))
      | None \<Rightarrow>
          (let (n, sid) = (if de_fault env ''get_hub_ext_single'' vt \<noteq> None then (default_session, None)
                           else get_hub_ext_single st v vt)
           in Some (session_ext n sid)))"

definition build_no_backend_reply :: "string option \<Rightarrow> string" where
  "build_no_backend_reply user_text =
     (if (case user_text of None \<Rightarrow> False | Some t \<Rightarrow> starts_with (trim t) ''/'')
      then UNRECOGNIZED_COMMAND else NO_BACKEND_ONLINE)"

section \<open>Pushing to a backend's queue\<close>

definition count_push :: "bool \<Rightarrow> vtoken \<Rightarrow> HubMetrics \<Rightarrow> HubMetrics" where
  "count_push rejected vt m =
     (if rejected
      then m\<lparr>mt_dropped := mt_dropped m + 1,
             mt_rejected := hm_insert vt (unwrap_or 0 (map_of (mt_rejected m) vt) + 1) (mt_rejected m)\<rparr>
      else m\<lparr>mt_dispatched := mt_dispatched m + 1\<rparr>)"

definition push_to_queue :: "vtoken \<Rightarrow> WeixinMessage \<Rightarrow> HubState \<Rightarrow> HubState" where
  "push_to_queue vt msg h = (case queue_push (hs_queue h) vt msg of (rejected, q) \<Rightarrow>
     h\<lparr>hs_queue := q, hs_metrics := count_push rejected vt (hs_metrics h)\<rparr>)"

definition push_shared_to_queue :: "vtoken \<Rightarrow> WeixinMessage \<Rightarrow> string option \<Rightarrow> HubExt option \<Rightarrow> HubState \<Rightarrow> HubState" where
  "push_shared_to_queue vt base ctx ext h = (case queue_push_shared (hs_queue h) vt base ctx ext of (rejected, q) \<Rightarrow>
     h\<lparr>hs_queue := q, hs_metrics := count_push rejected vt (hs_metrics h)\<rparr>)"

definition grant_dispatch :: "DispatchEnv \<Rightarrow> vctx \<Rightarrow> vtoken \<Rightarrow> string \<Rightarrow> HubState \<Rightarrow> HubState" where
  "grant_dispatch env v vt sn h =
     (if de_fault env ''set_active_session_with_depth'' vt \<noteq> None then h
      else h\<lparr>hs_store := set_active_session_with_depth (de_now env) v vt sn 0 (hs_store h)\<rparr>)"

definition session_of_ext :: "HubExt option \<Rightarrow> string" where
  "session_of_ext ext = unwrap_or default_session (Option.bind ext ext_session_name)"

section \<open>Mentions\<close>

definition wechat_visible_in :: "HubState \<Rightarrow> string \<Rightarrow> string set option" where
  "wechat_visible_in h uid = wechat_visible (hs_acl h) uid (map name (all_clients (hs_registry h)))"

fun set_text_of_first :: "string \<Rightarrow> MessageItem list \<Rightarrow> MessageItem list" where
  "set_text_of_first t [] = []"
| "set_text_of_first t (it # its) = (case text_item it of
     Some ti \<Rightarrow> it\<lparr>text_item := Some (ti\<lparr>ti_text := Some t\<rparr>)\<rparr> # its
   | None \<Rightarrow> it # set_text_of_first t its)"

definition set_first_text_item :: "string \<Rightarrow> WeixinMessage \<Rightarrow> WeixinMessage" where
  "set_first_text_item t m = (case item_list m of None \<Rightarrow> m
     | Some items \<Rightarrow> m\<lparr>item_list := Some (set_text_of_first t items)\<rparr>)"

definition handle_at_mention :: "DispatchEnv \<Rightarrow> WeixinMessage \<Rightarrow> vtoken \<Rightarrow> string \<Rightarrow> HubState \<Rightarrow> HubState" where
  "handle_at_mention env msg vt payload h =
     (case opt_filter (\<lambda>c. c \<noteq> []) (context_token msg) of
        None \<Rightarrow> h
      | Some rc \<Rightarrow>
          (let (v, h1) = resolve_vctx_for_message env [] rc (unwrap_or [] (from_user_id msg)) (group_id msg) h;
               sn = ''at-'' @ de_at env;
               h2 = (if de_fault env ''set_backend_session'' vt \<noteq> None then h1
                     else h1\<lparr>hs_store := set_backend_session v vt sn [] (hs_store h1)\<rparr>);
               ext = build_hub_ext_for_vctx env (hs_store h2) v vt (Some sn)
           in push_to_queue vt ((set_first_text_item payload msg)\<lparr>context_token := Some v, ilink_hub_ext := ext\<rparr>) h2))"

section \<open>Quote resolution\<close>

definition derive_peer_scope :: "WeixinMessage \<Rightarrow> string option" where
  "derive_peer_scope m =
     (let g = unwrap_or [] (group_id m); u = unwrap_or [] (from_user_id m)
      in if g \<noteq> [] then Some (''group:'' @ g) else if u \<noteq> [] then Some (''peer:'' @ u) else None)"

definition parse_i64 :: "string \<Rightarrow> int option" where
  "parse_i64 s = (case s of
     c # cs \<Rightarrow> if c = CHR ''-'' then (if cs = [] then None else map_option (\<lambda>n. - int n) (parse_digits (2 ^ 63) 0 cs))
               else map_option int (parse_unsigned (2 ^ 63 - 1) s)
   | [] \<Rightarrow> None)"

text \<open>Integer division as the source's \<open>/\<close> on \<open>i64\<close>: towards zero.\<close>

definition trunc_div :: "int \<Rightarrow> int \<Rightarrow> int" where
  "trunc_div a b = (if a < 0 then - ((- a) div b) else a div b)"

definition origin_of_client :: "ClientRegistry \<Rightarrow> vtoken \<Rightarrow> string option \<Rightarrow> QuoteOrigin" where
  "origin_of_client r vt sn = (case get_by_vtoken r vt of
     Some c \<Rightarrow> OriginClient vt (name c) (label c) sn | None \<Rightarrow> OriginClient vt vt None sn)"

definition origin_of_hit :: "ClientRegistry \<Rightarrow> (vtoken \<times> string option) option \<Rightarrow> QuoteOrigin option" where
  "origin_of_hit r hit = (case hit of
     Some (vt, sn) \<Rightarrow> if vt \<noteq> [] then Some (origin_of_client r vt sn) else None | None \<Rightarrow> None)"

definition resolve_quote_from_msg_id :: "DispatchEnv \<Rightarrow> HubState \<Rightarrow> WeixinMessage \<Rightarrow> QuoteOrigin option" where
  "resolve_quote_from_msg_id env h m =
     Option.bind (collect_quoted_msg_id m) (\<lambda>raw.
     Option.bind (parse_i64 (trim raw)) (\<lambda>mid.
     Option.bind (derive_peer_scope m) (\<lambda>scope.
       if de_fault env ''find_assistant_message_by_msg_id'' scope \<noteq> None then None
       else origin_of_hit (hs_registry h) (find_assistant_message_by_msg_id (de_tie env) (hs_messages h) scope mid))))"

definition resolve_quote_from_timestamp :: "DispatchEnv \<Rightarrow> HubState \<Rightarrow> WeixinMessage \<Rightarrow> QuoteOrigin option" where
  "resolve_quote_from_timestamp env h m =
     Option.bind (collect_quoted_timestamp m) (\<lambda>ms.
     Option.bind (derive_peer_scope m) (\<lambda>scope.
       if de_fault env ''find_assistant_message_by_timestamp'' scope \<noteq> None then None
       else origin_of_hit (hs_registry h)
              (find_assistant_message_by_timestamp (de_tie env) (hs_messages h) scope (trunc_div ms 1000) 10)))"

definition resolve_quote_from_db :: "DispatchEnv \<Rightarrow> HubState \<Rightarrow> WeixinMessage \<Rightarrow> QuoteOrigin option" where
  "resolve_quote_from_db env h m =
     Option.bind (collect_quoted m) (\<lambda>(quoted_text, _).
     Option.bind (derive_peer_scope m) (\<lambda>scope.
       (let pre = chars_take 48 (trim quoted_text)
        in if pre = [] then None
           else if trim pre = [] then None
           else if de_fault env ''find_assistant_message_by_content'' scope \<noteq> None then None
           else origin_of_hit (hs_registry h)
                  (find_assistant_message_by_content (de_tie env) (de_like_ci env) (hs_messages h) scope pre))))"

definition resolve_quote_from_footer :: "DispatchEnv \<Rightarrow> HubState \<Rightarrow> WeixinMessage \<Rightarrow> QuoteOrigin option" where
  "resolve_quote_from_footer env h m =
     Option.bind (footer_from_user_quote m) (\<lambda>(nm, sn).
       (case get_by_name (hs_registry h) nm of
          Some c \<Rightarrow> Some (OriginClient (vtoken c) (name c) (label c) sn)
        | None \<Rightarrow>
            Option.bind (if session_like nm then Some nm else sn) (\<lambda>skey.
            Option.bind (derive_peer_scope m) (\<lambda>scope.
              if de_fault env ''find_vctx_for_scope'' scope \<noteq> None then None
              else Option.bind (find_vctx_for_scope scope (hs_store h)) (\<lambda>v.
                if de_fault env ''find_vtoken_for_session'' v \<noteq> None then None
                else map_option (\<lambda>vt. origin_of_client (hs_registry h) vt (Some skey))
                       (find_vtoken_for_session (de_newest env) (hs_store h) v skey))))))"

definition resolve_quote :: "DispatchEnv \<Rightarrow> HubState \<Rightarrow> WeixinMessage \<Rightarrow> QuoteOrigin option" where
  "resolve_quote env h m =
     opt_or (resolve_quote_from_msg_id env h m)
       (opt_or (resolve_quote_from_timestamp env h m)
          (opt_or (resolve_quote_from_db env h m) (resolve_quote_from_footer env h m)))"

section \<open>What the helpers change\<close>

text \<open>Looking up a virtual context changes the context table only.\<close>

lemma resolve_vctx_frame:
  assumes "resolve_vctx_for_message env key rc peer gid h = (v, h')"
  shows "\<exists>t. h' = h\<lparr>hs_store := (hs_store h)\<lparr>context_token_map := t\<rparr>\<rparr>"
proof (cases "de_fault env ''find_or_create_vctx'' key")
  case (Some e)
  with assms have "h' = h\<lparr>hs_store := (hs_store h)\<lparr>context_token_map := context_token_map (hs_store h)\<rparr>\<rparr>"
    by (simp add: resolve_vctx_for_message_def)
  then show ?thesis by blast
next
  case None
  let ?f = "find_or_create_vctx (de_scope_index env) (de_uuid env ''upsert'' key) (de_uuid env ''insert'' key) peer gid rc (hs_store h)"
  have "h' = h\<lparr>hs_store := snd ?f\<rparr>"
    using assms None by (auto simp: resolve_vctx_for_message_def split: prod.splits sum.splits)
  with find_or_create_frame show ?thesis by metis
qed

lemma resolve_vctx_fields:
  assumes "resolve_vctx_for_message env key rc peer gid h = (v, h')"
  shows "hs_queue h' = hs_queue h" "hs_registry h' = hs_registry h" "hs_router h' = hs_router h"
    "hs_messages h' = hs_messages h" "hs_acl h' = hs_acl h" "hs_sent h' = hs_sent h" "hs_metrics h' = hs_metrics h"
    "hs_waiter h' = hs_waiter h"
    "active_sessions (hs_store h') = active_sessions (hs_store h)"
    "backend_sessions_v2 (hs_store h') = backend_sessions_v2 (hs_store h)"
    "routing_state (hs_store h') = routing_state (hs_store h)" "client_rows (hs_store h') = client_rows (hs_store h)"
    "grant_ttl_secs (hs_store h') = grant_ttl_secs (hs_store h)"
  using resolve_vctx_frame [OF assms] by auto

text \<open>A conversation the database can resolve gets a virtual context that maps back to it.\<close>

definition no_faults :: "DispatchEnv \<Rightarrow> bool" where
  "no_faults env \<longleftrightarrow> (\<forall>op k. de_fault env op k = None)"

definition fresh_vctx :: "DispatchEnv \<Rightarrow> string \<Rightarrow> HubState \<Rightarrow> bool" where
  "fresh_vctx env key h \<longleftrightarrow> map_of (context_token_map (hs_store h)) (''vctx_'' @ de_uuid env ''upsert'' key) = None
     \<and> map_of (context_token_map (hs_store h)) (''vctx_'' @ de_uuid env ''insert'' key) = None"

lemma resolve_vctx_step:
  assumes "ctx_ok (context_token_map (hs_store h))" "fresh_vctx env key h" "de_fault env ''find_or_create_vctx'' key = None"
    and "\<not> ctx_shared (context_token_map (hs_store h)) rc (conv_key peer gid)"
    and "resolve_vctx_for_message env key rc peer gid h = (v, h')"
  shows "ctx_step (context_token_map (hs_store h)) rc (conv_key peer gid) v (context_token_map (hs_store h'))"
proof -
  let ?f = "find_or_create_vctx (de_scope_index env) (de_uuid env ''upsert'' key) (de_uuid env ''insert'' key) peer gid rc (hs_store h)"
  have "case ?f of (Inl e, st') \<Rightarrow> e = UniqueViolation \<and> st' = hs_store h \<and> ctx_shared (context_token_map (hs_store h)) rc (conv_key peer gid)
      | (Inr w, st') \<Rightarrow> ctx_step (context_token_map (hs_store h)) rc (conv_key peer gid) w (context_token_map st')
          \<and> \<not> ctx_shared (context_token_map (hs_store h)) rc (conv_key peer gid)"
    using assms(1,2) by (intro find_or_create_spec) (auto simp: fresh_vctx_def)
  with assms(3,4,5) show ?thesis
    by (auto simp: resolve_vctx_for_message_def split: prod.splits sum.splits)
qed

lemma queue_push_pending:
  "\<exists>i. pending (snd (queue_push q v m)) =
     (if fst (queue_push q v m) then pending q else (pending q)(v := pending q v @ [m\<lparr>seq := i\<rparr>]))"
proof (cases "get_or_create q v")
  case (Pair s q1)
  note g = get_or_create_view [OF Pair]
  have n: "messages (notify_one t) = messages t" for t by (simp add: notify_one_def)
  show ?thesis
  proof (cases "fst (slot_push s m)")
    case True
    then have "snd (slot_push s m) = s" by (simp add: slot_push_def split: if_splits)
    with True Pair g show ?thesis
      by (auto simp: queue_push_def view_update fun_upd_idem split: prod.splits)
  next
    case False
    then show ?thesis
      using Pair g by (auto simp: queue_push_def slot_push_def view_update n split: if_splits)
  qed
qed

lemma push_to_queue_pending:
  "\<exists>ms. pending (hs_queue (push_to_queue vt m h)) = (pending (hs_queue h))(vt := pending (hs_queue h) vt @ ms)"
proof (cases "queue_push (hs_queue h) vt m")
  case (Pair rejected q)
  then obtain i where "pending q = (if rejected then pending (hs_queue h)
      else (pending (hs_queue h))(vt := pending (hs_queue h) vt @ [m\<lparr>seq := i\<rparr>]))"
    using queue_push_pending [of "hs_queue h" vt m] by auto
  with Pair show ?thesis
    by (intro exI [of _ "if rejected then [] else [m\<lparr>seq := i\<rparr>]"]) (simp add: push_to_queue_def)
qed

lemma push_to_queue_fields [simp]:
  "hs_store (push_to_queue vt m h) = hs_store h" "hs_registry (push_to_queue vt m h) = hs_registry h"
  "hs_router (push_to_queue vt m h) = hs_router h" "hs_messages (push_to_queue vt m h) = hs_messages h"
  "hs_acl (push_to_queue vt m h) = hs_acl h" "hs_sent (push_to_queue vt m h) = hs_sent h"
  "hs_waiter (push_to_queue vt m h) = hs_waiter h"
  by (simp_all add: push_to_queue_def split: prod.split)

lemma grant_dispatch_fields [simp]:
  "hs_queue (grant_dispatch env v vt sn h) = hs_queue h" "hs_registry (grant_dispatch env v vt sn h) = hs_registry h"
  "hs_router (grant_dispatch env v vt sn h) = hs_router h" "hs_messages (grant_dispatch env v vt sn h) = hs_messages h"
  "hs_acl (grant_dispatch env v vt sn h) = hs_acl h" "hs_sent (grant_dispatch env v vt sn h) = hs_sent h"
  "context_token_map (hs_store (grant_dispatch env v vt sn h)) = context_token_map (hs_store h)"
  by (simp_all add: grant_dispatch_def set_active_session_with_depth_def)

lemma grant_dispatch_sends:
  assumes "de_fault env ''set_active_session_with_depth'' vt = None" "t < grant_expires_at (de_now env) (hs_store h)"
    and "map_of (context_token_map (hs_store h)) v = Some \<lparr>real_ctx = rc, ctx_peer = key\<rparr>"
  shows "resolve_send_context t (hs_store (grant_dispatch env v vt sn h)) v vt = Some (rc, key, sn)"
  using assms by (simp add: grant_dispatch_def resolve_send_context_def active_grant_def set_active_session_with_depth_def
      grant_expires_at_def)

lemma build_hub_ext_Some: "\<exists>ext. build_hub_ext_for_vctx env st v vt ov = Some ext"
  by (cases "opt_filter (\<lambda>n. n \<noteq> []) ov") (simp_all add: build_hub_ext_for_vctx_def Let_def case_prod_unfold)

lemma alias_in_listing:
  assumes "get_by_alias_in r nm allowed = Some c"
  shows "c \<in> set (all_clients r)" "permitted allowed c"
proof -
  have "c \<in> set (all_clients r) \<and> permitted allowed c"
  proof (cases "get_by_name r nm")
    case (Some d)
    then have "c = d" "permitted allowed c"
      using assms by (auto simp: get_by_alias_in_def permitted_def split: if_splits)
    moreover obtain k where "(k, d) \<in> set (by_vtoken r)"
      using Some by (auto simp: get_by_name_def bind_eq_Some_conv dest: map_of_SomeD)
    ultimately show ?thesis by (auto simp: all_clients_def all_clients_in_def image_iff intro: rev_bexI)
  next
    case None
    let ?l = "sort_key name (all_clients_in r allowed)"
    obtain n where "n < length ?l" "c = ?l ! n"
      using assms None by (auto simp: get_by_alias_in_def Let_def split: option.splits if_splits)
    then have "c \<in> set (all_clients_in r allowed)" by (metis nth_mem set_sort)
    then show ?thesis by (auto simp: all_clients_def all_clients_in_def permitted_def split: option.splits)
  qed
  then show "c \<in> set (all_clients r)" "permitted allowed c" by simp_all
qed

text \<open>Queues only grow, and only those of the tokens in \<open>S\<close>.\<close>

definition queues_grow :: "vtoken set \<Rightarrow> HubState \<Rightarrow> HubState \<Rightarrow> bool" where
  "queues_grow S h h' \<longleftrightarrow> (\<forall>vt. \<exists>ms. pending (hs_queue h') vt = pending (hs_queue h) vt @ ms \<and> (ms \<noteq> [] \<longrightarrow> vt \<in> S))"

lemma queues_grow_same: "hs_queue h' = hs_queue h \<Longrightarrow> queues_grow S h h'"
  by (simp add: queues_grow_def)

lemma queues_grow_mono: "queues_grow S h h' \<Longrightarrow> S \<subseteq> S' \<Longrightarrow> queues_grow S' h h'"
  unfolding queues_grow_def by blast

lemma queues_grow_trans [trans]: "queues_grow S h h1 \<Longrightarrow> queues_grow S h1 h2 \<Longrightarrow> queues_grow S h h2"
  unfolding queues_grow_def
proof (intro allI)
  fix vt
  assume a: "\<forall>vt. \<exists>ms. pending (hs_queue h1) vt = pending (hs_queue h) vt @ ms \<and> (ms \<noteq> [] \<longrightarrow> vt \<in> S)"
    "\<forall>vt. \<exists>ms. pending (hs_queue h2) vt = pending (hs_queue h1) vt @ ms \<and> (ms \<noteq> [] \<longrightarrow> vt \<in> S)"
  obtain ms ms' where "pending (hs_queue h1) vt = pending (hs_queue h) vt @ ms" "ms \<noteq> [] \<longrightarrow> vt \<in> S"
    "pending (hs_queue h2) vt = pending (hs_queue h1) vt @ ms'" "ms' \<noteq> [] \<longrightarrow> vt \<in> S"
    using a by metis
  then show "\<exists>ms. pending (hs_queue h2) vt = pending (hs_queue h) vt @ ms \<and> (ms \<noteq> [] \<longrightarrow> vt \<in> S)"
    by (intro exI [of _ "ms @ ms'"]) auto
qed

lemma queues_grow_push: "hs_queue h1 = hs_queue h \<Longrightarrow> vt \<in> S \<Longrightarrow> queues_grow S h (push_to_queue vt m h1)"
  using push_to_queue_pending [of vt m h1] by (auto simp: queues_grow_def)

lemma queues_grow_shared:
  "hs_queue h1 = hs_queue h \<Longrightarrow> vt \<in> S \<Longrightarrow> queues_grow S h (push_shared_to_queue vt m c e h1)"
  using queues_grow_push [of h1 h vt S "m\<lparr>context_token := c, ilink_hub_ext := e\<rparr>"]
  by (simp add: push_shared_to_queue_def push_to_queue_def queue_push_shared_def)

lemma queues_grow_fold:
  "(\<And>vt h. vt \<in> set vts \<Longrightarrow> queues_grow S h (f vt h)) \<Longrightarrow> queues_grow S h (fold f vts h)"
proof (induction vts arbitrary: h)
  case (Cons vt vts)
  then have "queues_grow S h (f vt h)" "queues_grow S (f vt h) (fold f vts (f vt h))" by simp_all
  then show ?case by (auto intro: queues_grow_trans)
qed (simp add: queues_grow_same)

lemma mention_grows: "queues_grow {vt} h (handle_at_mention env msg vt payload h)"
proof (cases "opt_filter (\<lambda>c. c \<noteq> []) (context_token msg)")
  case (Some rc)
  obtain v h1 where r: "resolve_vctx_for_message env [] rc (unwrap_or [] (from_user_id msg)) (group_id msg) h = (v, h1)"
    by fastforce
  then show ?thesis
    using Some resolve_vctx_fields(1) [OF r] by (simp add: handle_at_mention_def Let_def queues_grow_push)
qed (simp add: handle_at_mention_def queues_grow_same)

end
