(* ===== verification/Hub_Commands.thy ===== *)
theory Hub_Commands
  imports Dispatch_Core
begin

text \<open>
  The commands a user sends as chat messages (\<open>hub/commands.rs\<close>): listing and selecting backends,
  broadcasting, the status overview, the help text and the sessions of the selected backend.  Each
  handler returns the reply text and the hub's state; \<open>handle_hub_command\<close> sends the reply upstream.
\<close>

section \<open>Handlers\<close>

definition resolve_vctx_and_vtoken ::
  "DispatchEnv \<Rightarrow> string \<Rightarrow> string \<Rightarrow> string option \<Rightarrow> HubState \<Rightarrow> (vctx \<times> vtoken option) \<times> HubState" where
  "resolve_vctx_and_vtoken env rc uid gid h =
     (case resolve_vctx_for_message env [] rc uid gid h of (v, h1) \<Rightarrow> ((v, get_route (hs_router h1) uid), h1))"

definition list_line :: "string option \<Rightarrow> nat \<times> ClientInfo \<Rightarrow> string" where
  "list_line active x = (case x of (i, c) \<Rightarrow>
     (if online c then [CHR 0xF0, CHR 0x9F, CHR 0x9F, CHR 0xA2] else [CHR 0xF0, CHR 0x9F, CHR 0x94, CHR 0xB4]) @ '' '' @ show_nat (i + 1) @ (''. '' @ [CHR 0x60]) @ name c @ [CHR 0x60] @
     (if active = Some (name c) then ('' '' @ [CHR 0xE2, CHR 0x9C, CHR 0x85]) else []) @ ('' '' @ [CHR 0xE2, CHR 0x80, CHR 0x94] @ '' '') @ unwrap_or (name c) (label c))"

definition handle_cmd_list :: "string \<Rightarrow> HubState \<Rightarrow> string" where
  "handle_cmd_list uid h =
     (let visible = wechat_visible_in h uid;
          clients = sort_key name (all_clients_in (hs_registry h) visible)
      in if clients = [] then (if visible \<noteq> None then ([CHR 0xE5, CHR 0xB0, CHR 0x9A, CHR 0xE6, CHR 0x9C, CHR 0xAA, CHR 0xE6, CHR 0x8E, CHR 0x88, CHR 0xE6,
     CHR 0x9D, CHR 0x83, CHR 0xE4, CHR 0xBB, CHR 0xBB, CHR 0xE4, CHR 0xBD, CHR 0x95, CHR 0xE5, CHR 0x90,
     CHR 0x8E, CHR 0xE7, CHR 0xAB, CHR 0xAF, CHR 0xE5, CHR 0xAE, CHR 0xA2, CHR 0xE6, CHR 0x88, CHR 0xB7,
     CHR 0xE7, CHR 0xAB, CHR 0xAF, CHR 0xE3, CHR 0x80, CHR 0x82]) else ([CHR 0xE5, CHR 0xB0, CHR 0x9A, CHR 0xE6, CHR 0x9C, CHR 0xAA, CHR 0xE6, CHR 0xB3, CHR 0xA8, CHR 0xE5,
     CHR 0x86, CHR 0x8C, CHR 0xE4, CHR 0xBB, CHR 0xBB, CHR 0xE4, CHR 0xBD, CHR 0x95, CHR 0xE5, CHR 0x90,
     CHR 0x8E, CHR 0xE7, CHR 0xAB, CHR 0xAF, CHR 0xE5, CHR 0xAE, CHR 0xA2, CHR 0xE6, CHR 0x88, CHR 0xB7,
     CHR 0xE7, CHR 0xAB, CHR 0xAF, CHR 0xE3, CHR 0x80, CHR 0x82]))
         else (let active = Option.bind (get_route (hs_router h) uid)
                     (\<lambda>vt. map_option name (find (\<lambda>c. vtoken c = vt) clients))
               in join [CHR 0x0A] ([(''**'' @ [CHR 0xE5, CHR 0xB7, CHR 0xB2, CHR 0xE6, CHR 0xB3, CHR 0xA8, CHR 0xE5, CHR 0x86, CHR 0x8C,
     CHR 0xE7, CHR 0x9A, CHR 0x84, CHR 0xE5, CHR 0x90, CHR 0x8E, CHR 0xE7, CHR 0xAB, CHR 0xAF, CHR 0xEF,
     CHR 0xBC, CHR 0x9A] @ ''**'')] @ map (list_line active) (enumerate 0 clients) @
                    [case active of Some n \<Rightarrow> ([CHR 0x0A, CHR 0xE5, CHR 0xBD, CHR 0x93, CHR 0xE5, CHR 0x89, CHR 0x8D, CHR 0xE9, CHR 0x80, CHR 0x89,
     CHR 0xE4, CHR 0xB8, CHR 0xAD, CHR 0xEF, CHR 0xBC, CHR 0x9A, CHR 0x60]) @ n @ [CHR 0x60]
                       | None \<Rightarrow> ([CHR 0x0A, CHR 0xE5, CHR 0xBD, CHR 0x93, CHR 0xE5, CHR 0x89, CHR 0x8D, CHR 0xE6, CHR 0x9C, CHR 0xAA,
     CHR 0xE9, CHR 0x80, CHR 0x89, CHR 0xE4, CHR 0xB8, CHR 0xAD, CHR 0xEF, CHR 0xBC, CHR 0x88, CHR 0xE5,
     CHR 0xB9, CHR 0xBF, CHR 0xE6, CHR 0x92, CHR 0xAD, CHR 0xE6, CHR 0xA8, CHR 0xA1, CHR 0xE5, CHR 0xBC,
     CHR 0x8F, CHR 0xEF, CHR 0xBC, CHR 0x89]),
                     ([CHR 0xE7, CHR 0x94, CHR 0xA8] @ '' '' @ [CHR 0x60] @ ''/use <'' @ [CHR 0xE5, CHR 0x90, CHR 0x8D,
     CHR 0xE7, CHR 0xA7, CHR 0xB0, CHR 0xE6, CHR 0x88, CHR 0x96, CHR 0xE5, CHR 0xBA, CHR 0x8F, CHR 0xE5,
     CHR 0x8F, CHR 0xB7] @ ''>'' @ [CHR 0x60, CHR 0xEF, CHR 0xBC, CHR 0x88, CHR 0xE6, CHR 0x88,
     CHR 0x96] @ '' '' @ [CHR 0x60] @ ''/u <'' @ [CHR 0xE5, CHR 0x90, CHR 0x8D, CHR 0xE7, CHR 0xA7,
     CHR 0xB0, CHR 0xE6, CHR 0x88, CHR 0x96, CHR 0xE5, CHR 0xBA, CHR 0x8F, CHR 0xE5, CHR 0x8F,
     CHR 0xB7] @ ''>'' @ [CHR 0x60, CHR 0xEF, CHR 0xBC, CHR 0x89, CHR 0xE5, CHR 0x88, CHR 0x87, CHR 0xE6,
     CHR 0x8D, CHR 0xA2, CHR 0xE5, CHR 0x90, CHR 0x8E, CHR 0xE7, CHR 0xAB, CHR 0xAF, CHR 0xEF, CHR 0xBC,
     CHR 0x8C, CHR 0xE6, CHR 0x88, CHR 0x96, CHR 0xE5, CHR 0x8F, CHR 0x91, CHR 0xE9, CHR 0x80,
     CHR 0x81] @ '' '' @ [CHR 0x60] @ ''@<'' @ [CHR 0xE5, CHR 0x90, CHR 0x8D, CHR 0xE7, CHR 0xA7,
     CHR 0xB0, CHR 0xE6, CHR 0x88, CHR 0x96, CHR 0xE5, CHR 0xBA, CHR 0x8F, CHR 0xE5, CHR 0x8F,
     CHR 0xB7] @ ''> <'' @ [CHR 0xE6, CHR 0xB6, CHR 0x88, CHR 0xE6, CHR 0x81, CHR 0xAF] @ ''>'' @
     [CHR 0x60] @ '' '' @ [CHR 0xE7, CHR 0x9B, CHR 0xB4, CHR 0xE6, CHR 0x8E, CHR 0xA5, CHR 0xE5,
     CHR 0x8F, CHR 0x91, CHR 0xE8, CHR 0xB5, CHR 0xB7, CHR 0xE4, CHR 0xB8, CHR 0xB4, CHR 0xE6, CHR 0x97,
     CHR 0xB6, CHR 0xE4, CHR 0xBC, CHR 0x9A, CHR 0xE8, CHR 0xAF, CHR 0x9D, CHR 0xE3, CHR 0x80, CHR 0x82])])))"

definition handle_cmd_use :: "DispatchEnv \<Rightarrow> string \<Rightarrow> string \<Rightarrow> HubState \<Rightarrow> string \<times> HubState" where
  "handle_cmd_use env uid nm h =
     (case get_by_alias_in (hs_registry h) nm (wechat_visible_in h uid) of
        Some c \<Rightarrow>
          if de_fault env ''set_route'' uid \<noteq> None
          then (([CHR 0xE2, CHR 0x9A, CHR 0xA0, CHR 0xEF, CHR 0xB8, CHR 0x8F] @ '' '' @ [CHR 0xE5, CHR 0x88,
     CHR 0x87, CHR 0xE6, CHR 0x8D, CHR 0xA2, CHR 0xE5, CHR 0x88, CHR 0xB0] @ '' '' @ [CHR 0x60]) @ name c @ ([CHR 0x60] @ '' '' @ [CHR 0xE5, CHR 0xA4, CHR 0xB1, CHR 0xE8, CHR 0xB4, CHR 0xA5, CHR 0xEF,
     CHR 0xBC, CHR 0x88, CHR 0xE6, CHR 0x95, CHR 0xB0, CHR 0xE6, CHR 0x8D, CHR 0xAE, CHR 0xE5, CHR 0xBA,
     CHR 0x93, CHR 0xE5, CHR 0x86, CHR 0x99, CHR 0xE5, CHR 0x85, CHR 0xA5, CHR 0xE9, CHR 0x94, CHR 0x99,
     CHR 0xE8, CHR 0xAF, CHR 0xAF, CHR 0xEF, CHR 0xBC, CHR 0x89, CHR 0xEF, CHR 0xBC, CHR 0x8C, CHR 0xE8,
     CHR 0xAF, CHR 0xB7, CHR 0xE9, CHR 0x87, CHR 0x8D, CHR 0xE8, CHR 0xAF, CHR 0x95]), h)
          else (([CHR 0xE2, CHR 0x9C, CHR 0x85] @ '' '' @ [CHR 0xE5, CHR 0xB7, CHR 0xB2, CHR 0xE5, CHR 0x88,
     CHR 0x87, CHR 0xE6, CHR 0x8D, CHR 0xA2, CHR 0xE5, CHR 0x88, CHR 0xB0] @ '' '' @ [CHR 0x60]) @ name c @ [CHR 0x60],
                h\<lparr>hs_store := store_set_route uid (vtoken c) (hs_store h), hs_router := set_route uid (vtoken c) (hs_router h)\<rparr>)
      | None \<Rightarrow> (([CHR 0xE2, CHR 0x9D, CHR 0x8C] @ '' '' @ [CHR 0xE6, CHR 0x9C, CHR 0xAA, CHR 0xE6, CHR 0x89,
     CHR 0xBE, CHR 0xE5, CHR 0x88, CHR 0xB0, CHR 0xE5, CHR 0x90, CHR 0x8D, CHR 0xE4, CHR 0xB8,
     CHR 0xBA] @ '' '' @ [CHR 0x60]) @ nm @
                  ([CHR 0x60] @ '' '' @ [CHR 0xE7, CHR 0x9A, CHR 0x84, CHR 0xE5, CHR 0x90, CHR 0x8E, CHR 0xE7,
     CHR 0xAB, CHR 0xAF, CHR 0xE3, CHR 0x80, CHR 0x82, CHR 0xE7, CHR 0x94, CHR 0xA8] @ '' '' @
     [CHR 0x60] @ ''/list'' @ [CHR 0x60, CHR 0xEF, CHR 0xBC, CHR 0x88, CHR 0xE6, CHR 0x88, CHR 0x96] @
     '' '' @ [CHR 0x60] @ ''/ls'' @ [CHR 0x60, CHR 0xEF, CHR 0xBC, CHR 0x89, CHR 0xE6, CHR 0x9F,
     CHR 0xA5, CHR 0xE7, CHR 0x9C, CHR 0x8B, CHR 0xE5, CHR 0x8F, CHR 0xAF, CHR 0xE7, CHR 0x94, CHR 0xA8,
     CHR 0xE5, CHR 0x90, CHR 0x8E, CHR 0xE7, CHR 0xAB, CHR 0xAF, CHR 0xEF, CHR 0xBC, CHR 0x88, CHR 0xE6,
     CHR 0x94, CHR 0xAF, CHR 0xE6, CHR 0x8C, CHR 0x81, CHR 0xE7, CHR 0x94, CHR 0xA8, CHR 0xE5, CHR 0xBA,
     CHR 0x8F, CHR 0xE5, CHR 0x8F, CHR 0xB7, CHR 0xEF, CHR 0xBC, CHR 0x8C, CHR 0xE5, CHR 0xA6,
     CHR 0x82] @ '' '' @ [CHR 0x60] @ ''/use 1'' @ [CHR 0x60, CHR 0xEF, CHR 0xBC, CHR 0x89, CHR 0xE3,
     CHR 0x80, CHR 0x82]), h))"

definition set_leading_text :: "string \<Rightarrow> WeixinMessage \<Rightarrow> WeixinMessage" where
  "set_leading_text t m = (case item_list m of
     Some (it # its) \<Rightarrow> (case text_item it of
         Some ti \<Rightarrow> m\<lparr>item_list := Some (it\<lparr>text_item := Some (ti\<lparr>ti_text := Some t\<rparr>)\<rparr> # its)\<rparr> | None \<Rightarrow> m)
   | _ \<Rightarrow> m)"

definition broadcast_one :: "DispatchEnv \<Rightarrow> string \<Rightarrow> string \<Rightarrow> WeixinMessage \<Rightarrow> string \<Rightarrow> vtoken \<Rightarrow> HubState \<Rightarrow> HubState" where
  "broadcast_one env uid rc msg t vt h =
     (let (v, h1) = resolve_vctx_for_message env vt rc uid (group_id msg) h;
          ext = build_hub_ext_for_vctx env (hs_store h1) v vt None
      in push_to_queue vt (set_leading_text t (msg\<lparr>context_token := Some v, ilink_hub_ext := ext\<rparr>)) h1)"

definition broadcast_targets :: "HubState \<Rightarrow> string \<Rightarrow> vtoken list" where
  "broadcast_targets h uid = (let visible = wechat_visible_in h uid
     in map vtoken (filter (\<lambda>c. case visible of None \<Rightarrow> True | Some s \<Rightarrow> name c \<in> s) (online_clients (hs_registry h))))"

definition handle_cmd_broadcast ::
  "DispatchEnv \<Rightarrow> string \<Rightarrow> string \<Rightarrow> WeixinMessage \<Rightarrow> string \<Rightarrow> HubState \<Rightarrow> string \<times> HubState" where
  "handle_cmd_broadcast env uid rc msg t h =
     (let targets = broadcast_targets h uid
      in (([CHR 0xF0, CHR 0x9F, CHR 0x93, CHR 0xA1] @ '' Broadcast to '') @ show_nat (length targets) @ '' client(s)'',
          fold (broadcast_one env uid rc msg t) targets h))"

definition handle_cmd_status :: "DispatchEnv \<Rightarrow> string \<Rightarrow> HubState \<Rightarrow> string" where
  "handle_cmd_status env uid h =
     (let all = all_clients_in (hs_registry h) (wechat_visible_in h uid);
          up = filter online all;
          entries = (if de_fault env ''get_all_session_entries_per_vtoken'' uid \<noteq> None then []
                     else get_all_session_entries_per_vtoken (hs_messages h) (map vtoken up))
      in hub_status (de_now env) (length up) (length all)
           (map (\<lambda>c. (name c, unwrap_or [] (map_of entries (Some (vtoken c))))) up))"

definition handle_cmd_help :: string where
  "handle_cmd_help = build_help_text"

definition session_line :: "string \<Rightarrow> string \<times> string \<Rightarrow> string" where
  "session_line active x = (case x of (n, sid) \<Rightarrow>
     ([CHR 0xE2, CHR 0x80, CHR 0xA2] @ '' '' @ [CHR 0x60]) @ n @ [CHR 0x60] @ (if n = active then ('' '' @ [CHR 0xE2, CHR 0x9C, CHR 0x85]) else []) @ ('' '' @ [CHR 0xE2, CHR 0x80, CHR 0x94] @ '' '') @
     (if sid = [] then SESSION_SLOT_NO_UUID else [CHR 0x60] @ chars_take 12 sid @ [CHR 0x60]))"

definition handle_cmd_session_list ::
  "DispatchEnv \<Rightarrow> string \<Rightarrow> string \<Rightarrow> string option \<Rightarrow> HubState \<Rightarrow> string \<times> HubState" where
  "handle_cmd_session_list env uid rc gid h =
     (case resolve_vctx_and_vtoken env rc uid gid h of
        ((v, None), h1) \<Rightarrow> (NO_BACKEND, h1)
      | ((v, Some vt), h1) \<Rightarrow>
          (let backend = (case find (\<lambda>c. vtoken c = vt) (all_clients (hs_registry h1)) of
                 Some c \<Rightarrow> name c | None \<Rightarrow> redact_token vt);
               active = (if de_fault env ''get_active_session_name'' vt \<noteq> None then default_session
                         else get_active_session_name (hs_store h1) v vt);
               sessions = list_backend_sessions (hs_store h1) v vt
           in (case de_fault env ''list_backend_sessions'' vt of
                 Some e \<Rightarrow> session_list_failed e
               | None \<Rightarrow>
                   if sessions = [] then ([CHR 0xE5, CHR 0xBD, CHR 0x93, CHR 0xE5, CHR 0x89, CHR 0x8D, CHR 0xE5, CHR 0x90, CHR 0x8E, CHR 0xE7,
     CHR 0xAB, CHR 0xAF] @ '' '' @ [CHR 0x60]) @ backend @ ([CHR 0x60] @ '' '') @ SESSION_LIST_NO_SESSIONS
                   else join [CHR 0x0A] ([(''**'' @ [CHR 0xE5, CHR 0x90, CHR 0x8E, CHR 0xE7, CHR 0xAB, CHR 0xAF] @ '' '' @ [CHR 0x60]) @ backend @ ([CHR 0x60] @ '' '' @ [CHR 0xE7, CHR 0x9A, CHR 0x84] @ '' sessions'' @ [CHR 0xEF, CHR 0xBC,
     CHR 0x9A] @ ''**'')] @
                          map (session_line active) sessions @
                          [([CHR 0x0A, CHR 0xE5, CHR 0xBD, CHR 0x93, CHR 0xE5, CHR 0x89, CHR 0x8D, CHR 0xE6, CHR 0xB4, CHR 0xBB,
     CHR 0xE8, CHR 0xB7, CHR 0x83, CHR 0xEF, CHR 0xBC, CHR 0x9A, CHR 0x60]) @ active @ [CHR 0x60], SESSION_LIST_SWITCH_HINT]), h1)))"

definition handle_cmd_session_new ::
  "DispatchEnv \<Rightarrow> string \<Rightarrow> string \<Rightarrow> string option \<Rightarrow> string \<Rightarrow> string \<Rightarrow> HubState \<Rightarrow> string \<times> HubState" where
  "handle_cmd_session_new env uid rc gid sn initial h =
     (case resolve_vctx_and_vtoken env rc uid gid h of
        ((v, None), h1) \<Rightarrow> (NO_BACKEND, h1)
      | ((v, Some vt), h1) \<Rightarrow>
          (case de_fault env ''set_backend_session'' vt of
             Some e \<Rightarrow> (session_new_failed e, h1)
           | None \<Rightarrow>
               (let st1 = set_backend_session v vt sn initial (hs_store h1)
                in case de_fault env ''set_active_session_name'' vt of
                     Some e \<Rightarrow> (session_new_created_switch_failed sn e, h1\<lparr>hs_store := st1\<rparr>)
                   | None \<Rightarrow> (session_new_ok sn,
                       h1\<lparr>hs_store := set_active_session_name (de_now env) v vt sn st1\<rparr>))))"

definition handle_cmd_session_use ::
  "DispatchEnv \<Rightarrow> string \<Rightarrow> string \<Rightarrow> string option \<Rightarrow> string \<Rightarrow> HubState \<Rightarrow> string \<times> HubState" where
  "handle_cmd_session_use env uid rc gid sn h =
     (case resolve_vctx_and_vtoken env rc uid gid h of
        ((v, None), h1) \<Rightarrow> (NO_BACKEND, h1)
      | ((v, Some vt), h1) \<Rightarrow>
          (let ensured = (case de_fault env ''get_backend_session'' vt of
                 Some e \<Rightarrow> Inl (session_use_query_failed e)
               | None \<Rightarrow> (case get_backend_session (hs_store h1) v vt sn of
                     Some _ \<Rightarrow> Inr h1
                   | None \<Rightarrow> (case de_fault env ''set_backend_session'' vt of
                         Some e \<Rightarrow> Inl (session_use_slot_create_failed e)
                       | None \<Rightarrow> Inr (h1\<lparr>hs_store := set_backend_session v vt sn [] (hs_store h1)\<rparr>))))
           in case ensured of
                Inl t \<Rightarrow> (t, h1)
              | Inr h2 \<Rightarrow> (case de_fault env ''set_active_session_name'' vt of
                    Some e \<Rightarrow> (session_use_failed e, h2)
                  | None \<Rightarrow> (session_use_ok sn,
                      h2\<lparr>hs_store := set_active_session_name (de_now env) v vt sn (hs_store h2)\<rparr>))))"

definition handle_cmd_session_delete ::
  "DispatchEnv \<Rightarrow> string \<Rightarrow> string \<Rightarrow> string option \<Rightarrow> string \<Rightarrow> HubState \<Rightarrow> string \<times> HubState" where
  "handle_cmd_session_delete env uid rc gid sn h =
     (case resolve_vctx_and_vtoken env rc uid gid h of
        ((v, None), h1) \<Rightarrow> (NO_BACKEND, h1)
      | ((v, Some vt), h1) \<Rightarrow>
          (let active = (if de_fault env ''get_active_session_name'' vt \<noteq> None then default_session
                         else get_active_session_name (hs_store h1) v vt)
           in if sn = active then (session_delete_active_error sn, h1)
              else (case de_fault env ''delete_backend_session'' vt of
                  Some e \<Rightarrow> (session_delete_failed e, h1)
                | None \<Rightarrow> (case delete_backend_session v vt sn (hs_store h1) of
                      (found, st) \<Rightarrow> (if found then session_delete_ok sn else session_delete_not_found sn,
                                      h1\<lparr>hs_store := st\<rparr>)))))"

section \<open>Running a command\<close>

definition send_upstream :: "WeixinMessage \<Rightarrow> HubState \<Rightarrow> HubState" where
  "send_upstream m h = h\<lparr>hs_sent := hs_sent h @ [m]\<rparr>"

definition run_command ::
  "DispatchEnv \<Rightarrow> string \<Rightarrow> string \<Rightarrow> WeixinMessage \<Rightarrow> HubCommand \<Rightarrow> HubState \<Rightarrow> string \<times> HubState" where
  "run_command env uid rc msg cmd h = (case cmd of
     ListClients \<Rightarrow> (handle_cmd_list uid h, h)
   | UseClient n \<Rightarrow> handle_cmd_use env uid n h
   | BroadcastText t \<Rightarrow> handle_cmd_broadcast env uid rc msg t h
   | Status \<Rightarrow> (handle_cmd_status env uid h, h)
   | Help \<Rightarrow> (handle_cmd_help, h)
   | SessionList \<Rightarrow> handle_cmd_session_list env uid rc (group_id msg) h
   | SessionNew n u \<Rightarrow> handle_cmd_session_new env uid rc (group_id msg) n u h
   | SessionUse n \<Rightarrow> handle_cmd_session_use env uid rc (group_id msg) n h
   | SessionDelete n \<Rightarrow> handle_cmd_session_delete env uid rc (group_id msg) n h)"

definition handle_hub_command :: "DispatchEnv \<Rightarrow> WeixinMessage \<Rightarrow> HubCommand \<Rightarrow> HubState \<Rightarrow> HubState" where
  "handle_hub_command env msg cmd h =
     (case opt_filter (\<lambda>c. c \<noteq> []) (context_token msg) of
        None \<Rightarrow> h
      | Some rc \<Rightarrow>
          (let uid = unwrap_or [] (from_user_id msg); (t, h1) = run_command env uid rc msg cmd h
           in send_upstream (reply_text (de_uuid env ''reply'' []) (de_msg_id env) rc t uid None) h1))"

section \<open>What commands change\<close>

lemma resolve_both_fields:
  assumes "resolve_vctx_and_vtoken env rc uid gid h = (p, h')"
  shows "hs_queue h' = hs_queue h" "hs_sent h' = hs_sent h" "hs_messages h' = hs_messages h" "hs_registry h' = hs_registry h"
    "hs_router h' = hs_router h"
  using assms resolve_vctx_fields
  by (auto simp: resolve_vctx_and_vtoken_def split: prod.splits)

text \<open>The commands on sessions change the store only.\<close>

lemma session_commands_frame:
  "\<exists>st. snd (handle_cmd_session_list env uid rc gid h) = h\<lparr>hs_store := st\<rparr>"
  "\<exists>st. snd (handle_cmd_session_new env uid rc gid sn u h) = h\<lparr>hs_store := st\<rparr>"
  "\<exists>st. snd (handle_cmd_session_use env uid rc gid sn h) = h\<lparr>hs_store := st\<rparr>"
  "\<exists>st. snd (handle_cmd_session_delete env uid rc gid sn h) = h\<lparr>hs_store := st\<rparr>"
proof -
  obtain v h1 where r: "resolve_vctx_for_message env [] rc uid gid h = (v, h1)" by fastforce
  then obtain t where h1: "h1 = h\<lparr>hs_store := (hs_store h)\<lparr>context_token_map := t\<rparr>\<rparr>" using resolve_vctx_frame by blast
  have b: "resolve_vctx_and_vtoken env rc uid gid h = ((v, get_route (hs_router h1) uid), h1)"
    by (simp add: resolve_vctx_and_vtoken_def r)
  show "\<exists>st. snd (handle_cmd_session_list env uid rc gid h) = h\<lparr>hs_store := st\<rparr>"
    by (cases "get_route (hs_router h1) uid") (auto simp: handle_cmd_session_list_def b Let_def h1)
  show "\<exists>st. snd (handle_cmd_session_new env uid rc gid sn u h) = h\<lparr>hs_store := st\<rparr>"
    by (cases "get_route (hs_router h1) uid") (auto simp: handle_cmd_session_new_def b Let_def h1 split: option.split)
  show "\<exists>st. snd (handle_cmd_session_use env uid rc gid sn h) = h\<lparr>hs_store := st\<rparr>"
    by (cases "get_route (hs_router h1) uid") (auto simp: handle_cmd_session_use_def b Let_def h1 split: option.split)
  show "\<exists>st. snd (handle_cmd_session_delete env uid rc gid sn h) = h\<lparr>hs_store := st\<rparr>"
    by (cases "get_route (hs_router h1) uid")
      (auto simp: handle_cmd_session_delete_def b Let_def h1 split: option.split prod.split)
qed

lemma broadcast_one_grows: "queues_grow {vt} h (broadcast_one env uid rc msg t vt h)"
proof -
  obtain v h1 where r: "resolve_vctx_for_message env vt rc uid (group_id msg) h = (v, h1)" by fastforce
  then show ?thesis
    using resolve_vctx_fields(1) [OF r] by (simp add: broadcast_one_def Let_def queues_grow_push)
qed

lemma broadcast_one_sent: "hs_sent (broadcast_one env uid rc msg t vt h) = hs_sent h"
proof -
  obtain v h1 where r: "resolve_vctx_for_message env vt rc uid (group_id msg) h = (v, h1)" by fastforce
  then show ?thesis using resolve_vctx_fields(6) [OF r] by (simp add: broadcast_one_def Let_def)
qed

definition command_targets :: "HubState \<Rightarrow> string \<Rightarrow> HubCommand \<Rightarrow> vtoken set" where
  "command_targets h uid cmd = (case cmd of BroadcastText _ \<Rightarrow> set (broadcast_targets h uid) | _ \<Rightarrow> {})"

lemma run_command_frame:
  assumes "\<forall>n. cmd \<noteq> UseClient n" "\<forall>t. cmd \<noteq> BroadcastText t"
  shows "\<exists>st. snd (run_command env uid rc msg cmd h) = h\<lparr>hs_store := st\<rparr>"
proof -
  have "\<exists>st. h = h\<lparr>hs_store := st\<rparr>" by (rule exI [of _ "hs_store h"]) simp
  with assms show ?thesis by (cases cmd) (simp_all add: run_command_def session_commands_frame)
qed

lemma run_command_grows: "queues_grow (command_targets h uid cmd) h (snd (run_command env uid rc msg cmd h))"
proof (cases cmd)
  case (BroadcastText t)
  have "queues_grow (set (broadcast_targets h uid)) g (broadcast_one env uid rc msg t vt g)"
    if "vt \<in> set (broadcast_targets h uid)" for vt g
    by (rule queues_grow_mono [OF broadcast_one_grows]) (use that in simp)
  with BroadcastText show ?thesis
    by (simp add: run_command_def command_targets_def handle_cmd_broadcast_def Let_def queues_grow_fold)
next
  case (UseClient n)
  then show ?thesis
    by (auto simp: run_command_def handle_cmd_use_def intro!: queues_grow_same split: option.split)
qed (rule queues_grow_same, use run_command_frame [of cmd env uid rc msg h] in force)+

lemma run_command_sent: "hs_sent (snd (run_command env uid rc msg cmd h)) = hs_sent h"
proof (cases cmd)
  case (BroadcastText t)
  have "hs_sent (fold (broadcast_one env uid rc msg t) vts g) = hs_sent g" for vts g
    by (induction vts arbitrary: g) (simp_all add: broadcast_one_sent)
  with BroadcastText show ?thesis by (simp add: run_command_def handle_cmd_broadcast_def Let_def)
next
  case (UseClient n)
  then show ?thesis by (simp add: run_command_def handle_cmd_use_def split: option.split)
qed (use run_command_frame [of cmd env uid rc msg h] in force)+

lemma handle_hub_command_grows:
  "queues_grow (command_targets h (unwrap_or [] (from_user_id msg)) cmd) h (handle_hub_command env msg cmd h)"
proof (cases "opt_filter (\<lambda>c. c \<noteq> []) (context_token msg)")
  case (Some rc)
  obtain t h1 where r: "run_command env (unwrap_or [] (from_user_id msg)) rc msg cmd h = (t, h1)" by fastforce
  with Some show ?thesis
    using run_command_grows [of h "unwrap_or [] (from_user_id msg)" cmd env rc msg]
    by (simp add: handle_hub_command_def send_upstream_def queues_grow_def)
qed (simp add: handle_hub_command_def queues_grow_same)

lemma handle_hub_command_sent:
  assumes "context_token msg = Some rc" "rc \<noteq> []"
  shows "\<exists>t. hs_sent (handle_hub_command env msg cmd h) = hs_sent h @
    [reply_text (de_uuid env ''reply'' []) (de_msg_id env) rc t (unwrap_or [] (from_user_id msg)) None]"
  using assms run_command_sent [of env "unwrap_or [] (from_user_id msg)" rc msg cmd h]
  by (auto simp: handle_hub_command_def opt_filter_def Let_def send_upstream_def split: prod.split)

end
