(* ===== verification/Client_Lifecycle.thy ===== *)
theory Client_Lifecycle
  imports Hub_State
begin

text \<open>
  The life of a backend client across registry, router, queue and store: registration, confirmed
  registration, removal, revocation and renaming (\<open>server/pairing.rs\<close>), the HTTP handlers that call them
  (\<open>server/routes/bot.rs\<close>, \<open>server/routes/admin.rs\<close>), and what a restarted hub reads back from the
  database (\<open>runtime/serve.rs\<close>).  Drawn UUIDs, clock readings and epoch seconds are arguments.
\<close>

section \<open>Operations\<close>

record RegisterClientOutcome =
  ro_plaintext :: string
  ro_hashed :: vtoken
  ro_is_new :: bool

definition register_client_in_hub ::
  "(string \<Rightarrow> 8 word list) \<Rightarrow> string \<Rightarrow> nat \<Rightarrow> int \<Rightarrow> string \<Rightarrow> string option \<Rightarrow> string option \<Rightarrow> HubState
     \<Rightarrow> RegisterClientOutcome \<times> HubState" where
  "register_client_in_hub sha uuid now epoch nm lbl desc h =
     (let ((plain, hashed, is_new), reg) = register sha uuid now nm lbl desc (hs_registry h);
          is_first = (is_new \<and> length (all_clients reg) = 1);
          h1 = h\<lparr>hs_registry := reg\<rparr>;
          h2 = (if is_first
                then h1\<lparr>hs_router := set_default hashed (hs_router h1),
                        hs_store := store_set_route HUB_DEFAULT_SENTINEL hashed (hs_store h1)\<rparr>
                else h1)
      in (\<lparr>ro_plaintext = plain, ro_hashed = hashed, ro_is_new = is_new\<rparr>,
          h2\<lparr>hs_store := snd (upsert_client epoch hashed nm lbl (hs_store h2))\<rparr>))"

definition register_confirmed_client_in_hub ::
  "(string \<Rightarrow> 8 word list) \<Rightarrow> nat \<Rightarrow> int \<Rightarrow> string \<Rightarrow> string option \<Rightarrow> string option \<Rightarrow> string \<Rightarrow> HubState
     \<Rightarrow> (PairingError + RegisterClientOutcome) \<times> HubState" where
  "register_confirmed_client_in_hub sha now epoch nm lbl desc plain h =
     (let hashed = hash_vtoken sha plain in
      case register_confirmed now nm lbl desc hashed (hs_registry h) of
        Inl _ \<Rightarrow> (Inl NameCollision, h)
      | Inr reg \<Rightarrow>
          (let h1 = h\<lparr>hs_registry := reg\<rparr>;
               h2 = (if length (all_clients reg) = 1 then h1\<lparr>hs_router := set_default hashed (hs_router h1)\<rparr> else h1)
           in (Inr \<lparr>ro_plaintext = plain, ro_hashed = hashed, ro_is_new = True\<rparr>,
               h2\<lparr>hs_store := snd (upsert_client epoch hashed nm lbl (hs_store h2))\<rparr>)))"

datatype UnregisterClientError = UnregNotFound | StillOnline

text \<open>Store failures other than constraint violations are not modelled, and neither call below can violate
  one, so the error \<open>Store\<close> does not occur.\<close>

definition unregister_client_in_hub :: "string \<Rightarrow> bool \<Rightarrow> HubState \<Rightarrow> (UnregisterClientError + unit) \<times> HubState" where
  "unregister_client_in_hub nm force h =
     (case get_by_name (hs_registry h) nm of
        None \<Rightarrow> (Inl UnregNotFound, h)
      | Some client \<Rightarrow>
          if online client \<and> \<not> force then (Inl StillOnline, h)
          else (let vt = vtoken client; (removed, reg) = remove nm (hs_registry h) in
                if \<not> removed then (Inl UnregNotFound, h)
                else let h1 = h\<lparr>hs_registry := reg,
                        hs_router := remove_routes_for_vtoken vt (pick_default_after_remove reg vt) (hs_router h),
                        hs_last_seen := hm_remove vt (hs_last_seen h),
                        hs_queue := remove_client (hs_queue h) vt\<rparr>
                     in (Inr (), h1\<lparr>hs_store := snd (delete_client_by_name nm (clear_routes_for_vtoken vt (hs_store h1)))\<rparr>)))"

record RevokeClientOutcome =
  rv_name :: string
  rv_plaintext :: string
  rv_hashed :: vtoken

datatype RevokeClientError = RevokeNotFound | RevokeStore DbError

definition revoke_client_in_hub ::
  "(string \<Rightarrow> 8 word list) \<Rightarrow> string \<Rightarrow> int \<Rightarrow> string \<Rightarrow> HubState \<Rightarrow> (RevokeClientError + RevokeClientOutcome) \<times> HubState" where
  "revoke_client_in_hub sha uuid epoch nm h =
     (case get_by_name (hs_registry h) nm of
        None \<Rightarrow> (Inl RevokeNotFound, h)
      | Some client \<Rightarrow>
          (case rotate_vtoken sha uuid nm (hs_registry h) of
             (None, _) \<Rightarrow> (Inl RevokeNotFound, h)
           | (Some (plain, new_hash), reg) \<Rightarrow>
               (let old_hash = vtoken client;
                    h1 = h\<lparr>hs_registry := reg, hs_last_seen := hm_remove old_hash (hs_last_seen h),
                           hs_queue := remove_client (hs_queue h) old_hash,
                           hs_router := remove_routes_for_vtoken old_hash (pick_default_after_remove reg old_hash) (hs_router h),
                           hs_store := revoke_authorizations_for_vtoken old_hash (hs_store h)\<rparr>
                in case upsert_client epoch new_hash nm (label client) (hs_store h1) of
                     (Inl e, st) \<Rightarrow> (Inl (RevokeStore e), h1\<lparr>hs_store := st\<rparr>)
                   | (Inr _, st) \<Rightarrow> (Inr \<lparr>rv_name = nm, rv_plaintext = plain, rv_hashed = new_hash\<rparr>, h1\<lparr>hs_store := st\<rparr>))))"

datatype UpdateInHubError = UpdNotFound | UpdNameTaken | UpdInvalidName | UpdStore DbError

definition update_client_in_hub ::
  "string \<Rightarrow> string \<Rightarrow> string option \<Rightarrow> string option \<Rightarrow> string option \<Rightarrow> HubState \<Rightarrow> (UpdateInHubError + vtoken) \<times> HubState" where
  "update_client_in_hub old_name new_name0 lbl pn pe h =
     (let new_name = trim new_name0 in
      if new_name = [] then (Inl UpdInvalidName, h)
      else (case update_client old_name new_name lbl (hs_registry h) of
          (Inl NotFound, _) \<Rightarrow> (Inl UpdNotFound, h)
        | (Inl NameTaken, _) \<Rightarrow> (Inl UpdNameTaken, h)
        | (Inr vt, reg) \<Rightarrow>
            (let h1 = h\<lparr>hs_registry := set_persona vt pn pe reg\<rparr>
             in case update_client_by_vtoken vt new_name lbl (hs_store h1) of
                  (Inl e, st) \<Rightarrow> (Inl (UpdStore e), h1\<lparr>hs_store := st\<rparr>)
                | (Inr _, st) \<Rightarrow> (Inr vt, h1\<lparr>hs_store := update_client_persona vt pn pe st\<rparr>))))"

text \<open>Undo of a registration that lost the race for its pairing session.\<close>

definition rollback_speculative_register :: "string \<Rightarrow> vtoken \<Rightarrow> HubState \<Rightarrow> HubState" where
  "rollback_speculative_register nm vt h =
     (case get_by_name (hs_registry h) nm of
        None \<Rightarrow> h
      | Some info \<Rightarrow>
          if vtoken info \<noteq> vt then h
          else (let (removed, reg) = remove nm (hs_registry h) in
                if \<not> removed then h
                else h\<lparr>hs_registry := reg,
                       hs_router := remove_routes_for_vtoken vt (pick_default_after_remove reg vt) (hs_router h),
                       hs_last_seen := hm_remove vt (hs_last_seen h),
                       hs_queue := remove_client (hs_queue h) vt,
                       hs_store := snd (delete_client_by_name nm (clear_routes_for_vtoken vt (hs_store h)))\<rparr>))"

section \<open>HTTP handlers\<close>

definition MAX_CLIENT_NAME_LEN :: nat where
  "MAX_CLIENT_NAME_LEN = 64"

record RegisterRequest =
  rq_name :: string
  rq_label :: "string option"
  rq_description :: "string option"
  rq_persona_name :: "string option"
  rq_persona_emoji :: "string option"

text \<open>\<open>register\<close>, after the admin guard: the \<open>ret\<close> code and the returned token.  The name is checked
  trimmed and stored as it came.\<close>

definition http_register ::
  "(string \<Rightarrow> 8 word list) \<Rightarrow> string \<Rightarrow> nat \<Rightarrow> int \<Rightarrow> RegisterRequest \<Rightarrow> HubState \<Rightarrow> (nat \<times> string) \<times> HubState" where
  "http_register sha uuid now epoch req h =
     (let nm = trim (rq_name req) in
      if nm = [] \<or> length nm > MAX_CLIENT_NAME_LEN then ((400, []), h)
      else if (case rq_label req of None \<Rightarrow> False | Some l \<Rightarrow> length l > MAX_CLIENT_NAME_LEN) then ((400, []), h)
      else (let (out, h1) = register_client_in_hub sha uuid now epoch (rq_name req) (rq_label req) (rq_description req) h in
            if ro_plaintext out = [] then ((409, []), h1)
            else (let h2 = (if rq_persona_name req \<noteq> None \<or> rq_persona_emoji req \<noteq> None
                     then h1\<lparr>hs_registry := set_persona (ro_hashed out) (rq_persona_name req) (rq_persona_emoji req) (hs_registry h1),
                             hs_store := update_client_persona (ro_hashed out) (rq_persona_name req) (rq_persona_emoji req) (hs_store h1)\<rparr>
                     else h1);
                     h3 = (case rq_description req of
                         Some d \<Rightarrow> if d \<noteq> [] then h2\<lparr>hs_registry := set_description (ro_hashed out) (Some d) (hs_registry h2),
                             hs_store := snd (update_client_description (ro_hashed out) (Some d) (hs_store h2))\<rparr> else h2
                       | None \<Rightarrow> h2)
                  in ((0, ro_plaintext out), h3))))"

definition admin_delete_client :: "string \<Rightarrow> bool \<Rightarrow> HubState \<Rightarrow> nat \<times> HubState" where
  "admin_delete_client path_name force h =
     (let nm = trim path_name in
      if nm = [] then (400, h)
      else (case unregister_client_in_hub nm force h of
          (Inr _, h') \<Rightarrow> (0, h') | (Inl UnregNotFound, h') \<Rightarrow> (404, h') | (Inl StillOnline, h') \<Rightarrow> (409, h')))"

definition admin_revoke_client ::
  "(string \<Rightarrow> 8 word list) \<Rightarrow> string \<Rightarrow> int \<Rightarrow> string \<Rightarrow> HubState \<Rightarrow> (nat \<times> string option) \<times> HubState" where
  "admin_revoke_client sha uuid epoch path_name h =
     (let nm = trim path_name in
      if nm = [] then ((400, None), h)
      else (case revoke_client_in_hub sha uuid epoch nm h of
          (Inr out, h') \<Rightarrow> ((0, Some (rv_plaintext out)), h')
        | (Inl RevokeNotFound, h') \<Rightarrow> ((404, None), h')
        | (Inl (RevokeStore _), h') \<Rightarrow> ((500, None), h')))"

definition admin_update_client ::
  "string \<Rightarrow> string \<Rightarrow> string option \<Rightarrow> string option \<Rightarrow> string option \<Rightarrow> HubState \<Rightarrow> nat \<times> HubState" where
  "admin_update_client path_name new_name lbl pn pe h =
     (let old = trim path_name in
      if old = [] then (400, h)
      else (case update_client_in_hub old new_name lbl pn pe h of
          (Inr _, h') \<Rightarrow> (0, h') | (Inl UpdNotFound, h') \<Rightarrow> (404, h') | (Inl UpdNameTaken, h') \<Rightarrow> (409, h')
        | (Inl UpdInvalidName, h') \<Rightarrow> (400, h') | (Inl (UpdStore _), h') \<Rightarrow> (500, h')))"

section \<open>Restart\<close>

text \<open>The robot face in UTF-8.\<close>

definition DEFAULT_EMOJI :: string where
  "DEFAULT_EMOJI = [CHR 0xF0, CHR 0x9F, CHR 0xA4, CHR 0x96]"

definition persona_missing :: "ClientRow \<Rightarrow> bool" where
  "persona_missing c \<longleftrightarrow> row_persona_name c = None \<and> row_persona_emoji c = None"

definition load_client :: "(string \<Rightarrow> 8 word list) \<Rightarrow> string \<Rightarrow> nat \<Rightarrow> ClientRow \<Rightarrow> ClientRegistry \<Rightarrow> ClientRegistry" where
  "load_client sha uuid now c reg =
     (let reg1 = snd (register_with_vtoken sha uuid now (row_name c) (row_label c) None (Some (row_vtoken c)) reg);
          (pn, pe) = (if persona_missing c then (Some (row_name c), Some DEFAULT_EMOJI)
                      else (row_persona_name c, row_persona_emoji c))
      in set_description (row_vtoken c) (row_description c) (set_persona (row_vtoken c) pn pe reg1))"

definition backfill_personas :: "ClientRow list \<Rightarrow> Store \<Rightarrow> Store" where
  "backfill_personas cs st = fold (\<lambda>c. update_client_persona (row_vtoken c) (Some (row_name c)) (Some DEFAULT_EMOJI))
     (filter persona_missing cs) st"

definition load_routes :: "vtoken list \<Rightarrow> (string \<times> vtoken) list \<Rightarrow> Router \<Rightarrow> Router" where
  "load_routes known routes r = fold (\<lambda>(u, vt) r.
     if u = HUB_DEFAULT_SENTINEL then r else if vt \<in> set known then set_route u vt r else r) routes r"

definition load_clients_from_db :: "(string \<Rightarrow> 8 word list) \<Rightarrow> string \<Rightarrow> nat \<Rightarrow> HubState \<Rightarrow> HubState" where
  "load_clients_from_db sha uuid now h =
     (let clients = list_clients (hs_store h);
          first = (case clients of [] \<Rightarrow> None | c # _ \<Rightarrow> Some (row_vtoken c));
          h1 = h\<lparr>hs_registry := fold (load_client sha uuid now) clients (hs_registry h),
                 hs_store := backfill_personas clients (hs_store h)\<rparr>;
          dflt = opt_or (store_get_route (hs_store h1) HUB_DEFAULT_SENTINEL) first;
          h2 = (case dflt of None \<Rightarrow> h1
                | Some vt \<Rightarrow> h1\<lparr>hs_router := set_default vt (hs_router h1),
                                hs_store := store_set_route HUB_DEFAULT_SENTINEL vt (hs_store h1)\<rparr>)
      in h2\<lparr>hs_router := load_routes (map vtoken (all_clients (hs_registry h2))) (store_list_routes (hs_store h2)) (hs_router h2)\<rparr>)"

section \<open>The directory of clients\<close>

text \<open>What the registry and the \<open>clients\<close> table both record of a name: its token and label.\<close>

type_synonym client_dir = "string \<Rightarrow> (vtoken \<times> string option) option"

definition reg_view :: "ClientRegistry \<Rightarrow> client_dir" where
  "reg_view r n = map_option (\<lambda>c. (vtoken c, label c)) (get_by_name r n)"

definition row_view :: "Store \<Rightarrow> client_dir" where
  "row_view st n = map_option (\<lambda>r. (cr_vtoken r, cr_label r)) (row_by_name n (client_rows st))"

definition rows_ok :: "ClientRec list \<Rightarrow> bool" where
  "rows_ok rs \<longleftrightarrow> distinct (map cr_name rs) \<and> distinct (map cr_vtoken rs)"

subsection \<open>Registry operations on the directory\<close>

lemma reg_view_eq: "reg_view r n = (case map_of (by_name r) n of None \<Rightarrow> None
    | Some k \<Rightarrow> map_option (\<lambda>c. (vtoken c, label c)) (map_of (by_vtoken r) k))"
  by (simp add: reg_view_def get_by_name_def split: option.split)

lemma reg_viewD:
  assumes "reg_ok r" "map_of (by_name r) n = Some k"
  obtains c where "map_of (by_vtoken r) k = Some c" "name c = n" "vtoken c = k" "reg_view r n = Some (k, label c)"
proof -
  obtain c where c: "map_of (by_vtoken r) k = Some c" "name c = n" using reg_okD(3) [OF assms] by blast
  moreover have "vtoken c = k" using reg_okD(1) [OF assms(1) c(1)] .
  ultimately show ?thesis using that assms(2) by (simp add: reg_view_eq)
qed

lemma reg_view_None: "reg_ok r \<Longrightarrow> reg_view r n = None \<longleftrightarrow> map_of (by_name r) n = None"
  by (cases "map_of (by_name r) n") (auto simp: reg_view_eq elim: reg_viewD)

lemma reg_view_get: "reg_ok r \<Longrightarrow> get_by_name r n = Some c \<Longrightarrow> reg_view r n = Some (vtoken c, label c) \<and> map_of (by_name r) n = Some (vtoken c)
    \<and> map_of (by_vtoken r) (vtoken c) = Some c"
  by (auto simp: reg_view_def get_by_name_def bind_eq_Some_conv dest: reg_okD(1))

text \<open>Two names with one token are one name.\<close>

lemma name_of_token: "reg_ok r \<Longrightarrow> map_of (by_name r) n = Some k \<Longrightarrow> map_of (by_name r) m = Some k \<Longrightarrow> n = m"
  by (metis option.inject reg_okD(3))

lemma view_add:
  assumes "reg_ok r" "map_of (by_vtoken r) (vtoken i) = None"
  shows "reg_view (r\<lparr>by_name := AList.update nm (vtoken i) (by_name r), by_vtoken := AList.update (vtoken i) i (by_vtoken r)\<rparr>)
    = (reg_view r)(nm \<mapsto> (vtoken i, label i))"
proof (rule ext)
  fix n
  have "k \<noteq> vtoken i" if "map_of (by_name r) n = Some k" for k
    using reg_okD(3) [OF assms(1) that] assms(2) by auto
  then show "reg_view (r\<lparr>by_name := AList.update nm (vtoken i) (by_name r), by_vtoken := AList.update (vtoken i) i (by_vtoken r)\<rparr>) n
      = ((reg_view r)(nm \<mapsto> (vtoken i, label i))) n"
    by (auto simp: reg_view_eq split: option.split)
qed

lemma view_modify:
  assumes "reg_ok r" "map_of (by_name r) nm = Some k" "map_of (by_vtoken r) k = Some c" "\<And>i. vtoken (f i) = vtoken i"
  shows "reg_view (r\<lparr>by_vtoken := hm_modify k f (by_vtoken r)\<rparr>) = (reg_view r)(nm \<mapsto> (k, label (f c)))"
proof (rule ext)
  fix n
  have v: "vtoken c = k" using reg_okD(1) [OF assms(1,3)] .
  show "reg_view (r\<lparr>by_vtoken := hm_modify k f (by_vtoken r)\<rparr>) n = ((reg_view r)(nm \<mapsto> (k, label (f c)))) n"
  proof (cases "n = nm")
    case True
    then show ?thesis using assms(2-4) v by (simp add: reg_view_eq)
  next
    case False
    then have "map_of (by_name r) n \<noteq> Some k" using name_of_token [OF assms(1) _ assms(2)] by blast
    then show ?thesis using False by (auto simp: reg_view_eq split: option.split)
  qed
qed

lemma view_keep:
  assumes "\<And>i. vtoken (f i) = vtoken i" "\<And>i. label (f i) = label i"
  shows "reg_view (r\<lparr>by_vtoken := hm_modify k f (by_vtoken r)\<rparr>) = reg_view r"
  using assms by (auto simp: fun_eq_iff reg_view_eq option.map_comp comp_def split: option.split)

lemma view_keeps:
  "reg_view (set_persona k pn pe r) = reg_view r" "reg_view (set_description k d r) = reg_view r"
  "reg_view (mark_online k r) = reg_view r" "reg_view (mark_offline k r) = reg_view r"
  unfolding set_persona_def update_metadata_def set_description_def mark_online_def mark_offline_def
  by (rule view_keep; simp add: opt_set_def)+

lemma view_remove: "reg_ok r \<Longrightarrow> reg_view (snd (remove nm r)) = (reg_view r)(nm := None)"
proof (cases "map_of (by_name r) nm")
  case None
  then show ?thesis by (auto simp: remove_def reg_view_eq fun_eq_iff)
next
  case (Some k)
  assume ok: "reg_ok r"
  have "n \<noteq> nm \<Longrightarrow> map_of (by_name r) n \<noteq> Some k" for n using name_of_token [OF ok _ Some] by blast
  then show ?thesis using Some reg_okD(4,5) [OF ok]
    by (auto simp: remove_def reg_view_eq fun_eq_iff split: option.split)
qed

lemma view_register:
  assumes ok: "reg_ok r" and fresh: "fresh_hash r (hash_vtoken sha (''vhub_'' @ uuid))"
    and res: "register sha uuid now nm lbl desc r = ((plain, k, is_new), r')"
  shows "reg_view r' = (reg_view r)(nm \<mapsto> (k, case reg_view r nm of None \<Rightarrow> lbl | Some (_, l) \<Rightarrow> opt_or lbl l))
    \<and> (is_new \<longleftrightarrow> reg_view r nm = None) \<and> (plain = [] \<longleftrightarrow> reg_view r nm \<noteq> None)
    \<and> (reg_view r nm = None \<longrightarrow> k = hash_vtoken sha (''vhub_'' @ uuid))
    \<and> (\<forall>v l. reg_view r nm = Some (v, l) \<longrightarrow> k = v)"
proof (cases "map_of (by_name r) nm")
  case None
  then show ?thesis
    using view_add [OF ok, of "with_hashed_vtoken now nm lbl desc (hash_vtoken sha (''vhub_'' @ uuid))" nm] fresh res reg_view_None [OF ok, of nm]
    by (auto simp: register_def ClientInfo_new_def Let_def fresh_hash_def)
next
  case (Some old)
  obtain c where c: "map_of (by_vtoken r) old = Some c" "reg_view r nm = Some (old, label c)"
    using reg_viewD [OF ok Some] by metis
  have "label (touch_existing lbl desc c) = opt_or lbl (label c)"
    by (simp add: touch_existing_def opt_set_def opt_or_def split: option.split)
  then show ?thesis
    using view_modify [OF ok Some c(1), of "touch_existing lbl desc"] touch_existing_keeps [of lbl desc] Some res c(2)
    by (auto simp: register_def)
qed

lemma view_rotate:
  assumes ok: "reg_ok r" and fresh: "fresh_hash r (hash_vtoken sha (''vhub_'' @ uuid))"
    and res: "rotate_vtoken sha uuid nm r = (Some (plain, k), r')" and old: "reg_view r nm = Some (v, l)"
  shows "reg_view r' = (reg_view r)(nm \<mapsto> (k, l)) \<and> k = hash_vtoken sha (''vhub_'' @ uuid)"
proof -
  obtain h where h: "map_of (by_name r) nm = Some h" using old reg_view_None [OF ok, of nm] by auto
  obtain c where c: "map_of (by_vtoken r) h = Some c" "reg_view r nm = Some (h, label c)" using reg_viewD [OF ok h] by metis
  have "n \<noteq> nm \<Longrightarrow> map_of (by_name r) n \<noteq> Some h" for n using name_of_token [OF ok _ h] by blast
  moreover have "map_of (by_name r) n \<noteq> Some (hash_vtoken sha (''vhub_'' @ uuid))" for n
    using reg_okD(3) [OF ok] fresh by (fastforce simp: fresh_hash_def)
  ultimately show ?thesis using h c res old reg_okD(4,5) [OF ok]
    by (auto simp: rotate_vtoken_def Let_def reg_view_eq fun_eq_iff split: option.split)
qed

lemma row_view_update:
  assumes ok: "reg_ok r" and res: "update_client old new lbl r = (Inr k, r')"
  shows "\<exists>l. reg_view r old = Some (k, l) \<and> (new = old \<or> reg_view r new = None)
    \<and> reg_view r' = ((reg_view r)(old := None))(new \<mapsto> (k, opt_or lbl l))"
proof -
  obtain c where o: "map_of (by_name r) old = Some k" and c: "map_of (by_vtoken r) k = Some c"
    and free: "new = old \<or> map_of (by_name r) new = None"
    using res by (auto simp: update_client_def Let_def split: option.splits if_splits)
  have v: "vtoken c = k" "reg_view r old = Some (k, label c)" using reg_viewD [OF ok o] c by auto
  have one: "n \<noteq> old \<Longrightarrow> map_of (by_name r) n \<noteq> Some k" for n using name_of_token [OF ok _ o] by blast
  have "reg_view r' n = (((reg_view r)(old := None))(new \<mapsto> (k, opt_or lbl (label c)))) n" for n
    using res o c free one [of n] v reg_okD(5) [OF ok]
    by (cases "n = old"; cases "n = new"; cases lbl)
      (auto simp: update_client_def Let_def reg_view_eq split: if_splits option.split)
  then show ?thesis using v(2) free reg_view_None [OF ok, of new] by auto
qed

subsection \<open>Table operations on the directory\<close>

lemma row_by_name_iff: "distinct (map cr_name rs) \<Longrightarrow> row_by_name n rs = Some r \<longleftrightarrow> r \<in> set rs \<and> cr_name r = n"
  by (induction rs) (auto simp: row_by_name_def)

lemma row_by_name_map: "(\<And>r. cr_name (f r) = cr_name r) \<Longrightarrow> row_by_name n (map f rs) = map_option f (row_by_name n rs)"
  by (induction rs) (auto simp: row_by_name_def)

lemma row_by_name_snoc:
  "row_by_name n (rs @ [r]) = (case row_by_name n rs of None \<Rightarrow> if cr_name r = n then Some r else None | Some x \<Rightarrow> Some x)"
  by (induction rs) (auto simp: row_by_name_def)

lemma row_by_name_None: "row_by_name n rs = None \<longleftrightarrow> n \<notin> cr_name ` set rs"
  by (induction rs) (auto simp: row_by_name_def)

lemma row_view_Some:
  "rows_ok (client_rows st) \<Longrightarrow> row_view st n = Some (v, l) \<longleftrightarrow>
   (\<exists>r \<in> set (client_rows st). cr_name r = n \<and> cr_vtoken r = v \<and> cr_label r = l)"
  by (auto simp: row_view_def rows_ok_def row_by_name_iff)

lemma dir_eqI: "(\<And>n v l. f n = Some (v, l) \<longleftrightarrow> g n = Some (v, l)) \<Longrightarrow> f = (g :: client_dir)"
  by (rule ext) (metis not_None_eq surj_pair)

lemma distinct_replace:
  "distinct (map f xs) \<Longrightarrow> distinct (map g xs) \<Longrightarrow> (\<And>x. x \<in> set xs \<Longrightarrow> f x = v \<Longrightarrow> g x = n) \<Longrightarrow>
   distinct (map (\<lambda>x. if g x = n then v else f x) xs)"
  by (induction xs) (auto; metis image_eqI)+

lemma upsert_view:
  fixes epoch lbl
  assumes ok: "rows_ok (client_rows st)" and free: "\<not> vtoken_taken vt n (client_rows st)"
  defines "st' \<equiv> snd (upsert_client epoch vt n lbl st)"
  shows "fst (upsert_client epoch vt n lbl st) = Inr ()" "rows_ok (client_rows st')"
    "row_view st' = (row_view st)(n \<mapsto> (vt, case row_view st n of None \<Rightarrow> lbl | Some (_, l) \<Rightarrow> opt_or lbl l))"
proof -
  let ?f = "\<lambda>r. if cr_name r = n then r\<lparr>cr_vtoken := vt, cr_label := opt_or lbl (cr_label r), cr_last_seen := Some epoch\<rparr> else r"
  show "fst (upsert_client epoch vt n lbl st) = Inr ()" using free by (simp add: upsert_client_def)
  show "rows_ok (client_rows st')"
  proof (cases "row_by_name n (client_rows st)")
    case None
    then have "n \<notin> cr_name ` set (client_rows st)" by (simp add: row_by_name_None)
    moreover have "vt \<notin> cr_vtoken ` set (client_rows st)"
      using free calculation by (fastforce simp: vtoken_taken_def list_ex_iff)
    ultimately show ?thesis using ok free None by (simp add: st'_def upsert_client_def rows_ok_def)
  next
    case (Some r)
    then have rows: "client_rows st' = map ?f (client_rows st)" using free by (simp add: st'_def upsert_client_def)
    have "map cr_vtoken (map ?f (client_rows st)) = map (\<lambda>r. if cr_name r = n then vt else cr_vtoken r) (client_rows st)"
      "map cr_name (map ?f (client_rows st)) = map cr_name (client_rows st)" by simp_all
    moreover have "distinct (map (\<lambda>r. if cr_name r = n then vt else cr_vtoken r) (client_rows st))"
      using ok free by (intro distinct_replace) (auto simp: rows_ok_def vtoken_taken_def list_ex_iff)
    ultimately show ?thesis using ok unfolding rows rows_ok_def by (simp only: simp_thms)
  qed
  show "row_view st' = (row_view st)(n \<mapsto> (vt, case row_view st n of None \<Rightarrow> lbl | Some (_, l) \<Rightarrow> opt_or lbl l))"
  proof (cases "row_by_name n (client_rows st)")
    case None
    then show ?thesis using free by (auto simp: st'_def upsert_client_def row_view_def row_by_name_snoc fun_eq_iff split: option.split)
  next
    case (Some r)
    have name: "cr_name r = n" using Some ok by (simp add: rows_ok_def row_by_name_iff)
    have rows: "client_rows st' = map ?f (client_rows st)" using free Some by (simp add: st'_def upsert_client_def)
    have keep: "cr_name (?f x) = cr_name x" for x by simp
    show ?thesis
    proof (rule ext)
      fix m
      show "row_view st' m = ((row_view st)(n \<mapsto> (vt, case row_view st n of None \<Rightarrow> lbl | Some (_, l) \<Rightarrow> opt_or lbl l))) m"
      proof (cases "m = n")
        case True
        then show ?thesis using Some name by (simp add: row_view_def rows row_by_name_map [OF keep])
      next
        case False
        have "?f x = x" if "row_by_name m (client_rows st) = Some x" for x
          using that ok False by (auto simp: rows_ok_def row_by_name_iff)
        then have "map_option ?f (row_by_name m (client_rows st)) = row_by_name m (client_rows st)"
          by (cases "row_by_name m (client_rows st)") simp_all
        then show ?thesis using False unfolding row_view_def rows row_by_name_map [OF keep] by simp
      qed
    qed
  qed
qed

lemma delete_view:
  assumes "rows_ok (client_rows st)"
  shows "rows_ok (client_rows (snd (delete_client_by_name n st)))" "row_view (snd (delete_client_by_name n st)) = (row_view st)(n := None)"
proof -
  show ok: "rows_ok (client_rows (snd (delete_client_by_name n st)))"
    using assms by (simp add: delete_client_by_name_def rows_ok_def distinct_map_filter)
  show "row_view (snd (delete_client_by_name n st)) = (row_view st)(n := None)"
    by (rule dir_eqI) (use row_view_Some [OF assms] row_view_Some [OF ok] in \<open>auto simp: delete_client_by_name_def\<close>)
qed

lemma on_vtoken_view:
  assumes "\<And>r. cr_name (f r) = cr_name r" "\<And>r. cr_vtoken (f r) = cr_vtoken r" "\<And>r. cr_label (f r) = cr_label r"
  shows "rows_ok (client_rows (on_vtoken vt f st)) = rows_ok (client_rows st)" "row_view (on_vtoken vt f st) = row_view st"
proof -
  let ?g = "\<lambda>r. if cr_vtoken r = vt then f r else r"
  have "cr_name (?g r) = cr_name r" "cr_vtoken (?g r) = cr_vtoken r" "cr_label (?g r) = cr_label r" for r using assms by simp_all
  then show "rows_ok (client_rows (on_vtoken vt f st)) = rows_ok (client_rows st)" "row_view (on_vtoken vt f st) = row_view st"
    by (simp_all add: on_vtoken_def rows_ok_def row_view_def [abs_def] row_by_name_map option.map_comp comp_def)
qed

lemma rename_view:
  fixes lbl
  assumes ok: "rows_ok (client_rows st)" and old: "row_view st old = Some (vt, l)" and free: "n = old \<or> row_view st n = None"
  defines "st' \<equiv> snd (update_client_by_vtoken vt n lbl st)"
  shows "fst (update_client_by_vtoken vt n lbl st) = Inr ()" "rows_ok (client_rows st')"
    "row_view st' = ((row_view st)(old := None))(n \<mapsto> (vt, opt_or lbl l))"
proof -
  let ?f = "\<lambda>r. r\<lparr>cr_name := n, cr_label := opt_or lbl (cr_label r)\<rparr>"
  obtain r0 where r0: "r0 \<in> set (client_rows st)" "cr_name r0 = old" "cr_vtoken r0 = vt" "cr_label r0 = l"
    using old row_view_Some [OF ok] by blast
  have one: "r = r0" if "r \<in> set (client_rows st)" "cr_vtoken r = vt" for r
    using ok that r0(1,3) by (auto simp: rows_ok_def distinct_map inj_on_def)
  have names: "cr_name r \<noteq> n" if "r \<in> set (client_rows st)" "r \<noteq> r0" for r
    using free ok that r0(1,2) by (auto simp: rows_ok_def distinct_map inj_on_def row_view_def row_by_name_None)
  have held: "cr_name r = n \<Longrightarrow> cr_vtoken r = vt" if "r \<in> set (client_rows st)" for r
    using names that r0(3) by blast
  then have res: "update_client_by_vtoken vt n lbl st = (Inr (), on_vtoken vt ?f st)"
    by (auto simp: update_client_by_vtoken_def list_ex_iff)
  then show "fst (update_client_by_vtoken vt n lbl st) = Inr ()" by simp
  have rows: "client_rows st' = map (\<lambda>r. if cr_vtoken r = vt then ?f r else r) (client_rows st)"
    by (simp add: st'_def res on_vtoken_def)
  show ok': "rows_ok (client_rows st')"
  proof -
    have "map cr_name (client_rows st') = map (\<lambda>r. if cr_vtoken r = vt then n else cr_name r) (client_rows st)"
      "map cr_vtoken (client_rows st') = map cr_vtoken (client_rows st)" unfolding rows by simp_all
    moreover have "distinct (map (\<lambda>r. if cr_vtoken r = vt then n else cr_name r) (client_rows st))"
      using ok held by (intro distinct_replace) (auto simp: rows_ok_def)
    ultimately show ?thesis using ok by (simp only: rows_ok_def simp_thms)
  qed
  have others: "(\<lambda>r. if cr_vtoken r = vt then ?f r else r) ` (set (client_rows st) - {r0}) = set (client_rows st) - {r0}"
    using one by (intro trans [OF image_cong image_ident]) auto
  have "set (client_rows st') = (\<lambda>r. if cr_vtoken r = vt then ?f r else r) ` insert r0 (set (client_rows st) - {r0})"
    using r0(1) by (simp add: rows insert_absorb)
  also have "\<dots> = insert (?f r0) (set (client_rows st) - {r0})" unfolding image_insert others using r0(3) by simp
  finally have set': "set (client_rows st') = insert (?f r0) (set (client_rows st) - {r0})" .
  have gone: "r \<in> set (client_rows st) \<Longrightarrow> cr_name r = old \<Longrightarrow> r = r0" for r
    using ok r0(1,2) by (auto simp: rows_ok_def distinct_map inj_on_def)
  show "row_view st' = ((row_view st)(old := None))(n \<mapsto> (vt, opt_or lbl l))"
  proof (rule dir_eqI)
    fix m v k
    show "row_view st' m = Some (v, k) \<longleftrightarrow> (((row_view st)(old := None))(n \<mapsto> (vt, opt_or lbl l))) m = Some (v, k)"
    proof (cases "m = n")
      case True
      then show ?thesis using names r0(3,4) unfolding row_view_Some [OF ok'] set' by auto
    next
      case False
      then show ?thesis using gone r0(2) row_view_Some [OF ok, of m v k] unfolding row_view_Some [OF ok'] set' by auto
    qed
  qed
qed

subsection \<open>Loading the table into a registry\<close>

lemma load_client_step:
  assumes ok: "reg_ok r" and "reg_view r (row_name c) = None" "map_of (by_vtoken r) (row_vtoken c) = None"
  shows "reg_ok (load_client sha uuid now c r)"
    "reg_view (load_client sha uuid now c r) = (reg_view r)(row_name c \<mapsto> (row_vtoken c, row_label c))"
    "map_of (by_vtoken (load_client sha uuid now c r)) v = None \<longleftrightarrow> v \<noteq> row_vtoken c \<and> map_of (by_vtoken r) v = None"
proof -
  let ?i = "with_hashed_vtoken now (row_name c) (row_label c) None (row_vtoken c)"
  have none: "map_of (by_name r) (row_name c) = None" using assms(2) reg_view_None [OF ok] by blast
  then have reg: "snd (register_with_vtoken sha uuid now (row_name c) (row_label c) None (Some (row_vtoken c)) r)
      = r\<lparr>by_name := AList.update (row_name c) (vtoken ?i) (by_name r), by_vtoken := AList.update (vtoken ?i) ?i (by_vtoken r)\<rparr>"
    by (simp add: register_with_vtoken_def Let_def)
  have "reg_ok (snd (register_with_vtoken sha uuid now (row_name c) (row_label c) None (Some (row_vtoken c)) r))"
    unfolding reg using reg_ok_add [OF ok, of ?i] none assms(3) by simp
  then show "reg_ok (load_client sha uuid now c r)"
    by (simp add: load_client_def Let_def reg_ok_description set_persona_def reg_ok_metadata)
  show "reg_view (load_client sha uuid now c r) = (reg_view r)(row_name c \<mapsto> (row_vtoken c, row_label c))"
    using view_add [OF ok, of ?i "row_name c"] assms(3) by (simp add: load_client_def Let_def view_keeps reg)
  show "map_of (by_vtoken (load_client sha uuid now c r)) v = None \<longleftrightarrow> v \<noteq> row_vtoken c \<and> map_of (by_vtoken r) v = None"
    by (simp add: load_client_def Let_def set_description_def set_persona_def update_metadata_def reg)
qed

lemma load_clients_view:
  assumes "reg_ok r" "distinct (map row_name cs)" "distinct (map row_vtoken cs)"
    and "\<And>c. c \<in> set cs \<Longrightarrow> reg_view r (row_name c) = None \<and> map_of (by_vtoken r) (row_vtoken c) = None"
  shows "reg_ok (fold (load_client sha uuid now) cs r) \<and>
    reg_view (fold (load_client sha uuid now) cs r) = (\<lambda>n. case find (\<lambda>c. row_name c = n) cs of
       Some c \<Rightarrow> Some (row_vtoken c, row_label c) | None \<Rightarrow> reg_view r n)"
  using assms
proof (induction cs arbitrary: r)
  case Nil
  then show ?case by simp
next
  case (Cons c cs)
  have free: "reg_view r (row_name c) = None" "map_of (by_vtoken r) (row_vtoken c) = None" using Cons.prems(4) by auto
  note st = load_client_step [OF Cons.prems(1) free, of sha uuid now]
  have absent: "find (\<lambda>d. row_name d = row_name c) cs = None" using Cons.prems(2) by (auto simp: find_None_iff) (metis image_eqI)
  have "reg_ok (fold (load_client sha uuid now) cs (load_client sha uuid now c r)) \<and>
    reg_view (fold (load_client sha uuid now) cs (load_client sha uuid now c r)) = (\<lambda>n. case find (\<lambda>c. row_name c = n) cs of
       Some c \<Rightarrow> Some (row_vtoken c, row_label c) | None \<Rightarrow> reg_view (load_client sha uuid now c r) n)"
  proof (rule Cons.IH [OF st(1)])
    fix d assume d: "d \<in> set cs"
    then have "row_name d \<noteq> row_name c" "row_vtoken d \<noteq> row_vtoken c" using Cons.prems(2,3) by (auto simp: rev_image_eqI)
    then show "reg_view (load_client sha uuid now c r) (row_name d) = None \<and> map_of (by_vtoken (load_client sha uuid now c r)) (row_vtoken d) = None"
      using Cons.prems(4) [of d] d st(3) by (simp add: st(2))
  qed (use Cons.prems(2,3) in simp_all)
  then show ?case using absent by (auto simp: st(2) fun_eq_iff split: option.split)
qed

lemma list_clients_view:
  assumes "rows_ok (client_rows st)"
  shows "distinct (map row_name (list_clients st))" "distinct (map row_vtoken (list_clients st))"
    "(case find (\<lambda>c. row_name c = n) (list_clients st) of Some c \<Rightarrow> Some (row_vtoken c, row_label c) | None \<Rightarrow> None) = row_view st n"
proof -
  let ?rs = "sort_key cr_name (client_rows st)"
  have d: "distinct (map cr_name ?rs)" "distinct (map cr_vtoken ?rs)"
    using assms by (auto simp: rows_ok_def distinct_map)
  then show "distinct (map row_name (list_clients st))" "distinct (map row_vtoken (list_clients st))"
    by (simp_all add: list_clients_def decode_client_def comp_def)
  have "row_by_name n ?rs = row_by_name n (client_rows st)"
  proof (cases "row_by_name n (client_rows st)")
    case None
    then show ?thesis by (simp add: row_by_name_None [THEN iffD2] row_by_name_None [of n "client_rows st"])
  next
    case (Some x)
    then have "x \<in> set ?rs \<and> cr_name x = n" using assms by (simp add: rows_ok_def row_by_name_iff)
    then have "row_by_name n ?rs = Some x" using row_by_name_iff [OF d(1)] by blast
    then show ?thesis using Some by simp
  qed
  moreover have "find (\<lambda>c. row_name c = n) (map decode_client xs) = map_option decode_client (row_by_name n xs)" for xs
    by (induction xs) (auto simp: row_by_name_def decode_client_def)
  ultimately show "(case find (\<lambda>c. row_name c = n) (list_clients st) of Some c \<Rightarrow> Some (row_vtoken c, row_label c) | None \<Rightarrow> None) = row_view st n"
    by (simp add: list_clients_def row_view_def decode_client_def split: option.split)
qed

lemma backfill_view:
  "rows_ok (client_rows (backfill_personas cs st)) = rows_ok (client_rows st)" "row_view (backfill_personas cs st) = row_view st"
proof -
  have "rows_ok (client_rows (fold (\<lambda>c. update_client_persona (row_vtoken c) (Some (row_name c)) (Some DEFAULT_EMOJI)) xs st))
      = rows_ok (client_rows st)
    \<and> row_view (fold (\<lambda>c. update_client_persona (row_vtoken c) (Some (row_name c)) (Some DEFAULT_EMOJI)) xs st) = row_view st" for xs
    by (induction xs arbitrary: st) (simp_all add: update_client_persona_def on_vtoken_view)
  then show "rows_ok (client_rows (backfill_personas cs st)) = rows_ok (client_rows st)" "row_view (backfill_personas cs st) = row_view st"
    unfolding backfill_personas_def by blast+
qed

lemma route_view [simp]:
  "row_view (store_set_route u vt st) = row_view st" "client_rows (store_set_route u vt st) = client_rows st"
  "row_view (clear_routes_for_vtoken vt st) = row_view st" "client_rows (clear_routes_for_vtoken vt st) = client_rows st"
  "row_view (revoke_authorizations_for_vtoken vt st) = row_view st" "client_rows (revoke_authorizations_for_vtoken vt st) = client_rows st"
  by (simp_all add: row_view_def [abs_def] store_set_route_def clear_routes_for_vtoken_def revoke_authorizations_for_vtoken_def)

section \<open>Memory and database describe the same clients\<close>

definition mirror :: "HubState \<Rightarrow> bool" where
  "mirror h \<longleftrightarrow> reg_ok (hs_registry h) \<and> rows_ok (client_rows (hs_store h)) \<and> row_view (hs_store h) = reg_view (hs_registry h)"

definition restart :: "(string \<Rightarrow> 8 word list) \<Rightarrow> string \<Rightarrow> nat \<Rightarrow> HubState \<Rightarrow> HubState" where
  "restart sha uuid now h = load_clients_from_db sha uuid now
     (HubState_new (hs_store h) (hs_messages h) (queue_limit (hs_queue h)) (hs_relay_secret h) (hs_admin h) (hs_acl h))"

lemma restart_mirror:
  assumes "rows_ok (client_rows (hs_store h))"
  shows "mirror (restart sha uuid now h)" "reg_view (hs_registry (restart sha uuid now h)) = row_view (hs_store h)"
proof -
  let ?reg = "fold (load_client sha uuid now) (list_clients (hs_store h)) registry_new"
  have empty: "reg_view registry_new n = None" "map_of (by_vtoken registry_new) v = None" for n v
    by (simp_all add: reg_view_def get_by_name_def registry_new_def)
  have "reg_ok ?reg \<and> reg_view ?reg = (\<lambda>n. case find (\<lambda>c. row_name c = n) (list_clients (hs_store h)) of
       Some c \<Rightarrow> Some (row_vtoken c, row_label c) | None \<Rightarrow> reg_view registry_new n)"
    by (rule load_clients_view [OF reg_ok_new list_clients_view(1,2) [OF assms]]) (simp add: empty)
  then have reg: "reg_ok ?reg" "reg_view ?reg = row_view (hs_store h)"
    by (simp_all add: empty list_clients_view(3) [OF assms] cong: option.case_cong)
  have "hs_registry (restart sha uuid now h) = ?reg"
    "row_view (hs_store (restart sha uuid now h)) = row_view (hs_store h)"
    "client_rows (hs_store (restart sha uuid now h)) = client_rows (backfill_personas (list_clients (hs_store h)) (hs_store h))"
    by (simp_all add: restart_def load_clients_from_db_def HubState_new_def Let_def backfill_view split: option.split)
  with reg assms show "mirror (restart sha uuid now h)" "reg_view (hs_registry (restart sha uuid now h)) = row_view (hs_store h)"
    by (simp_all add: mirror_def backfill_view)
qed

lemma mirrorD:
  assumes "mirror h"
  shows "reg_ok (hs_registry h)" "rows_ok (client_rows (hs_store h))" "row_view (hs_store h) = reg_view (hs_registry h)"
  using assms by (simp_all add: mirror_def)

lemma mirror_token_free:
  assumes "mirror h" "fresh_hash (hs_registry h) k"
  shows "\<not> vtoken_taken k n (client_rows (hs_store h))"
proof
  assume "vtoken_taken k n (client_rows (hs_store h))"
  then obtain r where r: "r \<in> set (client_rows (hs_store h))" "cr_vtoken r = k" by (auto simp: vtoken_taken_def list_ex_iff)
  then have "reg_view (hs_registry h) (cr_name r) = Some (k, cr_label r)"
    using row_view_Some [OF mirrorD(2) [OF assms(1)], of "cr_name r" k "cr_label r"] mirrorD(3) [OF assms(1)] by auto
  then show False using assms(2) reg_okD(1) [OF mirrorD(1) [OF assms(1)]]
    by (auto simp: reg_view_eq fresh_hash_def split: option.splits)
qed

lemma mirror_token_owned:
  assumes "mirror h" "reg_view (hs_registry h) n = Some (k, l)"
  shows "\<not> vtoken_taken k n (client_rows (hs_store h))"
proof -
  obtain r where r: "r \<in> set (client_rows (hs_store h))" "cr_name r = n" "cr_vtoken r = k"
    using row_view_Some [OF mirrorD(2) [OF assms(1)], of n k l] mirrorD(3) [OF assms(1)] assms(2) by auto
  have "r' = r" if "r' \<in> set (client_rows (hs_store h))" "cr_vtoken r' = k" for r'
    using mirrorD(2) [OF assms(1)] that r by (auto simp: rows_ok_def distinct_map inj_on_def)
  then show ?thesis unfolding vtoken_taken_def list_ex_iff using r(2) by metis
qed

text \<open>The calls that change the set of clients, and how each changes the directory when it succeeds.\<close>

datatype lifecycle_op =
    LRegister string nat int RegisterRequest
  | LConfirmed string nat int string "string option"
  | LDelete string bool
  | LRevoke string int string
  | LUpdate string string "string option" "string option" "string option"
  | LOnline vtoken
  | LHealth nat
  | LRestart string nat

fun lifecycle_exec :: "(string \<Rightarrow> 8 word list) \<Rightarrow> lifecycle_op \<Rightarrow> HubState \<Rightarrow> bool \<times> HubState" where
  "lifecycle_exec sha (LRegister uuid now epoch req) h = (case http_register sha uuid now epoch req h of ((ret, _), h') \<Rightarrow> (ret \<noteq> 400, h'))"
| "lifecycle_exec sha (LConfirmed uuid now epoch nm lbl) h =
     (case register_confirmed_client_in_hub sha now epoch nm lbl None (''vhub_'' @ uuid) h of (res, h') \<Rightarrow> (\<exists>r. res = Inr r, h'))"
| "lifecycle_exec sha (LDelete nm force) h = (case admin_delete_client nm force h of (ret, h') \<Rightarrow> (ret = 0, h'))"
| "lifecycle_exec sha (LRevoke uuid epoch nm) h = (case admin_revoke_client sha uuid epoch nm h of ((ret, _), h') \<Rightarrow> (ret = 0, h'))"
| "lifecycle_exec sha (LUpdate old new lbl pn pe) h = (case admin_update_client old new lbl pn pe h of (ret, h') \<Rightarrow> (ret = 0, h'))"
| "lifecycle_exec sha (LOnline v) h = (True, h\<lparr>hs_registry := mark_online v (hs_registry h)\<rparr>)"
| "lifecycle_exec sha (LHealth now) h = (True, health_check now h)"
| "lifecycle_exec sha (LRestart uuid now) h = (True, restart sha uuid now h)"

fun dir_exec :: "(string \<Rightarrow> 8 word list) \<Rightarrow> lifecycle_op \<Rightarrow> client_dir \<Rightarrow> client_dir" where
  "dir_exec sha (LRegister uuid now epoch req) d = (case d (rq_name req) of
     None \<Rightarrow> d(rq_name req \<mapsto> (hash_vtoken sha (''vhub_'' @ uuid), rq_label req))
   | Some (v, l) \<Rightarrow> d(rq_name req \<mapsto> (v, opt_or (rq_label req) l)))"
| "dir_exec sha (LConfirmed uuid now epoch nm lbl) d = d(nm \<mapsto> (hash_vtoken sha (''vhub_'' @ uuid), lbl))"
| "dir_exec sha (LDelete nm force) d = d(trim nm := None)"
| "dir_exec sha (LRevoke uuid epoch nm) d = (case d (trim nm) of None \<Rightarrow> d
   | Some (v, l) \<Rightarrow> d(trim nm \<mapsto> (hash_vtoken sha (''vhub_'' @ uuid), l)))"
| "dir_exec sha (LUpdate old new lbl pn pe) d = (case d (trim old) of None \<Rightarrow> d
   | Some (v, l) \<Rightarrow> (d(trim old := None))(trim new \<mapsto> (v, opt_or lbl l)))"
| "dir_exec sha (LOnline v) d = d"
| "dir_exec sha (LHealth now) d = d"
| "dir_exec sha (LRestart uuid now) d = d"

text \<open>The token a call would mint is not in use.\<close>

fun op_fresh :: "(string \<Rightarrow> 8 word list) \<Rightarrow> lifecycle_op \<Rightarrow> HubState \<Rightarrow> bool" where
  "op_fresh sha (LRegister uuid now epoch req) h = fresh_hash (hs_registry h) (hash_vtoken sha (''vhub_'' @ uuid))"
| "op_fresh sha (LConfirmed uuid now epoch nm lbl) h = fresh_hash (hs_registry h) (hash_vtoken sha (''vhub_'' @ uuid))"
| "op_fresh sha (LRevoke uuid epoch nm) h = fresh_hash (hs_registry h) (hash_vtoken sha (''vhub_'' @ uuid))"
| "op_fresh sha _ h = True"

text \<open>\<open>refined d h\<close>: the hub describes the directory \<open>d\<close>, in memory and in the database.\<close>

definition refined :: "client_dir \<Rightarrow> HubState \<Rightarrow> bool" where
  "refined d h \<longleftrightarrow> mirror h \<and> reg_view (hs_registry h) = d"

lemma refine_register_in_hub:
  assumes ref: "refined d h" and fresh: "fresh_hash (hs_registry h) (hash_vtoken sha (''vhub_'' @ uuid))"
    and res: "register_client_in_hub sha uuid now epoch nm lbl desc h = (out, h')"
  shows "refined (case d nm of None \<Rightarrow> d(nm \<mapsto> (hash_vtoken sha (''vhub_'' @ uuid), lbl)) | Some (v, l) \<Rightarrow> d(nm \<mapsto> (v, opt_or lbl l))) h'"
proof -
  have m: "mirror h" and d: "reg_view (hs_registry h) = d" using ref by (simp_all add: refined_def)
  obtain plain k is_new r' where reg: "register sha uuid now nm lbl desc (hs_registry h) = ((plain, k, is_new), r')"
    by (metis prod.exhaust)
  note v = view_register [OF mirrorD(1) [OF m] fresh reg]
  have ok: "reg_ok r'" using reg_ok_register [OF mirrorD(1) [OF m] fresh, of now nm lbl desc] reg by simp
  have free: "\<not> vtoken_taken k nm (client_rows (hs_store h))"
    using mirror_token_free [OF m fresh, of nm] mirror_token_owned [OF m, of nm] v
    by (cases "reg_view (hs_registry h) nm") auto
  define st where "st = (if is_new \<and> length (all_clients r') = 1 then store_set_route HUB_DEFAULT_SENTINEL k (hs_store h) else hs_store h)"
  have st: "client_rows st = client_rows (hs_store h)" "row_view st = row_view (hs_store h)" by (simp_all add: st_def)
  have h': "hs_registry h' = r'" "hs_store h' = snd (upsert_client epoch k nm lbl st)"
    using res by (auto simp: register_client_in_hub_def reg Let_def st_def split: if_splits)
  note u = upsert_view [of st k nm epoch lbl]
  show ?thesis unfolding refined_def mirror_def h'
    using u(2,3) st free mirrorD(2,3) [OF m] ok v d
    by (auto split: option.splits)
qed

lemma reg_ok_persona: "reg_ok r \<Longrightarrow> reg_ok (set_persona k pn pe r)"
  by (simp add: set_persona_def reg_ok_metadata)

lemma metadata_views:
  "row_view (update_client_persona k pn pe st) = row_view st"
  "rows_ok (client_rows (update_client_persona k pn pe st)) = rows_ok (client_rows st)"
  "row_view (snd (update_client_description k (Some t) st)) = row_view st"
  "rows_ok (client_rows (snd (update_client_description k (Some t) st))) = rows_ok (client_rows st)"
  by (simp_all add: update_client_persona_def update_client_description_def on_vtoken_view)

lemmas metadata_laws = metadata_views view_keeps reg_ok_persona reg_ok_description

lemma refine_register:
  assumes ref: "refined d h" and fresh: "op_fresh sha (LRegister uuid now epoch req) h"
    and res: "lifecycle_exec sha (LRegister uuid now epoch req) h = (ok, h')"
  shows "refined (if ok then dir_exec sha (LRegister uuid now epoch req) d else d) h'"
proof -
  obtain out h1 where reg: "register_client_in_hub sha uuid now epoch (rq_name req) (rq_label req) (rq_description req) h = (out, h1)"
    by (metis prod.exhaust)
  have r1: "refined (dir_exec sha (LRegister uuid now epoch req) d) h1"
    using refine_register_in_hub [OF ref _ reg] fresh by (simp split: option.split)
  show ?thesis
  proof (cases "ok")
    case False
    then show ?thesis using res reg ref by (auto simp: http_register_def Let_def split: if_splits)
  next
    case True
    then show ?thesis using res reg r1
      by (auto simp: http_register_def Let_def refined_def mirror_def metadata_laws split: if_splits option.splits)
  qed
qed

lemma refine_confirmed:
  assumes ref: "refined d h" and fresh: "op_fresh sha (LConfirmed uuid now epoch nm lbl) h"
    and res: "lifecycle_exec sha (LConfirmed uuid now epoch nm lbl) h = (ok, h')"
  shows "refined (if ok then dir_exec sha (LConfirmed uuid now epoch nm lbl) d else d) h'"
proof (cases "map_of (by_name (hs_registry h)) nm")
  case (Some k)
  then show ?thesis using res ref by (auto simp: register_confirmed_client_in_hub_def register_confirmed_def Let_def)
next
  case None
  let ?k = "hash_vtoken sha (''vhub_'' @ uuid)"
  have m: "mirror h" and d: "reg_view (hs_registry h) = d" using ref by (simp_all add: refined_def)
  obtain r' where reg: "register_confirmed now nm lbl None ?k (hs_registry h) = Inr r'"
    using None by (simp add: register_confirmed_def)
  have fr: "fresh_hash (hs_registry h) ?k" using fresh by simp
  have v: "reg_view r' = d(nm \<mapsto> (?k, lbl))" "reg_ok r'"
    using view_add [OF mirrorD(1) [OF m], of "with_hashed_vtoken now nm lbl None ?k" nm] fr reg d None
      reg_ok_register_confirmed [OF mirrorD(1) [OF m] fr reg]
    by (auto simp: register_confirmed_def fresh_hash_def)
  have "reg_view (hs_registry h) nm = None" using None reg_view_None [OF mirrorD(1) [OF m]] by blast
  then have "hs_registry h' = r'" "hs_store h' = snd (upsert_client epoch ?k nm lbl (hs_store h))" "ok"
    "row_view (hs_store h) nm = None"
    using res reg mirrorD(3) [OF m] by (auto simp: register_confirmed_client_in_hub_def Let_def split: if_splits)
  then show ?thesis using upsert_view(2,3) [OF mirrorD(2) [OF m] mirror_token_free [OF m fr, of nm], of epoch lbl] v mirrorD(3) [OF m] d
    by (simp add: refined_def mirror_def)
qed

definition unregistered :: "string \<Rightarrow> ClientInfo \<Rightarrow> HubState \<Rightarrow> HubState" where
  "unregistered nm c h = (let reg = snd (remove nm (hs_registry h)); vt = vtoken c in
     h\<lparr>hs_registry := reg, hs_router := remove_routes_for_vtoken vt (pick_default_after_remove reg vt) (hs_router h),
       hs_last_seen := hm_remove vt (hs_last_seen h), hs_queue := remove_client (hs_queue h) vt,
       hs_store := snd (delete_client_by_name nm (clear_routes_for_vtoken vt (hs_store h)))\<rparr>)"

lemma unregister_result:
  "unregister_client_in_hub nm force h = (case get_by_name (hs_registry h) nm of
     None \<Rightarrow> (Inl UnregNotFound, h)
   | Some c \<Rightarrow> if online c \<and> \<not> force then (Inl StillOnline, h) else (Inr (), unregistered nm c h))"
proof (cases "get_by_name (hs_registry h) nm")
  case None
  then show ?thesis by (simp add: unregister_client_in_hub_def)
next
  case (Some c)
  then have "fst (remove nm (hs_registry h))" by (auto simp: get_by_name_def remove_def bind_eq_Some_conv)
  then obtain reg where "remove nm (hs_registry h) = (True, reg)" by (cases "remove nm (hs_registry h)") auto
  then show ?thesis using Some by (simp add: unregister_client_in_hub_def unregistered_def Let_def)
qed

lemma refine_delete:
  assumes ref: "refined d h" and res: "lifecycle_exec sha (LDelete nm force) h = (ok, h')"
  shows "refined (if ok then dir_exec sha (LDelete nm force) d else d) h'"
proof -
  have m: "mirror h" and d: "reg_view (hs_registry h) = d" using ref by (simp_all add: refined_def)
  consider "h' = h" "\<not> ok" | c where "ok" "h' = unregistered (trim nm) c h"
  proof (cases "trim nm = []")
    case True
    then show ?thesis using that(1) res by (simp add: admin_delete_client_def)
  next
    case False
    then show ?thesis using that res
      by (cases "get_by_name (hs_registry h) (trim nm)")
        (auto simp: admin_delete_client_def unregister_result Let_def split: if_splits)
  qed
  then show ?thesis
  proof cases
    case (2 c)
    note dv = delete_view [of "clear_routes_for_vtoken (vtoken c) (hs_store h)" "trim nm"]
    show ?thesis using 2 dv mirrorD(2,3) [OF m] d view_remove [OF mirrorD(1) [OF m], of "trim nm"]
        reg_ok_remove [OF mirrorD(1) [OF m], of "trim nm"]
      by (simp add: refined_def mirror_def unregistered_def Let_def)
  qed (use ref in simp)
qed

lemma refine_revoke:
  assumes ref: "refined d h" and fresh: "op_fresh sha (LRevoke uuid epoch nm) h"
    and res: "lifecycle_exec sha (LRevoke uuid epoch nm) h = (ok, h')"
  shows "refined (if ok then dir_exec sha (LRevoke uuid epoch nm) d else d) h'"
proof (cases "trim nm = [] \<or> get_by_name (hs_registry h) (trim nm) = None")
  case True
  then show ?thesis using res ref by (cases "trim nm = []") (auto simp: admin_revoke_client_def revoke_client_in_hub_def Let_def)
next
  case False
  have m: "mirror h" and d: "reg_view (hs_registry h) = d" using ref by (simp_all add: refined_def)
  have fr: "fresh_hash (hs_registry h) (hash_vtoken sha (''vhub_'' @ uuid))" using fresh by simp
  obtain c where c: "get_by_name (hs_registry h) (trim nm) = Some c" using False by auto
  note g = reg_view_get [OF mirrorD(1) [OF m] c]
  have view: "d (trim nm) = Some (vtoken c, label c)" using g d by auto
  obtain plain k r' where rot: "rotate_vtoken sha uuid (trim nm) (hs_registry h) = (Some (plain, k), r')"
    using g by (simp add: rotate_vtoken_def Let_def)
  have v: "reg_view r' = d(trim nm \<mapsto> (k, label c))" "k = hash_vtoken sha (''vhub_'' @ uuid)"
    using view_rotate [OF mirrorD(1) [OF m] fr rot] g d by auto
  have ok': "reg_ok r'" using reg_ok_rotate [OF mirrorD(1) [OF m] fr, of "trim nm"] rot by simp
  let ?st = "revoke_authorizations_for_vtoken (vtoken c) (hs_store h)"
  have rows: "rows_ok (client_rows ?st)" "\<not> vtoken_taken k (trim nm) (client_rows ?st)"
    using mirrorD(2) [OF m] mirror_token_free [OF m fr, of "trim nm"] v(2) by simp_all
  note u = upsert_view [OF rows, of epoch "label c"]
  obtain st' where st': "upsert_client epoch k (trim nm) (label c) ?st = (Inr (), st')" using u(1) by (cases "upsert_client epoch k (trim nm) (label c) ?st") auto
  have "ok" "hs_registry h' = r'" "hs_store h' = st'"
    using res c rot st' False by (auto simp: admin_revoke_client_def revoke_client_in_hub_def Let_def)
  then show ?thesis using u(2,3) v ok' view mirrorD(3) [OF m] d st' by (simp add: refined_def mirror_def opt_or_def split: option.split)
qed

lemma refine_update:
  assumes ref: "refined d h" and res: "lifecycle_exec sha (LUpdate old new lbl pn pe) h = (ok, h')"
  shows "refined (if ok then dir_exec sha (LUpdate old new lbl pn pe) d else d) h'"
proof -
  have m: "mirror h" and d: "reg_view (hs_registry h) = d" using ref by (simp_all add: refined_def)
  show ?thesis
  proof (cases "\<exists>k r'. trim old \<noteq> [] \<and> trim new \<noteq> [] \<and> update_client (trim old) (trim new) lbl (hs_registry h) = (Inr k, r')")
    case False
    then have "h' = h" "\<not> ok" using res
      by (auto simp: admin_update_client_def update_client_in_hub_def Let_def split: if_splits prod.splits sum.splits UpdateClientError.splits)
    then show ?thesis using ref by simp
  next
    case True
    then obtain k r' where upd: "trim old \<noteq> []" "trim new \<noteq> []" "update_client (trim old) (trim new) lbl (hs_registry h) = (Inr k, r')" by blast
    obtain l where v: "reg_view (hs_registry h) (trim old) = Some (k, l)" "trim new = trim old \<or> reg_view (hs_registry h) (trim new) = None"
      "reg_view r' = (d(trim old := None))(trim new \<mapsto> (k, opt_or lbl l))"
      using row_view_update [OF mirrorD(1) [OF m] upd(3)] d by auto
    have ok': "reg_ok r'" using reg_ok_update_client [OF mirrorD(1) [OF m], of "trim old" "trim new" lbl] upd(3) by simp
    note u = rename_view [OF mirrorD(2) [OF m], of "trim old" k l "trim new" lbl, unfolded mirrorD(3) [OF m], OF v(1,2)]
    obtain st' where st': "update_client_by_vtoken k (trim new) lbl (hs_store h) = (Inr (), st')"
      using u(1) by (cases "update_client_by_vtoken k (trim new) lbl (hs_store h)") auto
    have "ok" "hs_registry h' = set_persona k pn pe r'" "hs_store h' = update_client_persona k pn pe st'"
      using res upd st' by (auto simp: admin_update_client_def update_client_in_hub_def Let_def)
    then show ?thesis using u(2,3) v d ok' st'
      by (simp add: refined_def mirror_def metadata_laws)
  qed
qed

lemma refine_step:
  assumes "refined d h" "op_fresh sha x h" "lifecycle_exec sha x h = (ok, h')"
  shows "refined (if ok then dir_exec sha x d else d) h'"
proof (cases x)
  case (LRegister uuid now epoch req)
  then show ?thesis using refine_register assms by blast
next
  case (LConfirmed uuid now epoch nm lbl)
  then show ?thesis using refine_confirmed assms by blast
next
  case (LDelete nm force)
  then show ?thesis using refine_delete assms by blast
next
  case (LRevoke uuid epoch nm)
  then show ?thesis using refine_revoke assms by blast
next
  case (LUpdate old new lbl pn pe)
  then show ?thesis using refine_update assms by blast
next
  case (LOnline v)
  then show ?thesis using assms by (auto simp: refined_def mirror_def reg_ok_online view_keeps)
next
  case (LHealth now)
  have "reg_ok r \<Longrightarrow> reg_ok (fold mark_offline vs r) \<and> reg_view (fold mark_offline vs r) = reg_view r" for vs r
    by (induction vs arbitrary: r) (simp_all add: reg_ok_offline view_keeps)
  then show ?thesis using assms LHealth by (auto simp: refined_def mirror_def health_check_def)
next
  case (LRestart uuid now)
  then show ?thesis using assms restart_mirror [of h sha uuid now] by (auto simp: refined_def mirror_def)
qed

fun lifecycle_run :: "(string \<Rightarrow> 8 word list) \<Rightarrow> HubState \<Rightarrow> lifecycle_op list \<Rightarrow> HubState" where
  "lifecycle_run sha h [] = h"
| "lifecycle_run sha h (x # xs) = lifecycle_run sha (snd (lifecycle_exec sha x h)) xs"

fun run_fresh :: "(string \<Rightarrow> 8 word list) \<Rightarrow> HubState \<Rightarrow> lifecycle_op list \<Rightarrow> bool" where
  "run_fresh sha h [] = True"
| "run_fresh sha h (x # xs) = (op_fresh sha x h \<and> run_fresh sha (snd (lifecycle_exec sha x h)) xs)"

text \<open>The directory after the calls that succeeded.\<close>

fun dir_run :: "(string \<Rightarrow> 8 word list) \<Rightarrow> HubState \<Rightarrow> client_dir \<Rightarrow> lifecycle_op list \<Rightarrow> client_dir" where
  "dir_run sha h d [] = d"
| "dir_run sha h d (x # xs) = dir_run sha (snd (lifecycle_exec sha x h)) (if fst (lifecycle_exec sha x h) then dir_exec sha x d else d) xs"

lemma refine_run: "refined d h \<Longrightarrow> run_fresh sha h ops \<Longrightarrow> refined (dir_run sha h d ops) (lifecycle_run sha h ops)"
proof (induction ops arbitrary: d h)
  case Nil
  then show ?case by simp
next
  case (Cons x xs)
  then show ?case using refine_step [OF Cons.prems(1), of sha x "fst (lifecycle_exec sha x h)" "snd (lifecycle_exec sha x h)"] by simp
qed

section \<open>Revocation and names\<close>

lemma retain_keys: "map_of (hm_retain (\<lambda>k _. p k) m) x = (if p x then map_of m x else None)"
  by (induction m) (auto simp: hm_retain_def)

lemma pick_default_not_removed: "pick_default_after_remove r v \<noteq> Some v"
  by (auto simp: pick_default_after_remove_def opt_or_def find_Some_iff split: option.splits)

lemma revoke_store_grants:
  "vtoken_owns_vctx t (revoke_authorizations_for_vtoken old st) v w \<longleftrightarrow> w \<noteq> old \<and> vtoken_owns_vctx t st v w"
proof -
  have "map_of (active_sessions (revoke_authorizations_for_vtoken old st)) (v, w) = (if w \<noteq> old then map_of (active_sessions st) (v, w) else None)"
    using retain_keys [of "\<lambda>(_, vt'). vt' \<noteq> old" "active_sessions st" "(v, w)"]
    by (simp add: revoke_authorizations_for_vtoken_def case_prod_beta')
  moreover have "named_grant (revoke_authorizations_for_vtoken old st) v w \<longleftrightarrow> w \<noteq> old \<and> named_grant st v w"
    by (auto simp: named_grant_def revoke_authorizations_for_vtoken_def hm_retain_def list_ex_iff)
  ultimately show ?thesis by (simp add: vtoken_owns_vctx_def active_grant_def)
qed

lemma upsert_other_tables:
  "active_sessions (snd (upsert_client e vt n l st)) = active_sessions st"
  "backend_sessions_v2 (snd (upsert_client e vt n l st)) = backend_sessions_v2 st"
  "snd ` set (routing_state (snd (upsert_client e vt n l st))) \<subseteq> insert vt (snd ` set (routing_state st))"
  by (auto simp: upsert_client_def image_iff split: option.splits) force+

lemma upsert_grants: "vtoken_owns_vctx t (snd (upsert_client e vt n l st)) v w = vtoken_owns_vctx t st v w"
  by (simp add: vtoken_owns_vctx_def active_grant_def named_grant_def upsert_other_tables)

text \<open>The admin calls address a client by its trimmed name.\<close>

fun by_path :: "lifecycle_op \<Rightarrow> bool" where
  "by_path (LDelete nm force) = True"
| "by_path (LRevoke uuid epoch nm) = True"
| "by_path (LUpdate old new lbl pn pe) = True"
| "by_path _ = False"

lemma untrimmed_untouched: "by_path x \<Longrightarrow> trim n \<noteq> n \<Longrightarrow> dir_exec sha x d n = d n"
  by (cases x) (auto split: option.split)

lemma untrimmed_run: "\<forall>x \<in> set ops. by_path x \<Longrightarrow> trim n \<noteq> n \<Longrightarrow> dir_run sha h d ops n = d n"
  by (induction ops arbitrary: h d) (auto simp: untrimmed_untouched)

section \<open>Properties\<close>


definition empty_hub :: HubState where
  "empty_hub = HubState_new (Store_new Sqlite 60) MessageTable_new 10 [] \<lparr>token = None, insecure_no_auth = False, outbound_origin_label = None\<rparr>
     \<lparr>a2a = [], wechat_users = [], wechat_public = {}, spec_present = False\<rparr>"

lemma restart_empty: "hs_registry (restart sha uuid now empty_hub) = registry_new" "client_rows (hs_store empty_hub) = []"
  by (simp_all add: restart_def empty_hub_def HubState_new_def load_clients_from_db_def Store_new_def list_clients_def Let_def
      split: option.split)




text \<open>A name registered with surrounding white space is out of the admin's reach.  The registration handler checks the
  trimmed name and stores the untrimmed one, while delete, revoke and rename trim the name they are given, so no
  sequence of those calls removes or changes such a client.\<close>

theorem untrimmed_client_unreachable:
  assumes "rows_ok (client_rows (hs_store h0))" "h = restart sha u0 t0 h0"
    and "trim (rq_name req) \<noteq> rq_name req" "trim (rq_name req) \<noteq> []" "length (trim (rq_name req)) \<le> MAX_CLIENT_NAME_LEN" "rq_label req = None"
    and "row_view (hs_store h0) (rq_name req) = None"
    and "run_fresh sha h (LRegister uuid now epoch req # ops)" "\<forall>x \<in> set ops. by_path x"
  shows "reg_view (hs_registry (lifecycle_run sha h (LRegister uuid now epoch req # ops))) (rq_name req) = Some (hash_vtoken sha (''vhub_'' @ uuid), None)"
proof -
  let ?x = "LRegister uuid now epoch req"
  have "refined (row_view (hs_store h0)) h" using restart_mirror [OF assms(1), of sha u0 t0] assms(2) by (simp add: refined_def)
  then have "refined (dir_run sha h (row_view (hs_store h0)) (?x # ops)) (lifecycle_run sha h (?x # ops))" using assms(8) by (rule refine_run)
  moreover have "fst (lifecycle_exec sha ?x h)"
    using assms(4-6) by (simp add: http_register_def Let_def split: prod.split)
  ultimately show ?thesis using assms(3,6,7,9) by (simp add: refined_def untrimmed_run)
qed

theorem untrimmed_client_unreachable_witness:
  "reg_view (hs_registry (lifecycle_run (\<lambda>_. []) (restart (\<lambda>_. []) [] 0 empty_hub)
     [LRegister ''u'' 1 1 \<lparr>rq_name = '' bot'', rq_label = None, rq_description = None, rq_persona_name = None, rq_persona_emoji = None\<rparr>,
      LDelete '' bot'' True])) '' bot'' = Some (hash_vtoken (\<lambda>_. []) ''vhub_u'', None)"
proof -
  let ?req = "\<lparr>rq_name = '' bot'', rq_label = None, rq_description = None, rq_persona_name = None, rq_persona_emoji = None\<rparr>"
  have t: "trim '' bot'' = ''bot''" by code_simp
  have "run_fresh (\<lambda>_. []) (restart (\<lambda>_. []) [] 0 empty_hub) (LRegister ''u'' 1 1 ?req # [LDelete '' bot'' True])"
    by (simp add: restart_empty fresh_hash_def registry_new_def)
  then show ?thesis
    using untrimmed_client_unreachable [of empty_hub "restart (\<lambda>_. []) [] 0 empty_hub" "\<lambda>_. []" "[]" 0 ?req "''u''" 1 1 "[LDelete '' bot'' True]"]
    by (simp add: t restart_empty rows_ok_def MAX_CLIENT_NAME_LEN_def row_view_def row_by_name_def)
qed

end
