(* ===== verification/Hub_Dispatch.thy ===== *)
theory Hub_Dispatch
  imports Hub_Commands Client_Lifecycle
begin

text \<open>
  The dispatcher (\<open>hub/dispatch/pipeline.rs\<close>): every message polled from upstream is a mention, a
  command, a quote reply or a message for the selected backend.  The lemmas follow a message through
  resolution, the ownership grant and the queue; the latency histogram is not part of the state.
\<close>

section \<open>Forwarding\<close>

definition save_history :: "DispatchEnv \<Rightarrow> vctx \<Rightarrow> vtoken \<Rightarrow> string \<Rightarrow> string \<Rightarrow> string option \<Rightarrow> HubState \<Rightarrow> HubState" where
  "save_history env v vt sn peer content h = (case content of None \<Rightarrow> h
     | Some t \<Rightarrow>
         if \<not> de_permit env
         then h\<lparr>hs_metrics := (hs_metrics h)\<lparr>mt_persist_dropped := mt_persist_dropped (hs_metrics h) + 1\<rparr>\<rparr>
         else if de_fault env ''save_message'' vt \<noteq> None then h
         else h\<lparr>hs_messages := save_message (de_now env) v (Some vt) sn peer ''user'' t (hs_messages h)\<rparr>)"

definition forward_to :: "DispatchEnv \<Rightarrow> vtoken \<Rightarrow> string option \<Rightarrow> WeixinMessage \<Rightarrow> HubState \<Rightarrow> HubState" where
  "forward_to env vt override msg h =
     (case opt_filter (\<lambda>c. c \<noteq> []) (context_token msg) of
        None \<Rightarrow> h
      | Some rc \<Rightarrow>
          (let peer = unwrap_or [] (from_user_id msg);
               (v, h1) = resolve_vctx_for_message env [] rc peer (group_id msg) h;
               ext = build_hub_ext_for_vctx env (hs_store h1) v vt override;
               h2 = grant_dispatch env v vt (session_of_ext ext) h1;
               h3 = push_to_queue vt (msg\<lparr>context_token := Some v, ilink_hub_ext := ext\<rparr>) h2
           in save_history env v vt (session_of_ext ext) peer (msg_text msg) h3))"

section \<open>Broadcast\<close>

definition broadcast_ext :: "(vctx \<times> vtoken, string \<times> string option) hmap \<Rightarrow> vctx \<Rightarrow> vtoken \<Rightarrow> HubExt option" where
  "broadcast_ext data v vt = map_option (\<lambda>(n, sid). session_ext n sid) (map_of data (v, vt))"

definition broadcast_to ::
  "DispatchEnv \<Rightarrow> vctx \<Rightarrow> (vctx \<times> vtoken, string \<times> string option) hmap \<Rightarrow> WeixinMessage \<Rightarrow> vtoken \<Rightarrow> HubState \<Rightarrow> HubState" where
  "broadcast_to env v data msg vt h =
     (let ext = broadcast_ext data v vt
      in push_shared_to_queue vt msg (Some v) ext (grant_dispatch env v vt (session_of_ext ext) h))"

definition handle_broadcast :: "DispatchEnv \<Rightarrow> WeixinMessage \<Rightarrow> HubState \<Rightarrow> HubState" where
  "handle_broadcast env msg h =
     (let targets = map vtoken (online_clients (hs_registry h)); ctx = opt_filter (\<lambda>c. c \<noteq> []) (context_token msg)
      in if targets = []
         then (let h1 = h\<lparr>hs_metrics := (hs_metrics h)\<lparr>mt_dropped := mt_dropped (hs_metrics h) + 1\<rparr>\<rparr>
               in case ctx of None \<Rightarrow> h1
                  | Some rc \<Rightarrow> send_upstream (reply_text (de_uuid env ''reply'' []) (de_msg_id env) rc
                       (build_no_backend_reply (msg_text msg)) (unwrap_or [] (from_user_id msg)) None) h1)
         else (case ctx of None \<Rightarrow> h
               | Some rc \<Rightarrow>
                   (let (v, h1) = resolve_vctx_for_message env [] rc (unwrap_or [] (from_user_id msg)) (group_id msg) h;
                        data = (if de_fault env ''get_hub_ext_batch'' v \<noteq> None then []
                                else get_hub_ext_batch (hs_store h1) (map (\<lambda>vt. (v, vt)) targets))
                    in fold (broadcast_to env v data msg) targets h1)))"

section \<open>The dispatcher\<close>

definition mention_target :: "HubState \<Rightarrow> WeixinMessage \<Rightarrow> (vtoken \<times> string) option" where
  "mention_target h msg = Option.bind (msg_text msg) (\<lambda>t. Option.bind (parse_at_mention t) (\<lambda>(nm, payload).
     map_option (\<lambda>c. (vtoken c, payload))
       (get_by_alias_in (hs_registry h) nm (wechat_visible_in h (unwrap_or [] (from_user_id msg))))))"

definition count_quote_miss :: "WeixinMessage \<Rightarrow> QuoteOrigin option \<Rightarrow> HubState \<Rightarrow> HubState" where
  "count_quote_miss msg quoted h =
     (if quoted = None \<and> collect_quoted_timestamp msg \<noteq> None
      then h\<lparr>hs_metrics := (hs_metrics h)\<lparr>mt_quote_miss := mt_quote_miss (hs_metrics h) + 1\<rparr>\<rparr> else h)"

definition run_decision :: "DispatchEnv \<Rightarrow> WeixinMessage \<Rightarrow> RoutingDecision \<Rightarrow> HubState \<Rightarrow> HubState" where
  "run_decision env msg d h = (case d of
     HubInternal cmd \<Rightarrow> handle_hub_command env msg cmd h
   | ForwardTo vt override \<Rightarrow> forward_to env vt override msg h
   | Broadcast \<Rightarrow> handle_broadcast env msg h)"

definition dispatch_message :: "DispatchEnv \<Rightarrow> WeixinMessage \<Rightarrow> HubState \<Rightarrow> HubState" where
  "dispatch_message env msg h =
     (if message_type msg = Some 2 then h
      else let h1 = h\<lparr>hs_metrics := (hs_metrics h)\<lparr>mt_user_messages := mt_user_messages (hs_metrics h) + 1\<rparr>\<rparr> in
        (case mention_target h1 msg of
           Some (vt, payload) \<Rightarrow> handle_at_mention env msg vt payload h1
         | None \<Rightarrow>
             (let base = route (de_ts env) (hs_router h1) msg;
                  quoted = resolve_quote env h1 msg;
                  h2 = count_quote_miss msg quoted h1
              in run_decision env msg (merge_routing_with_quote base quoted) h2)))"

text \<open>The dispatcher task: messages in the order the channel delivers them, until it is closed or shut down.\<close>

datatype channel_event = Received DispatchEnv WeixinMessage | Shutdown bool

fun run_dispatcher :: "channel_event list \<Rightarrow> HubState \<Rightarrow> HubState" where
  "run_dispatcher [] h = h"
| "run_dispatcher (Shutdown stop # evs) h = (if stop then h else run_dispatcher evs h)"
| "run_dispatcher (Received env msg # evs) h = run_dispatcher evs (dispatch_message env msg h)"

section \<open>A forwarded message can be answered\<close>

lemma save_history_fields [simp]:
  "hs_store (save_history env v vt sn peer t h) = hs_store h" "hs_queue (save_history env v vt sn peer t h) = hs_queue h"
  "hs_registry (save_history env v vt sn peer t h) = hs_registry h" "hs_router (save_history env v vt sn peer t h) = hs_router h"
  "hs_sent (save_history env v vt sn peer t h) = hs_sent h"
  by (simp_all add: save_history_def split: option.split)

lemma count_quote_miss_fields [simp]:
  "hs_store (count_quote_miss m q h) = hs_store h" "hs_queue (count_quote_miss m q h) = hs_queue h"
  "hs_registry (count_quote_miss m q h) = hs_registry h" "hs_router (count_quote_miss m q h) = hs_router h"
  "hs_acl (count_quote_miss m q h) = hs_acl h" "hs_sent (count_quote_miss m q h) = hs_sent h"
  "hs_messages (count_quote_miss m q h) = hs_messages h"
  by (simp_all add: count_quote_miss_def)

lemma count_quote_miss_frame: "\<exists>y. count_quote_miss m q h = h\<lparr>hs_metrics := y\<rparr>"
  unfolding count_quote_miss_def
  by (cases "q = None \<and> collect_quoted_timestamp m \<noteq> None") (simp, blast, rule exI [of _ "hs_metrics h"], simp)

lemma metrics_irrelevant [simp]:
  "mention_target (h\<lparr>hs_metrics := x\<rparr>) msg = mention_target h msg"
  "resolve_quote env (h\<lparr>hs_metrics := x\<rparr>) msg = resolve_quote env h msg"
  by (simp_all add: mention_target_def wechat_visible_in_def resolve_quote_def resolve_quote_from_msg_id_def
      resolve_quote_from_timestamp_def resolve_quote_from_db_def resolve_quote_from_footer_def Let_def case_prod_unfold
      cong: if_cong option.case_cong)

lemma push_accepted:
  assumes "queue_ok (hs_queue h)" "length (pending (hs_queue h) vt) < queue_limit (hs_queue h)"
    "allocated (hs_queue h) vt < 2 ^ 63 - 1"
  shows "pending (hs_queue (push_to_queue vt m h)) = (pending (hs_queue h))(vt := pending (hs_queue h) vt @
    [m\<lparr>seq := Some (int (Suc (allocated (hs_queue h) vt)))\<rparr>])"
proof -
  obtain s q1 where g: "get_or_create (hs_queue h) vt = (s, q1)" by fastforce
  have "queue_limit q1 = queue_limit (hs_queue h)"
    using g by (auto simp: get_or_create_def Let_def split: option.splits)
  then have "\<not> fst (slot_push s m)"
    using assms(1,2) get_or_create_ok [OF assms(1) g] get_or_create_view [OF g] by (simp add: slot_push_def)
  then have "fst (queue_push (hs_queue h) vt m) = False"
    using g by (cases "slot_push s m") (simp add: queue_push_def)
  then obtain q' where q': "queue_push (hs_queue h) vt m = (False, q')" by (metis prod.collapse)
  with queue_push_accepted_view [OF assms(1,3) q'] show ?thesis by (simp add: push_to_queue_def)
qed

definition hub_ready :: "DispatchEnv \<Rightarrow> vtoken \<Rightarrow> HubState \<Rightarrow> bool" where
  "hub_ready env vt h \<longleftrightarrow> ctx_ok (context_token_map (hs_store h)) \<and> fresh_vctx env [] h \<and> no_faults env
     \<and> de_now env < grant_expires_at (de_now env) (hs_store h)
     \<and> queue_ok (hs_queue h) \<and> length (pending (hs_queue h) vt) < queue_limit (hs_queue h) \<and> allocated (hs_queue h) vt < 2 ^ 63 - 1"

lemma forward_to_grants:
  assumes "hub_ready env vt h" "context_token msg = Some rc" "rc \<noteq> []"
    and "\<not> ctx_shared (context_token_map (hs_store h)) rc (conv_key (unwrap_or [] (from_user_id msg)) (group_id msg))"
  shows "\<exists>v ext. (\<forall>t < grant_expires_at (de_now env) (hs_store h).
         resolve_send_context t (hs_store (forward_to env vt ov msg h)) v vt
          = Some (rc, conv_key (unwrap_or [] (from_user_id msg)) (group_id msg), session_of_ext (Some ext)))
     \<and> pending (hs_queue (forward_to env vt ov msg h)) = (pending (hs_queue h))(vt := pending (hs_queue h) vt @
         [msg\<lparr>context_token := Some v, ilink_hub_ext := Some ext, seq := Some (int (Suc (allocated (hs_queue h) vt)))\<rparr>])"
proof -
  let ?peer = "unwrap_or [] (from_user_id msg)"
  obtain v h1 where r: "resolve_vctx_for_message env [] rc ?peer (group_id msg) h = (v, h1)" by fastforce
  note f = resolve_vctx_fields [OF r]
  have "map_of (context_token_map (hs_store h1)) v = Some \<lparr>real_ctx = rc, ctx_peer = conv_key ?peer (group_id msg)\<rparr>"
    using resolve_vctx_step [OF _ _ _ assms(4) r] assms(1) by (auto simp: hub_ready_def no_faults_def ctx_step_def)
  moreover have "grant_expires_at (de_now env) (hs_store h1) = grant_expires_at (de_now env) (hs_store h)"
    using f by (simp add: grant_expires_at_def)
  ultimately have send: "resolve_send_context t (hs_store (grant_dispatch env v vt sn h1)) v vt
      = Some (rc, conv_key ?peer (group_id msg), sn)" if "t < grant_expires_at (de_now env) (hs_store h)" for sn t
    using assms(1) that by (intro grant_dispatch_sends) (auto simp: hub_ready_def no_faults_def)
  obtain ext where ext: "build_hub_ext_for_vctx env (hs_store h1) v vt ov = Some ext"
    using build_hub_ext_Some by blast
  have eq: "forward_to env vt ov msg h = save_history env v vt (session_of_ext (Some ext)) ?peer (msg_text msg)
      (push_to_queue vt (msg\<lparr>context_token := Some v, ilink_hub_ext := Some ext\<rparr>)
        (grant_dispatch env v vt (session_of_ext (Some ext)) h1))"
    using assms(2,3) r ext by (simp add: forward_to_def opt_filter_def Let_def)
  have "pending (hs_queue (forward_to env vt ov msg h)) = (pending (hs_queue h))(vt := pending (hs_queue h) vt @
         [msg\<lparr>context_token := Some v, ilink_hub_ext := Some ext, seq := Some (int (Suc (allocated (hs_queue h) vt)))\<rparr>])"
    using assms(1) f push_accepted [of "grant_dispatch env v vt (session_of_ext (Some ext)) h1" vt
        "msg\<lparr>context_token := Some v, ilink_hub_ext := Some ext\<rparr>"]
    by (simp add: eq hub_ready_def)
  with send show ?thesis by (auto simp: eq)
qed

lemma forward_to_effect:
  assumes "hub_ready env vt h" "context_token msg = Some rc" "rc \<noteq> []"
    and "\<not> ctx_shared (context_token_map (hs_store h)) rc (conv_key (unwrap_or [] (from_user_id msg)) (group_id msg))"
  shows "\<exists>v ext. resolve_send_context (de_now env) (hs_store (forward_to env vt ov msg h)) v vt
        = Some (rc, conv_key (unwrap_or [] (from_user_id msg)) (group_id msg), session_of_ext (Some ext))
     \<and> pending (hs_queue (forward_to env vt ov msg h)) = (pending (hs_queue h))(vt := pending (hs_queue h) vt @
         [msg\<lparr>context_token := Some v, ilink_hub_ext := Some ext, seq := Some (int (Suc (allocated (hs_queue h) vt)))\<rparr>])"
  using forward_to_grants [OF assms] assms(1) unfolding hub_ready_def by blast

lemma dispatch_decides:
  assumes "message_type msg \<noteq> Some 2" "mention_target h msg = None"
  shows "\<exists>y. dispatch_message env msg h = run_decision env msg
    (merge_routing_with_quote (route (de_ts env) (hs_router h) msg) (resolve_quote env h msg)) (h\<lparr>hs_metrics := y\<rparr>)"
proof -
  define x where "x = (hs_metrics h)\<lparr>mt_user_messages := mt_user_messages (hs_metrics h) + 1\<rparr>"
  obtain y where y: "count_quote_miss msg (resolve_quote env h msg) (h\<lparr>hs_metrics := x\<rparr>) = h\<lparr>hs_metrics := y\<rparr>"
    using count_quote_miss_frame [of msg "resolve_quote env h msg" "h\<lparr>hs_metrics := x\<rparr>"] by auto
  show ?thesis using assms y by (intro exI [of _ y]) (simp add: dispatch_message_def x_def Let_def)
qed

lemma dispatch_forward:
  assumes "message_type msg \<noteq> Some 2" "mention_target h msg = None"
    and "merge_routing_with_quote (route (de_ts env) (hs_router h) msg) (resolve_quote env h msg) = ForwardTo vt ov"
  shows "\<exists>y. dispatch_message env msg h = forward_to env vt ov msg (h\<lparr>hs_metrics := y\<rparr>)"
  using dispatch_decides [OF assms(1,2), of env] assms(3) by (simp add: run_decision_def)

lemma dispatch_forward_grants:
  assumes "message_type msg \<noteq> Some 2" "mention_target h msg = None"
    and "merge_routing_with_quote (route (de_ts env) (hs_router h) msg) (resolve_quote env h msg) = ForwardTo vt ov"
    and "hub_ready env vt h" "context_token msg = Some rc" "rc \<noteq> []"
    and "\<not> ctx_shared (context_token_map (hs_store h)) rc (conv_key (unwrap_or [] (from_user_id msg)) (group_id msg))"
  shows "\<exists>v ext. (\<forall>t < grant_expires_at (de_now env) (hs_store h).
         resolve_send_context t (hs_store (dispatch_message env msg h)) v vt
          = Some (rc, conv_key (unwrap_or [] (from_user_id msg)) (group_id msg), session_of_ext (Some ext)))
     \<and> pending (hs_queue (dispatch_message env msg h)) = (pending (hs_queue h))(vt := pending (hs_queue h) vt @
         [msg\<lparr>context_token := Some v, ilink_hub_ext := Some ext, seq := Some (int (Suc (allocated (hs_queue h) vt)))\<rparr>])"
proof -
  obtain x where x: "dispatch_message env msg h = forward_to env vt ov msg (h\<lparr>hs_metrics := x\<rparr>)"
    using dispatch_forward [OF assms(1-3)] by blast
  have "hub_ready env vt (h\<lparr>hs_metrics := x\<rparr>)" using assms(4) by (simp add: hub_ready_def fresh_vctx_def)
  from forward_to_grants [OF this assms(5,6)] assms(7) show ?thesis unfolding x by simp
qed

lemma dispatch_forward_effect:
  assumes "message_type msg \<noteq> Some 2" "mention_target h msg = None"
    and "merge_routing_with_quote (route (de_ts env) (hs_router h) msg) (resolve_quote env h msg) = ForwardTo vt ov"
    and "hub_ready env vt h" "context_token msg = Some rc" "rc \<noteq> []"
    and "\<not> ctx_shared (context_token_map (hs_store h)) rc (conv_key (unwrap_or [] (from_user_id msg)) (group_id msg))"
  shows "\<exists>v ext. resolve_send_context (de_now env) (hs_store (dispatch_message env msg h)) v vt
        = Some (rc, conv_key (unwrap_or [] (from_user_id msg)) (group_id msg), session_of_ext (Some ext))
     \<and> pending (hs_queue (dispatch_message env msg h)) = (pending (hs_queue h))(vt := pending (hs_queue h) vt @
         [msg\<lparr>context_token := Some v, ilink_hub_ext := Some ext, seq := Some (int (Suc (allocated (hs_queue h) vt)))\<rparr>])"
  using dispatch_forward_grants [OF assms] assms(4) unfolding hub_ready_def by blast

text \<open>C6: A forwarded message can be answered. When the dispatcher routes a message to a backend, the store
  works, the conversation's token belongs to no other conversation and the backend's queue has room, then
  the message is the last one queued for that backend and no other queue changes; its context token is a
  virtual one which that backend, from now until the grant expires, may use to send to the real conversation, in the session
  named in the message's extension field.
\<close>

theorem forwarded_message_can_be_answered:
  assumes "message_type msg \<noteq> Some 2" "mention_target h msg = None"
    and "merge_routing_with_quote (route (de_ts env) (hs_router h) msg) (resolve_quote env h msg) = ForwardTo vt ov"
    and "hub_ready env vt h" "context_token msg = Some rc" "rc \<noteq> []"
    and "\<not> ctx_shared (context_token_map (hs_store h)) rc (conv_key (unwrap_or [] (from_user_id msg)) (group_id msg))"
  shows "\<exists>v ext. (\<forall>t < grant_expires_at (de_now env) (hs_store h).
         resolve_send_context t (hs_store (dispatch_message env msg h)) v vt
          = Some (rc, conv_key (unwrap_or [] (from_user_id msg)) (group_id msg), session_of_ext (Some ext)))
     \<and> pending (hs_queue (dispatch_message env msg h)) = (pending (hs_queue h))(vt := pending (hs_queue h) vt @
         [msg\<lparr>context_token := Some v, ilink_hub_ext := Some ext, seq := Some (int (Suc (allocated (hs_queue h) vt)))\<rparr>])"
  using assms by (rule dispatch_forward_grants)

section \<open>A concrete hub\<close>

definition demo_env :: DispatchEnv where
  "demo_env = \<lparr>de_now = 100, de_ts = ''20260101'', de_at = ''20260101'', de_uuid = (\<lambda>op k. op @ k), de_msg_id = 1,
     de_fault = (\<lambda>_ _. None), de_scope_index = True, de_tie = hd, de_newest = hd, de_like_ci = True, de_permit = True\<rparr>"

definition demo_client :: "string \<Rightarrow> vtoken \<Rightarrow> ClientInfo" where
  "demo_client n vt = \<lparr>name = n, vtoken = vt, label = None, description = None, registered_at = 1, online = True,
     persona_name = None, persona_emoji = None\<rparr>"

definition demo_hub :: HubState where
  "demo_hub = empty_hub\<lparr>
     hs_registry := \<lparr>by_vtoken = [(''a1'', demo_client ''claude'' ''a1''), (''b2'', demo_client ''codex'' ''b2'')],
                     by_name = [(''claude'', ''a1''), (''codex'', ''b2'')]\<rparr>,
     hs_router := Router_new (Some ''a1''),
     hs_acl := \<lparr>a2a = [], wechat_users = [], wechat_public = {''claude''}, spec_present = True\<rparr>\<rparr>"

definition demo_msg :: "string \<Rightarrow> json \<Rightarrow> WeixinMessage" where
  "demo_msg t ex = WeixinMessage_default\<lparr>message_type := Some 1, from_user_id := Some ''ann'', context_token := Some ''ctx1'',
     item_list := Some [MessageItem_default\<lparr>text_item := Some \<lparr>ti_text = Some t\<rparr>, extra := ex\<rparr>]\<rparr>"

lemma demo_env_fields [simp]:
  "de_now demo_env = 100" "de_uuid demo_env op k = op @ k" "de_msg_id demo_env = 1" "de_fault demo_env op k = None"
  "de_scope_index demo_env" "de_tie demo_env = hd"
  by (simp_all add: demo_env_def)

lemma demo_text [simp]: "msg_text (demo_msg t ex) = Some t"
  by (simp add: demo_msg_def msg_text_def item_text_def)

lemma demo_msg_fields [simp]:
  "message_type (demo_msg t ex) = Some 1" "from_user_id (demo_msg t ex) = Some ''ann''"
  "context_token (demo_msg t ex) = Some ''ctx1''" "group_id (demo_msg t ex) = None"
  by (simp_all add: demo_msg_def type_defaults)

lemma demo_no_quote [simp]: "resolve_quote env h (demo_msg t JNull) = None"
  by (simp add: resolve_quote_def resolve_quote_from_msg_id_def resolve_quote_from_timestamp_def resolve_quote_from_db_def
      resolve_quote_from_footer_def footer_from_user_quote_def collect_quoted_msg_id_def collect_quoted_timestamp_def
      collect_quoted_def collect_quoted_content_def over_quotes_def quoted_item_def demo_msg_def opt_or_def)

lemma demo_ready: "hub_ready demo_env ''a1'' demo_hub" "hub_ready demo_env ''b2'' demo_hub"
  by (simp_all add: hub_ready_def demo_hub_def empty_hub_def HubState_new_def Store_new_def ctx_ok_def fresh_vctx_def
      no_faults_def demo_env_def grant_expires_at_def i64_max_def queue_ok_new pending_def allocated_def with_limit_def
      queue_ok_new [unfolded with_limit_def])

lemma demo_unshared [simp]: "\<not> ctx_shared (context_token_map (hs_store demo_hub)) rc key"
  by (simp add: ctx_shared_def demo_hub_def empty_hub_def HubState_new_def Store_new_def)

lemma demo_route: "parse_hub_command ts t = None \<Longrightarrow> route ts (hs_router demo_hub) (demo_msg t ex) = ForwardTo ''a1'' None"
  by (simp add: route_def demo_hub_def get_route_def Router_new_def opt_or_def)

lemma demo_hello:
  "mention_target demo_hub (demo_msg ''hello'' JNull) = None"
  "merge_routing_with_quote (route (de_ts demo_env) (hs_router demo_hub) (demo_msg ''hello'' JNull))
     (resolve_quote demo_env demo_hub (demo_msg ''hello'' JNull)) = ForwardTo ''a1'' None"
proof -
  have "parse_hub_command ts ''hello'' = None" "parse_at_mention ''hello'' = None" for ts by code_simp+
  then show "mention_target demo_hub (demo_msg ''hello'' JNull) = None"
    "merge_routing_with_quote (route (de_ts demo_env) (hs_router demo_hub) (demo_msg ''hello'' JNull))
      (resolve_quote demo_env demo_hub (demo_msg ''hello'' JNull)) = ForwardTo ''a1'' None"
    by (simp_all add: mention_target_def demo_route merge_routing_with_quote_def)
qed

theorem forwarded_message_can_be_answered_witness:
  "\<exists>v ext. (\<forall>t < grant_expires_at 100 (hs_store demo_hub).
        resolve_send_context t (hs_store (dispatch_message demo_env (demo_msg ''hello'' JNull) demo_hub)) v ''a1''
          = Some (''ctx1'', ''peer:ann'', session_of_ext (Some ext)))
     \<and> pending (hs_queue (dispatch_message demo_env (demo_msg ''hello'' JNull) demo_hub)) = (pending (hs_queue demo_hub))(''a1'' :=
         [(demo_msg ''hello'' JNull)\<lparr>context_token := Some v, ilink_hub_ext := Some ext, seq := Some 1\<rparr>])"
proof -
  have 1: "message_type (demo_msg ''hello'' JNull) \<noteq> Some 2" by simp
  have 2: "context_token (demo_msg ''hello'' JNull) = Some ''ctx1''" "''ctx1'' \<noteq> []" by simp_all
  have q: "pending (hs_queue demo_hub) ''a1'' = []" "allocated (hs_queue demo_hub) ''a1'' = 0"
    by (simp_all add: demo_hub_def empty_hub_def HubState_new_def with_limit_def pending_def allocated_def)
  have now: "de_now demo_env = 100" by (simp add: demo_env_def)
  show ?thesis
    using forwarded_message_can_be_answered [OF 1 demo_hello demo_ready(1) 2 demo_unshared]
    by (simp add: q now conv_key_def opt_filter_def unwrap_or_def)
qed

section \<open>Who receives a message\<close>

lemma forward_grows: "queues_grow {vt} h (forward_to env vt ov msg h)"
proof (cases "opt_filter (\<lambda>c. c \<noteq> []) (context_token msg)")
  case (Some rc)
  obtain v h1 where r: "resolve_vctx_for_message env [] rc (unwrap_or [] (from_user_id msg)) (group_id msg) h = (v, h1)"
    by fastforce
  let ?ext = "build_hub_ext_for_vctx env (hs_store h1) v vt ov"
  have "queues_grow {vt} h (push_to_queue vt (msg\<lparr>context_token := Some v, ilink_hub_ext := ?ext\<rparr>)
      (grant_dispatch env v vt (session_of_ext ?ext) h1))"
    using resolve_vctx_fields(1) [OF r] by (simp add: queues_grow_push)
  with Some r show ?thesis by (simp add: forward_to_def Let_def queues_grow_def)
qed (simp add: forward_to_def queues_grow_same)

lemma broadcast_grows: "queues_grow UNIV h (handle_broadcast env msg h)"
proof -
  let ?ts = "map vtoken (online_clients (hs_registry h))"
  have b: "queues_grow UNIV g (broadcast_to env v data msg vt g)" for v data vt g
    by (simp add: broadcast_to_def Let_def queues_grow_shared)
  show ?thesis
  proof (cases "?ts = [] \<or> opt_filter (\<lambda>c. c \<noteq> []) (context_token msg) = None")
    case True
    then show ?thesis
      by (intro queues_grow_same) (auto simp: handle_broadcast_def Let_def send_upstream_def split: option.split)
  next
    case False
    then obtain rc where rc: "opt_filter (\<lambda>c. c \<noteq> []) (context_token msg) = Some rc" by blast
    obtain v h1 where r: "resolve_vctx_for_message env [] rc (unwrap_or [] (from_user_id msg)) (group_id msg) h = (v, h1)"
      by fastforce
    define data where "data = (if de_fault env ''get_hub_ext_batch'' v \<noteq> None then []
        else get_hub_ext_batch (hs_store h1) (map (\<lambda>vt. (v, vt)) ?ts))"
    have "queues_grow UNIV h h1" using resolve_vctx_fields(1) [OF r] by (rule queues_grow_same)
    also have "queues_grow UNIV h1 (fold (broadcast_to env v data msg) ?ts h1)" by (rule queues_grow_fold) (rule b)
    finally have "queues_grow UNIV h (fold (broadcast_to env v data msg) ?ts h1)" .
    moreover have "handle_broadcast env msg h = fold (broadcast_to env v data msg) ?ts h1"
      using False rc r by (simp add: handle_broadcast_def Let_def data_def del: fold_simps)
    ultimately show ?thesis by simp
  qed
qed

definition decision_targets :: "HubState \<Rightarrow> string \<Rightarrow> RoutingDecision \<Rightarrow> vtoken set" where
  "decision_targets h uid d = (case d of HubInternal cmd \<Rightarrow> command_targets h uid cmd | ForwardTo vt _ \<Rightarrow> {vt} | Broadcast \<Rightarrow> UNIV)"

lemma run_decision_grows:
  "queues_grow (decision_targets h (unwrap_or [] (from_user_id msg)) d) h (run_decision env msg d h)"
  by (cases d) (simp_all add: run_decision_def decision_targets_def forward_grows broadcast_grows handle_hub_command_grows)

text \<open>The tokens a message may be queued for.\<close>

definition message_targets :: "DispatchEnv \<Rightarrow> HubState \<Rightarrow> WeixinMessage \<Rightarrow> vtoken set" where
  "message_targets env h msg = (case mention_target h msg of
     Some (vt, _) \<Rightarrow> {vt}
   | None \<Rightarrow> decision_targets h (unwrap_or [] (from_user_id msg))
       (merge_routing_with_quote (route (de_ts env) (hs_router h) msg) (resolve_quote env h msg)))"

lemma decision_targets_metrics [simp]:
  "decision_targets (h\<lparr>hs_metrics := x\<rparr>) uid d = decision_targets h uid d"
  by (cases d) (simp_all add: decision_targets_def command_targets_def broadcast_targets_def wechat_visible_in_def
      split: HubCommand.split)

lemma queues_grow_metrics [simp]: "queues_grow S (h\<lparr>hs_metrics := x\<rparr>) h' = queues_grow S h h'"
  by (simp add: queues_grow_def)

lemma dispatch_grows: "queues_grow (message_targets env h msg) h (dispatch_message env msg h)"
proof (cases "message_type msg = Some 2")
  case True
  then show ?thesis by (simp add: dispatch_message_def queues_grow_same)
next
  case False
  define x where "x = (hs_metrics h)\<lparr>mt_user_messages := mt_user_messages (hs_metrics h) + 1\<rparr>"
  show ?thesis
  proof (cases "mention_target h msg")
    case (Some p)
    then show ?thesis
      using False mention_grows [of "fst p" "h\<lparr>hs_metrics := x\<rparr>" env msg "snd p"]
      by (simp add: dispatch_message_def message_targets_def x_def Let_def case_prod_unfold)
  next
    case None
    let ?d = "merge_routing_with_quote (route (de_ts env) (hs_router h) msg) (resolve_quote env h msg)"
    obtain y where "dispatch_message env msg h = run_decision env msg ?d (h\<lparr>hs_metrics := y\<rparr>)"
      using dispatch_decides [OF False None] by blast
    with None run_decision_grows [of "h\<lparr>hs_metrics := y\<rparr>" msg ?d env] show ?thesis
      by (simp add: message_targets_def)
  qed
qed

lemma command_slash: "parse_hub_command ts t = Some cmd \<Longrightarrow> \<exists>r. trim t = CHR ''/'' # r"
proof -
  have low: "ascii_lower c = CHR ''/'' \<Longrightarrow> c = CHR ''/''" for c
  proof (rule ccontr)
    assume a: "ascii_lower c = CHR ''/''" "c \<noteq> CHR ''/''"
    then have "65 \<le> (of_char c :: nat) \<and> of_char c \<le> (90 :: nat) \<and> char_of (of_char c + 32 :: nat) = CHR ''/''"
      by (auto simp: ascii_lower_def Let_def split: if_splits)
    then have k: "65 \<le> (of_char c :: nat)" "of_char c \<le> (90 :: nat)"
      and "(of_char (char_of (of_char c + 32 :: nat) :: char) :: nat) = of_char (CHR ''/'')" by simp_all
    then have "(of_char c + 32 :: nat) mod 256 = 47" by (simp only: of_char_of) simp
    with k show False by simp
  qed
  assume p: "parse_hub_command ts t = Some cmd"
  show ?thesis
  proof (rule ccontr)
    assume no: "\<nexists>r. trim t = CHR ''/'' # r"
    have "\<not> eq_ignore_ascii_case (trim t) (CHR ''/'' # w)" for w
    proof (cases "trim t")
      case (Cons c r)
      with no have "c \<noteq> CHR ''/''" by blast
      moreover have "ascii_lower (CHR ''/'') = CHR ''/''" by code_simp
      ultimately show ?thesis using low [of c] by (auto simp: eq_ignore_ascii_case_def Cons)
    qed (simp add: eq_ignore_ascii_case_def)
    moreover have "strip_prefix (trim t) (CHR ''/'' # w) = None" for w
      using no by (auto simp: strip_prefix_iff simp flip: not_Some_eq)
    ultimately have "parse_hub_command ts t = None"
      by (simp add: parse_hub_command_def Let_def is_any_def first_prefix_def opt_or_def opt_filter_def)
    with p show False by simp
  qed
qed

lemma command_no_mention:
  assumes "Option.bind (msg_text msg) (parse_hub_command ts) = Some cmd"
  shows "mention_target h msg = None"
proof -
  obtain t where t: "msg_text msg = Some t" "parse_hub_command ts t = Some cmd" using assms by (auto simp: bind_eq_Some_conv)
  obtain r where "trim t = CHR ''/'' # r" using command_slash [OF t(2)] by blast
  then have "prefix (CHR ''/'' # r) (trim_start t)" using trim_end_prefix [of "trim_start t"] by (simp add: trim_def)
  then have "strip_prefix (trim_start t) ''@'' = None" by (auto simp: prefix_def strip_prefix_def)
  then show ?thesis by (simp add: mention_target_def t(1) parse_at_mention_def)
qed

lemma dispatch_command:
  assumes "message_type msg \<noteq> Some 2" "Option.bind (msg_text msg) (parse_hub_command (de_ts env)) = Some cmd"
  shows "\<exists>y. dispatch_message env msg h = handle_hub_command env msg cmd (h\<lparr>hs_metrics := y\<rparr>)"
proof -
  have "route (de_ts env) (hs_router h) msg = HubInternal cmd" using assms(2) by (simp add: route_def)
  then show ?thesis
    using dispatch_decides [OF assms(1) command_no_mention [OF assms(2), of h], of env]
    by (simp add: merge_routing_with_quote_def run_decision_def)
qed

text \<open>C14: Commands stay in the hub. A chat message that parses as a hub command is never queued for a
  backend, unless it is a broadcast, and whatever it quotes; no history row is written, and the user gets
  exactly one reply, sent with the message's own context token.
\<close>

theorem commands_are_answered_by_the_hub:
  assumes "message_type msg \<noteq> Some 2" "Option.bind (msg_text msg) (parse_hub_command (de_ts env)) = Some cmd"
    and "context_token msg = Some rc" "rc \<noteq> []" "\<And>t. cmd \<noteq> BroadcastText t"
  shows "pending (hs_queue (dispatch_message env msg h)) = pending (hs_queue h)
    \<and> (\<exists>t. hs_sent (dispatch_message env msg h) = hs_sent h @
         [reply_text (de_uuid env ''reply'' []) (de_msg_id env) rc t (unwrap_or [] (from_user_id msg)) None])"
proof -
  obtain y where d: "dispatch_message env msg h = handle_hub_command env msg cmd (h\<lparr>hs_metrics := y\<rparr>)"
    using dispatch_command [OF assms(1,2)] by blast
  have "command_targets g uid cmd = {}" for g uid using assms(5) by (simp add: command_targets_def split: HubCommand.split)
  then have "pending (hs_queue (dispatch_message env msg h)) = pending (hs_queue h)"
    using handle_hub_command_grows [of "h\<lparr>hs_metrics := y\<rparr>" msg cmd env] by (auto simp: d queues_grow_def)
  then show ?thesis using handle_hub_command_sent [OF assms(3,4), of env cmd "h\<lparr>hs_metrics := y\<rparr>"] by (simp add: d)
qed

theorem commands_are_answered_by_the_hub_witness:
  "pending (hs_queue (dispatch_message demo_env (demo_msg ''/list'' JNull) demo_hub)) = pending (hs_queue demo_hub)
   \<and> (\<exists>t. hs_sent (dispatch_message demo_env (demo_msg ''/list'' JNull) demo_hub) = [reply_text ''reply'' 1 ''ctx1'' t ''ann'' None])"
proof -
  have p: "parse_hub_command ts ''/list'' = Some ListClients" for ts by code_simp
  have 1: "message_type (demo_msg ''/list'' JNull) \<noteq> Some 2" by simp
  have 2: "Option.bind (msg_text (demo_msg ''/list'' JNull)) (parse_hub_command (de_ts demo_env)) = Some ListClients"
    by (simp add: p)
  have 3: "context_token (demo_msg ''/list'' JNull) = Some ''ctx1''" "''ctx1'' \<noteq> []" by simp_all
  have u: "de_uuid demo_env ''reply'' [] = ''reply''" "de_msg_id demo_env = 1" "hs_sent demo_hub = []"
    by (simp_all add: demo_env_def demo_hub_def empty_hub_def HubState_new_def)
  show ?thesis
    using commands_are_answered_by_the_hub [OF 1 2 3, of demo_hub] by (simp add: u unwrap_or_def)
qed

text \<open>The dispatcher only appends. Whatever messages arrive and whatever fails, running the dispatcher never
  removes or reorders what is already queued for any backend.
\<close>

theorem dispatcher_only_appends:
  "\<exists>ms. pending (hs_queue (run_dispatcher evs h)) vt = pending (hs_queue h) vt @ ms"
proof -
  have "queues_grow UNIV h (run_dispatcher evs h)"
  proof (induction evs h rule: run_dispatcher.induct)
    case (3 env msg evs h)
    have "queues_grow UNIV h (dispatch_message env msg h)" by (rule queues_grow_mono [OF dispatch_grows]) simp
    with 3 show ?case by (auto intro: queues_grow_trans)
  qed (simp_all add: queues_grow_same)
  then show ?thesis by (auto simp: queues_grow_def)
qed

text \<open>C12: A message that quotes nothing respects the allowlist. It can change only the queue of a registered
  backend its sender is allowed to see, or of the backend its sender is already routed to.
\<close>

theorem unquoted_message_respects_allowlist:
  assumes "resolve_quote env h msg = None"
    and "pending (hs_queue (dispatch_message env msg h)) vt \<noteq> pending (hs_queue h) vt"
  shows "(\<exists>c \<in> set (all_clients (hs_registry h)). vtoken c = vt \<and>
        permitted (wechat_visible_in h (unwrap_or [] (from_user_id msg))) c)
    \<or> get_route (hs_router h) (unwrap_or [] (from_user_id msg)) = Some vt"
proof -
  have vt: "vt \<in> message_targets env h msg"
    using dispatch_grows [of env h msg] assms(2) unfolding queues_grow_def by (metis append_Nil2)
  let ?uid = "unwrap_or [] (from_user_id msg)"
  show ?thesis
  proof (cases "mention_target h msg")
    case (Some p)
    with vt have "fst p = vt" by (simp add: message_targets_def case_prod_unfold)
    with Some obtain nm c where "get_by_alias_in (hs_registry h) nm (wechat_visible_in h ?uid) = Some c" "vtoken c = vt"
      by (auto simp: mention_target_def bind_eq_Some_conv)
    with alias_in_listing show ?thesis by blast
  next
    case None
    with vt assms(1) have d: "vt \<in> decision_targets h ?uid (route (de_ts env) (hs_router h) msg)"
      by (simp add: message_targets_def merge_routing_with_quote_def split: RoutingDecision.splits)
    show ?thesis
    proof (cases "route (de_ts env) (hs_router h) msg")
      case (ForwardTo w ov)
      with d show ?thesis by (auto simp: decision_targets_def route_def split: option.splits)
    next
      case (HubInternal cmd)
      with d have "vt \<in> set (broadcast_targets h ?uid)"
        by (auto simp: decision_targets_def command_targets_def split: HubCommand.splits)
      then show ?thesis
        by (auto simp: broadcast_targets_def Let_def online_clients_def all_clients_def all_clients_in_def permitted_def
            split: option.splits)
    qed (simp add: route_def split: option.splits)
  qed
qed

theorem unquoted_message_respects_allowlist_witness:
  "(\<exists>c \<in> set (all_clients (hs_registry demo_hub)). vtoken c = ''a1'' \<and> permitted (wechat_visible_in demo_hub ''ann'') c)
    \<or> get_route (hs_router demo_hub) ''ann'' = Some ''a1''"
proof -
  let ?m = "demo_msg ''hello'' JNull"
  obtain y where "dispatch_message demo_env ?m demo_hub = forward_to demo_env ''a1'' None ?m (demo_hub\<lparr>hs_metrics := y\<rparr>)"
    using dispatch_forward [OF _ demo_hello(1,2)] by auto
  moreover have "hub_ready demo_env ''a1'' (demo_hub\<lparr>hs_metrics := y\<rparr>)"
    using demo_ready(1) by (simp add: hub_ready_def fresh_vctx_def)
  ultimately have "pending (hs_queue (dispatch_message demo_env ?m demo_hub)) ''a1'' \<noteq> pending (hs_queue demo_hub) ''a1''"
    using forward_to_effect [of demo_env "''a1''" "demo_hub\<lparr>hs_metrics := y\<rparr>" ?m "''ctx1''" None] by auto
  from unquoted_message_respects_allowlist [OF demo_no_quote this] show ?thesis by (simp add: unwrap_or_def)
qed

end
