(* ===== verification/Dispatch_Flows.thy ===== *)
theory Dispatch_Flows
  imports Hub_Dispatch
begin

text \<open>
  What users observe across the dispatcher: selecting a backend, opening a session and writing into it,
  broadcasting, and replying to a quoted message, including the cases where the code lets a quote reach a
  backend it should not.
\<close>

section \<open>Selecting a backend\<close>

text \<open>\<open>/use\<close> switches the user's route in memory and in the database together: when the name or number
  resolves to a backend the user may see and the row is written, both point to that backend; when nothing
  resolves or the write fails, neither changes.
\<close>

theorem use_switches_route_and_row_together:
  fixes msg :: WeixinMessage and env :: DispatchEnv and h :: HubState and n :: string
  assumes "context_token msg = Some rc" "rc \<noteq> []"
  defines "uid \<equiv> unwrap_or [] (from_user_id msg)" and "h' \<equiv> handle_hub_command env msg (UseClient n) h"
  shows "case get_by_alias_in (hs_registry h) n (wechat_visible_in h uid) of
      Some c \<Rightarrow> if de_fault env ''set_route'' uid = None
        then get_route (hs_router h') uid = Some (vtoken c) \<and> store_get_route (hs_store h') uid = Some (vtoken c)
        else hs_router h' = hs_router h \<and> hs_store h' = hs_store h
    | None \<Rightarrow> hs_router h' = hs_router h \<and> hs_store h' = hs_store h"
  using assms(1,2)
  by (auto simp: h'_def uid_def handle_hub_command_def opt_filter_def run_command_def handle_cmd_use_def send_upstream_def Let_def
      get_route_def set_route_def store_get_route_def store_set_route_def opt_or_def split: option.split prod.split)

theorem use_switches_route_and_row_together_witness:
  "get_route (hs_router (handle_hub_command demo_env (demo_msg ''/use claude'' JNull) (UseClient ''claude'') demo_hub)) ''ann'' = Some ''a1''
   \<and> get_by_alias_in (hs_registry demo_hub) ''codex'' (wechat_visible_in demo_hub ''ann'') = None"
proof -
  have a: "get_by_alias_in (hs_registry demo_hub) ''claude'' (wechat_visible_in demo_hub ''ann'') = Some (demo_client ''claude'' ''a1'')"
    "get_by_alias_in (hs_registry demo_hub) ''codex'' (wechat_visible_in demo_hub ''ann'') = None"
    by (simp_all add: get_by_alias_in_def get_by_name_def demo_hub_def demo_client_def wechat_visible_in_def wechat_visible_def
        all_clients_def all_clients_in_def)
  have "context_token (demo_msg ''/use claude'' JNull) = Some ''ctx1''" "''ctx1'' \<noteq> []" by simp_all
  from use_switches_route_and_row_together [OF this, where env = demo_env and h = demo_hub and n = "''claude''"] a show ?thesis
    by (simp add: unwrap_or_def demo_env_def demo_client_def)
qed

section \<open>Quote replies\<close>

text \<open>C21: A quoted footer overrides the allowlist. A user who is routed to some backend and quotes a text whose
  footer names any registered backend gets the message delivered to that backend, with the right to answer,
  although the allowlist hides the backend from the user; the quoted text is whatever the user's client put
  into the message.
\<close>

theorem footer_quote_overrides_allowlist:
  assumes "message_type msg \<noteq> Some 2" "mention_target h msg = None"
    and "route (de_ts env) (hs_router h) msg = ForwardTo vt0 None"
    and "resolve_quote_from_msg_id env h msg = None" "resolve_quote_from_timestamp env h msg = None"
      "resolve_quote_from_db env h msg = None"
    and "footer_from_user_quote msg = Some (nm, sn)" "get_by_name (hs_registry h) nm = Some c"
    and "\<not> permitted (wechat_visible_in h (unwrap_or [] (from_user_id msg))) c"
    and "hub_ready env (vtoken c) h" "context_token msg = Some rc" "rc \<noteq> []"
    and "\<not> ctx_shared (context_token_map (hs_store h)) rc (conv_key (unwrap_or [] (from_user_id msg)) (group_id msg))"
  shows "\<exists>v ext. resolve_send_context (de_now env) (hs_store (dispatch_message env msg h)) v (vtoken c)
        = Some (rc, conv_key (unwrap_or [] (from_user_id msg)) (group_id msg), session_of_ext (Some ext))
     \<and> pending (hs_queue (dispatch_message env msg h)) (vtoken c) = pending (hs_queue h) (vtoken c) @
         [msg\<lparr>context_token := Some v, ilink_hub_ext := Some ext, seq := Some (int (Suc (allocated (hs_queue h) (vtoken c))))\<rparr>]"
proof -
  have "resolve_quote env h msg = Some (OriginClient (vtoken c) (name c) (label c) sn)"
    using assms(4-8) by (simp add: resolve_quote_def opt_or_def resolve_quote_from_footer_def)
  then have "merge_routing_with_quote (route (de_ts env) (hs_router h) msg) (resolve_quote env h msg) = ForwardTo (vtoken c) sn"
    by (simp add: assms(3) merge_routing_with_quote_def)
  from dispatch_forward_effect [OF assms(1,2) this assms(10-13)] show ?thesis by fastforce
qed

definition footer_quote :: "string \<Rightarrow> json" where
  "footer_quote t = JObj [(''ref_msg'', JObj [(''message_item'', JObj [(''text_item'', JObj [(''text'', JStr t)])])])]"

lemma footer_quote_reads:
  assumes "trim t \<noteq> []"
  shows "collect_quoted_content (demo_msg x (footer_quote t)) = Some (t, None)"
    "collect_quoted_msg_id (demo_msg x (footer_quote t)) = None" "collect_quoted_timestamp (demo_msg x (footer_quote t)) = None"
  using assms by (simp_all add: collect_quoted_content_def collect_quoted_msg_id_def collect_quoted_timestamp_def over_quotes_def
      quoted_item_def demo_msg_def footer_quote_def json_get_def quoted_ms_def opt_filter_def)

theorem footer_quote_overrides_allowlist_witness:
  "\<exists>v ext. pending (hs_queue (dispatch_message demo_env (demo_msg ''hi'' (footer_quote (hr_sep @ ''codex''))) demo_hub)) ''b2'' =
      [(demo_msg ''hi'' (footer_quote (hr_sep @ ''codex'')))\<lparr>context_token := Some v, ilink_hub_ext := Some ext, seq := Some 1\<rparr>]"
proof -
  let ?m = "demo_msg ''hi'' (footer_quote (hr_sep @ ''codex''))"
  have p: "parse_hub_command ts ''hi'' = None" "parse_at_mention ''hi'' = None" for ts by code_simp+
  have t: "trim (hr_sep @ ''codex'') = ''---'' @ CHR 0x0A # ''codex''"
    "parse_footer_from_quoted_text (hr_sep @ ''codex'') = Some (''codex'', None)" by code_simp+
  have q: "collect_quoted_content ?m = Some (hr_sep @ ''codex'', None)" "collect_quoted_msg_id ?m = None"
    "collect_quoted_timestamp ?m = None" using footer_quote_reads [of "hr_sep @ ''codex''" "''hi''"] by (simp_all add: t)
  have 1: "message_type ?m \<noteq> Some 2" by simp
  have 2: "mention_target demo_hub ?m = None" by (simp add: mention_target_def p)
  have 3: "route (de_ts demo_env) (hs_router demo_hub) ?m = ForwardTo ''a1'' None" by (rule demo_route) (rule p)
  have 4: "resolve_quote_from_msg_id demo_env demo_hub ?m = None" "resolve_quote_from_timestamp demo_env demo_hub ?m = None"
    by (simp_all add: resolve_quote_from_msg_id_def resolve_quote_from_timestamp_def q)
  have 5: "resolve_quote_from_db demo_env demo_hub ?m = None"
    by (simp add: resolve_quote_from_db_def collect_quoted_def q Let_def find_assistant_message_by_content_def assistant_rows_def
        top_row_def origin_of_hit_def demo_hub_def empty_hub_def HubState_new_def MessageTable_new_def split: option.split cong: if_cong)
  have 6: "footer_from_user_quote ?m = Some (''codex'', None)" by (simp add: footer_from_user_quote_def q t)
  have 7: "get_by_name (hs_registry demo_hub) ''codex'' = Some (demo_client ''codex'' ''b2'')"
    by (simp add: get_by_name_def demo_hub_def)
  have 8: "\<not> permitted (wechat_visible_in demo_hub (unwrap_or [] (from_user_id ?m))) (demo_client ''codex'' ''b2'')"
    by (simp add: permitted_def wechat_visible_in_def wechat_visible_def demo_hub_def demo_client_def unwrap_or_def)
  have 9: "hub_ready demo_env (vtoken (demo_client ''codex'' ''b2'')) demo_hub" using demo_ready(2) by (simp add: demo_client_def)
  have 10: "context_token ?m = Some ''ctx1''" "''ctx1'' \<noteq> []" by simp_all
  have e: "pending (hs_queue demo_hub) ''b2'' = []" "allocated (hs_queue demo_hub) ''b2'' = 0" "vtoken (demo_client ''codex'' ''b2'') = ''b2''"
    by (simp_all add: demo_hub_def empty_hub_def HubState_new_def with_limit_def pending_def allocated_def demo_client_def)
  show ?thesis
    using footer_quote_overrides_allowlist [OF 1 2 3 4 5 6 7 8 9 10 demo_unshared] by (auto simp: e)
qed


definition id_quote :: "string \<Rightarrow> json" where
  "id_quote i = JObj [(''ref_msg'', JObj [(''message_item'', JObj [(''msg_id'', JStr i)])])]"

definition demo_history_hub :: HubState where
  "demo_history_hub = demo_hub\<lparr>hs_messages :=
     save_message_with_msg_id 50 ''vctx_a'' (Some ''old'') ''default'' ''peer:ann'' ''assistant'' ''hi'' (Some 7) MessageTable_new\<rparr>"


section \<open>Broadcast and sessions\<close>

lemma broadcast_one_grants:
  "active_sessions (hs_store (broadcast_one env uid rc msg t vt h)) = active_sessions (hs_store h)
    \<and> backend_sessions_v2 (hs_store (broadcast_one env uid rc msg t vt h)) = backend_sessions_v2 (hs_store h)"
proof -
  obtain v h1 where r: "resolve_vctx_for_message env vt rc uid (group_id msg) h = (v, h1)" by fastforce
  then show ?thesis using resolve_vctx_fields(9,10) [OF r] by (simp add: broadcast_one_def Let_def)
qed

text \<open>\<open>/broadcast\<close> grants nothing. The command queues the text for every visible backend that is online but
  leaves all ownership tables as they were, so a backend that did not own the conversation before is refused
  when it answers the broadcast.
\<close>

theorem broadcast_command_grants_nothing:
  assumes "\<not> vtoken_owns_vctx now (hs_store h) v vt"
  shows "resolve_send_context now (hs_store (handle_hub_command env msg (BroadcastText t) h)) v vt = None"
proof -
  have f: "active_sessions (hs_store (fold (broadcast_one env uid rc msg t) vts g)) = active_sessions (hs_store g)
      \<and> backend_sessions_v2 (hs_store (fold (broadcast_one env uid rc msg t) vts g)) = backend_sessions_v2 (hs_store g)" for uid rc vts g
    by (induction vts arbitrary: g) (simp_all add: broadcast_one_grants)
  have "active_sessions (hs_store (handle_hub_command env msg (BroadcastText t) h)) = active_sessions (hs_store h)
      \<and> backend_sessions_v2 (hs_store (handle_hub_command env msg (BroadcastText t) h)) = backend_sessions_v2 (hs_store h)"
    by (simp add: handle_hub_command_def run_command_def handle_cmd_broadcast_def Let_def send_upstream_def f split: option.split)
  with assms show ?thesis
    by (auto simp: resolve_send_context_def vtoken_owns_vctx_def active_grant_def named_grant_def split: option.splits)
qed

theorem broadcast_command_grants_nothing_witness:
  "resolve_send_context 100 (hs_store (handle_hub_command demo_env (demo_msg ''/all hi'' JNull) (BroadcastText ''hi'') demo_hub))
     ''vctx_uploadh1'' ''a1'' = None \<and> broadcast_targets demo_hub ''ann'' = [''a1'']"
proof -
  have "\<not> vtoken_owns_vctx 100 (hs_store demo_hub) ''vctx_uploadh1'' ''a1''"
    by (simp add: vtoken_owns_vctx_def active_grant_def named_grant_def demo_hub_def empty_hub_def HubState_new_def Store_new_def)
  from broadcast_command_grants_nothing [OF this] show ?thesis
    by (simp add: broadcast_targets_def wechat_visible_in_def wechat_visible_def online_clients_def all_clients_def all_clients_in_def
        demo_hub_def demo_client_def)
qed

lemma resolve_vctx_again:
  assumes "ctx_step t rc key v (context_token_map (hs_store h))" "key \<noteq> []" "conv_key peer gid = key"
    and "hub_ready env vt h" "\<not> ctx_shared (context_token_map (hs_store h)) rc' key"
    and "resolve_vctx_for_message env [] rc' peer gid h = (v', h')"
  shows "v' = v"
proof -
  have ok: "ctx_ok (context_token_map (hs_store h))" using assms(4) by (simp add: hub_ready_def)
  have "map_of (context_token_map (hs_store h)) v = Some \<lparr>real_ctx = rc, ctx_peer = key\<rparr>"
    using assms(1) by (simp add: ctx_step_def)
  then have "row_of_peer key (context_token_map (hs_store h)) = Some (v, \<lparr>real_ctx = rc, ctx_peer = key\<rparr>)"
    using row_of_peer_iff [OF ok assms(2)] by simp
  moreover have "ctx_step (context_token_map (hs_store h)) rc' key v' (context_token_map (hs_store h'))"
    using resolve_vctx_step [OF ok _ _ _ assms(6)] assms(3-5) by (simp add: hub_ready_def no_faults_def)
  ultimately show ?thesis using assms(2) by (simp add: ctx_step_def)
qed

lemma session_new_stores:
  assumes "no_faults env" "context_token msg = Some rc" "rc \<noteq> []"
    and "get_route (hs_router h) (unwrap_or [] (from_user_id msg)) = Some vt"
    and "resolve_vctx_for_message env [] rc (unwrap_or [] (from_user_id msg)) (group_id msg) h = (v, h1)"
  shows "hs_store (handle_hub_command env msg (SessionNew n u) h) =
      set_active_session_name (de_now env) v vt n (set_backend_session v vt n u (hs_store h1))"
    and "hs_router (handle_hub_command env msg (SessionNew n u) h) = hs_router h"
  using assms resolve_vctx_fields(3) [OF assms(5)]
  by (simp_all add: handle_hub_command_def opt_filter_def run_command_def handle_cmd_session_new_def resolve_vctx_and_vtoken_def
      no_faults_def Let_def send_upstream_def)

lemma forward_queues:
  assumes "hub_ready env vt h" "context_token msg = Some rc" "rc \<noteq> []"
    and "resolve_vctx_for_message env [] rc (unwrap_or [] (from_user_id msg)) (group_id msg) h = (v, h1)"
  shows "pending (hs_queue (forward_to env vt ov msg h)) = (pending (hs_queue h))(vt := pending (hs_queue h) vt @
    [msg\<lparr>context_token := Some v, ilink_hub_ext := build_hub_ext_for_vctx env (hs_store h1) v vt ov,
       seq := Some (int (Suc (allocated (hs_queue h) vt)))\<rparr>])"
proof -
  let ?ext = "build_hub_ext_for_vctx env (hs_store h1) v vt ov"
  note f = resolve_vctx_fields [OF assms(4)]
  have "forward_to env vt ov msg h = save_history env v vt (session_of_ext ?ext) (unwrap_or [] (from_user_id msg)) (msg_text msg)
      (push_to_queue vt (msg\<lparr>context_token := Some v, ilink_hub_ext := ?ext\<rparr>) (grant_dispatch env v vt (session_of_ext ?ext) h1))"
    using assms by (simp add: forward_to_def opt_filter_def Let_def)
  then show ?thesis
    using assms(1) f push_accepted [of "grant_dispatch env v vt (session_of_ext ?ext) h1" vt
        "msg\<lparr>context_token := Some v, ilink_hub_ext := ?ext\<rparr>"]
    by (simp add: hub_ready_def)
qed

text \<open>C13: A new session governs the next message. After \<open>/session new\<close> by a user who is routed to a backend, the
  user's next ordinary message in that conversation is queued for that backend with the session's name, and
  with the backend's session identifier when one was given.
\<close>

theorem session_new_governs_next_message:
  fixes h :: HubState and m1 m2 :: WeixinMessage and e1 e2 :: DispatchEnv
  defines "uid \<equiv> unwrap_or [] (from_user_id m1)" and "h1 \<equiv> dispatch_message e1 m1 h"
  assumes "message_type m1 \<noteq> Some 2" "Option.bind (msg_text m1) (parse_hub_command (de_ts e1)) = Some (SessionNew n u)"
    and "context_token m1 = Some rc1" "rc1 \<noteq> []" "get_route (hs_router h) uid = Some vt" "conv_key uid (group_id m1) \<noteq> []"
    and "ctx_ok (context_token_map (hs_store h))" "fresh_vctx e1 [] h" "no_faults e1"
    and "\<not> ctx_shared (context_token_map (hs_store h)) rc1 (conv_key uid (group_id m1))"
    and "message_type m2 \<noteq> Some 2" "mention_target h1 m2 = None" "Option.bind (msg_text m2) (parse_hub_command (de_ts e2)) = None"
    and "resolve_quote e2 h1 m2 = None" "context_token m2 = Some rc2" "rc2 \<noteq> []"
    and "from_user_id m2 = from_user_id m1" "group_id m2 = group_id m1"
    and "hub_ready e2 vt h1" "\<not> ctx_shared (context_token_map (hs_store h1)) rc2 (conv_key uid (group_id m1))"
  shows "\<exists>v. pending (hs_queue (dispatch_message e2 m2 h1)) = (pending (hs_queue h1))(vt := pending (hs_queue h1) vt @
    [m2\<lparr>context_token := Some v, ilink_hub_ext := Some (session_ext n (usable_sid (Some u))),
       seq := Some (int (Suc (allocated (hs_queue h1) vt)))\<rparr>])"
proof -
  let ?key = "conv_key uid (group_id m1)"
  obtain y where "h1 = handle_hub_command e1 m1 (SessionNew n u) (h\<lparr>hs_metrics := y\<rparr>)"
    unfolding h1_def using dispatch_command [OF assms(3,4)] by blast
  moreover obtain v g where g: "resolve_vctx_for_message e1 [] rc1 uid (group_id m1) (h\<lparr>hs_metrics := y\<rparr>) = (v, g)" by fastforce
  ultimately have st: "hs_store h1 = set_active_session_name (de_now e1) v vt n (set_backend_session v vt n u (hs_store g))"
    and rt: "hs_router h1 = hs_router h"
    using session_new_stores [OF assms(11,5,6)] assms(7) unfolding uid_def by simp_all
  have step: "ctx_step (context_token_map (hs_store h)) rc1 ?key v (context_token_map (hs_store h1))"
    using resolve_vctx_step [OF _ _ _ _ g] assms(9-12)
    by (simp add: st set_active_session_name_def set_backend_session_def fresh_vctx_def no_faults_def)
  have r2: "route (de_ts e2) (hs_router h1) m2 = ForwardTo vt None"
    using assms(7,15,19) by (simp add: route_def rt uid_def)
  obtain z where z: "dispatch_message e2 m2 h1 = forward_to e2 vt None m2 (h1\<lparr>hs_metrics := z\<rparr>)"
    using dispatch_forward [OF assms(13,14), of e2 vt None] r2 assms(16) by (auto simp: merge_routing_with_quote_def)
  obtain v' g' where g': "resolve_vctx_for_message e2 [] rc2 uid (group_id m2) (h1\<lparr>hs_metrics := z\<rparr>) = (v', g')" by fastforce
  have ready: "hub_ready e2 vt (h1\<lparr>hs_metrics := z\<rparr>)" using assms(21) by (simp add: hub_ready_def fresh_vctx_def)
  have "v' = v"
    using resolve_vctx_again [OF _ assms(8) _ ready _ g'] step assms(20,22) by simp
  moreover have "build_hub_ext_for_vctx e2 (hs_store g') v vt None = Some (session_ext n (usable_sid (Some u)))"
    using resolve_vctx_fields(9,10) [OF g'] assms(21)
    by (simp add: build_hub_ext_for_vctx_def opt_filter_def hub_ready_def no_faults_def get_hub_ext_single_def Let_def st
        set_active_session_name_def set_backend_session_def split: option.split)
  ultimately show ?thesis
    using forward_queues [OF ready assms(17,18), of v' g' None] g' assms(19) by (auto simp: z uid_def)
qed

lemma demo_session_new:
  "hs_store (dispatch_message demo_env (demo_msg ''/sn work abc'' JNull) demo_hub) =
     (Store_new Sqlite 60)\<lparr>context_token_map := [(''vctx_upsert'', \<lparr>real_ctx = ''ctx1'', ctx_peer = ''peer:ann''\<rparr>)],
        active_sessions := [((''vctx_upsert'', ''a1''), \<lparr>as_session = ''work'', as_depth = 0, as_expires = 160, as_updated = 100\<rparr>)],
        backend_sessions_v2 := [((''vctx_upsert'', ''a1'', ''work''), \<lparr>bs_sid = ''abc'', bs_usage = None\<rparr>)]\<rparr>"
  (is "?st = _")
  "hs_queue (dispatch_message demo_env (demo_msg ''/sn work abc'' JNull) demo_hub) = hs_queue demo_hub"
proof -
  let ?m = "demo_msg ''/sn work abc'' JNull"
  have p: "parse_hub_command ts ''/sn work abc'' = Some (SessionNew ''work'' ''abc'')" for ts by code_simp
  obtain y where d: "dispatch_message demo_env ?m demo_hub = handle_hub_command demo_env ?m (SessionNew ''work'' ''abc'') (demo_hub\<lparr>hs_metrics := y\<rparr>)"
    using dispatch_command [of ?m demo_env "SessionNew ''work'' ''abc''" demo_hub] by (auto simp: p)
  let ?h = "demo_hub\<lparr>hs_metrics := y\<rparr>"
  have r: "resolve_vctx_for_message demo_env [] ''ctx1'' (unwrap_or [] (from_user_id ?m)) (group_id ?m) ?h =
      (''vctx_upsert'', ?h\<lparr>hs_store := (Store_new Sqlite 60)\<lparr>context_token_map := [(''vctx_upsert'', \<lparr>real_ctx = ''ctx1'', ctx_peer = ''peer:ann''\<rparr>)]\<rparr>\<rparr>)"
    by (simp add: resolve_vctx_for_message_def demo_env_def demo_hub_def empty_hub_def HubState_new_def Store_new_def find_or_create_vctx_def
        conv_key_def opt_filter_def unwrap_or_def upsert_ctx_def row_of_peer_def real_ctx_taken_def Let_def)
  have rt: "get_route (hs_router ?h) (unwrap_or [] (from_user_id ?m)) = Some ''a1''"
    by (simp add: demo_hub_def get_route_def Router_new_def opt_or_def)
  show "?st = (Store_new Sqlite 60)\<lparr>context_token_map := [(''vctx_upsert'', \<lparr>real_ctx = ''ctx1'', ctx_peer = ''peer:ann''\<rparr>)],
        active_sessions := [((''vctx_upsert'', ''a1''), \<lparr>as_session = ''work'', as_depth = 0, as_expires = 160, as_updated = 100\<rparr>)],
        backend_sessions_v2 := [((''vctx_upsert'', ''a1'', ''work''), \<lparr>bs_sid = ''abc'', bs_usage = None\<rparr>)]\<rparr>"
    using session_new_stores(1) [OF _ _ _ rt r, of "''work''" "''abc''"]
    by (simp add: d no_faults_def set_active_session_name_def set_backend_session_def Store_new_def grant_expires_at_def i64_max_def)
  obtain st where "snd (run_command demo_env ''ann'' ''ctx1'' ?m (SessionNew ''work'' ''abc'') ?h) = ?h\<lparr>hs_store := st\<rparr>"
    using run_command_frame [of "SessionNew ''work'' ''abc''" demo_env "''ann''" "''ctx1''" ?m ?h] by auto
  then show "hs_queue (dispatch_message demo_env ?m demo_hub) = hs_queue demo_hub"
    by (auto simp: d handle_hub_command_def opt_filter_def unwrap_or_def send_upstream_def Let_def split: prod.split)
qed

theorem session_new_governs_next_message_witness:
  "\<exists>v. pending (hs_queue (dispatch_message (demo_env\<lparr>de_uuid := \<lambda>op k. ''2'' @ op\<rparr>) (demo_msg ''hello'' JNull)
        (dispatch_message demo_env (demo_msg ''/sn work abc'' JNull) demo_hub))) ''a1'' =
     [(demo_msg ''hello'' JNull)\<lparr>context_token := Some v, ilink_hub_ext := Some (session_ext ''work'' (usable_sid (Some ''abc''))), seq := Some 1\<rparr>]"
proof -
  let ?m1 = "demo_msg ''/sn work abc'' JNull" and ?m2 = "demo_msg ''hello'' JNull" and ?e2 = "demo_env\<lparr>de_uuid := \<lambda>op k. ''2'' @ op\<rparr>"
  let ?h1 = "dispatch_message demo_env ?m1 demo_hub"
  have p: "parse_hub_command ts ''/sn work abc'' = Some (SessionNew ''work'' ''abc'')" "parse_hub_command ts ''hello'' = None"
    "parse_at_mention ''hello'' = None" for ts by code_simp+
  have 1: "message_type ?m1 \<noteq> Some 2" "message_type ?m2 \<noteq> Some 2" by simp_all
  have 2: "Option.bind (msg_text ?m1) (parse_hub_command (de_ts demo_env)) = Some (SessionNew ''work'' ''abc'')" by (simp add: p)
  have 3: "get_route (hs_router demo_hub) (unwrap_or [] (from_user_id ?m1)) = Some ''a1''"
    by (simp add: demo_hub_def get_route_def Router_new_def opt_or_def)
  have 4: "conv_key (unwrap_or [] (from_user_id ?m1)) (group_id ?m1) \<noteq> []" by (simp add: conv_key_def opt_filter_def unwrap_or_def)
  have 5: "ctx_ok (context_token_map (hs_store demo_hub))" "fresh_vctx demo_env [] demo_hub" "no_faults demo_env"
    using demo_ready(1) by (simp_all add: hub_ready_def)
  have 6: "mention_target ?h1 ?m2 = None" "Option.bind (msg_text ?m2) (parse_hub_command (de_ts ?e2)) = None"
    by (simp_all add: mention_target_def p)
  have 7: "hub_ready ?e2 ''a1'' ?h1"
    using demo_ready(1)
    by (simp add: hub_ready_def demo_session_new ctx_ok_def fresh_vctx_def no_faults_def grant_expires_at_def i64_max_def Store_new_def)
  have 8: "\<not> ctx_shared (context_token_map (hs_store ?h1)) ''ctx1'' (conv_key (unwrap_or [] (from_user_id ?m1)) (group_id ?m1))"
    by (simp add: demo_session_new ctx_shared_def conv_key_def opt_filter_def unwrap_or_def)
  have ctx: "context_token ?m1 = Some ''ctx1''" "context_token ?m2 = Some ''ctx1''" "''ctx1'' \<noteq> []"
    "from_user_id ?m2 = from_user_id ?m1" "group_id ?m2 = group_id ?m1" by simp_all
  have q: "pending (hs_queue demo_hub) ''a1'' = []" "allocated (hs_queue demo_hub) ''a1'' = 0"
    by (simp_all add: demo_hub_def empty_hub_def HubState_new_def with_limit_def pending_def allocated_def)
  show ?thesis
    using session_new_governs_next_message [OF 1(1) 2 ctx(1,3) 3 4 5 demo_unshared 1(2) 6 demo_no_quote ctx(2,3,4,5) 7 8]
    by (auto simp: demo_session_new(2) q)
qed

end
