(* ===== verification/Bot_Api.thy ===== *)
theory Bot_Api
  imports Dispatch_Flows Poll_Tracker
begin

text \<open>
  The calls backends make (\<open>server/routes/bot.rs\<close>, \<open>server/routes/wait.rs\<close>): the long poll, sending a reply,
  the typing indicator, the configuration ticket and upload addresses.  The poll is two steps around its wait.
  The answer of the rate limiter for a token, the answer of the upstream service and the serialisation of a JSON
  value are arguments; store failures are those of the call's environment.  Registration is modelled with the client
  life cycle.
\<close>

section \<open>Requests and responses\<close>

record BaseInfo =
  bi_channel_version :: "string option"
  bi_bot_agent :: "string option"

definition ILINK_CHANNEL_VERSION :: string where
  "ILINK_CHANNEL_VERSION = ''2.4.6''"

definition BaseInfo_default :: "string \<Rightarrow> BaseInfo" where
  "BaseInfo_default pkg_version = \<lparr>bi_channel_version = Some ILINK_CHANNEL_VERSION, bi_bot_agent = Some (''ilink-hub/'' @ pkg_version)\<rparr>"

record SendMessageRequest =
  smr_msg :: "WeixinMessage option"
  smr_base_info :: "BaseInfo option"

record GetConfigRequest =
  gcr_user :: "string option"
  gcr_context_token :: "string option"
  gcr_base_info :: "BaseInfo option"

record GetConfigResponse =
  gcs_ret :: "int option"
  gcs_errmsg :: "string option"
  gcs_typing_ticket :: "string option"

record SendTypingRequest =
  str_user :: "string option"
  str_typing_ticket :: "string option"
  str_status :: "int option"
  str_base_info :: "BaseInfo option"

definition UNKNOWN_VTOKEN_MSG :: string where
  "UNKNOWN_VTOKEN_MSG = ''Unknown or revoked virtual token; register via POST /hub/register or ilink-hub-bridge --force-register''"

definition retry_after_secs :: "nat \<Rightarrow> nat" where
  "retry_after_secs ns = (let ms = ns div 1000000 mod 2 ^ 64 in max ((ms + 999) div 1000) 1)"

definition limit_text :: "nat \<Rightarrow> string" where
  "limit_text s = ''rate limit exceeded; retry after '' @ show_nat s @ ''s''"

text \<open>The three gates every outbound call passes in this order: credential, registration, rate limit.\<close>

datatype gate = NoCredential | UnknownToken | Limited nat | Admitted vtoken

definition outbound_gate :: "(string \<Rightarrow> 8 word list) \<Rightarrow> (vtoken \<Rightarrow> nat option) \<Rightarrow> string option \<Rightarrow> HubState \<Rightarrow> gate" where
  "outbound_gate sha limiter hdr h = (case extract_vtoken sha hdr of
     None \<Rightarrow> NoCredential
   | Some vt \<Rightarrow> if get_by_vtoken (hs_registry h) vt = None then UnknownToken
       else (case limiter vt of Some ns \<Rightarrow> Limited (retry_after_secs ns) | None \<Rightarrow> Admitted vt))"

section \<open>Long poll\<close>

definition poll_error :: "int \<Rightarrow> string \<Rightarrow> GetUpdatesResponse" where
  "poll_error c t = \<lparr>gu_ret = Some c, gu_errcode = None, gu_errmsg = Some t, gu_msgs = None, gu_buf = None\<rparr>"

datatype poll_step = PollDone nat GetUpdatesResponse | PollWaits vtoken nat bool

definition poll_seconds :: "GetUpdatesRequest \<Rightarrow> nat" where
  "poll_seconds req = min (unwrap_or 30 (timeout req)) 55"

text \<open>
  From entry to the wait.  The last component of \<open>PollWaits\<close> says that the wait has already ended, because a
  notification was stored or the hub is shutting down.
\<close>

definition getupdates_begin ::
  "(string \<Rightarrow> 8 word list) \<Rightarrow> nat \<Rightarrow> bool \<Rightarrow> string option \<Rightarrow> GetUpdatesRequest \<Rightarrow> PollTracker \<times> HubState \<Rightarrow>
     poll_step \<times> PollTracker \<times> HubState" where
  "getupdates_begin sha now_secs shutdown hdr req s = (case s of (pt, h) \<Rightarrow>
     (case extract_vtoken sha hdr of
        None \<Rightarrow> (PollDone 401 (poll_error 401 ''Missing Authorization header''), pt, h)
      | Some vt \<Rightarrow>
          (case enter vt pt of (outcome, pt1) \<Rightarrow>
             (case outcome of
                HubLimitReached t cap \<Rightarrow>
                  (PollDone 503 (poll_error 503 (''Hub is at capacity ('' @ show_nat t @ ''/'' @ show_nat cap @
                     '' concurrent long-polls). Retry later.'')), pt1, h)
              | _ \<Rightarrow>
                  (let polls = (case outcome of EnterOk c _ \<Rightarrow> c | _ \<Rightarrow> 0) in
                   if polls > MAX_CONCURRENT_POLLS_PER_VTOKEN
                   then (PollDone 429 (poll_error 429 ''too many concurrent polls for this vtoken''), guard_drop vt pt1, h)
                   else (case get_by_vtoken (hs_registry h) vt of
                       None \<Rightarrow> (PollDone 401 (poll_error 401 UNKNOWN_VTOKEN_MSG), guard_drop vt pt1, h)
                     | Some info \<Rightarrow>
                         (let h1 = h\<lparr>hs_last_seen := hm_insert vt now_secs (hs_last_seen h)\<rparr>;
                              h2 = (if online info then h1 else h1\<lparr>hs_registry := mark_online vt (hs_registry h1)\<rparr>)
                          in if shutdown then (PollWaits vt (poll_seconds req) True, pt1, h2)
                             else (case wait_enter (hs_queue h2) vt of (ready, q) \<Rightarrow>
                                (PollWaits vt (poll_seconds req) ready, pt1, h2\<lparr>hs_queue := q\<rparr>)))))))))"

text \<open>How a wait that did not end at once ends.\<close>

datatype wait_end = WaitNotified | WaitTimeout | WaitShutdown

definition wait_ends :: "wait_end \<Rightarrow> vtoken \<Rightarrow> HubState \<Rightarrow> HubState" where
  "wait_ends e vt h = (case e of WaitNotified \<Rightarrow> h
     | _ \<Rightarrow> h\<lparr>hs_queue := wait_timeout (hs_queue h) vt\<rparr>)"

definition getupdates_finish :: "vtoken \<Rightarrow> GetUpdatesRequest \<Rightarrow> PollTracker \<times> HubState \<Rightarrow> GetUpdatesResponse \<times> PollTracker \<times> HubState" where
  "getupdates_finish vt req s = (case s of (pt, h) \<Rightarrow>
     (case queue_poll (hs_queue h) vt (map_option word_of_nat (ack_watermark req)) of (b, q) \<Rightarrow>
        (\<lparr>gu_ret = Some 0, gu_errcode = None, gu_errmsg = None, gu_msgs = (if pb_msgs b = [] then None else Some (pb_msgs b)),
          gu_buf = Some (show_nat (unat (pb_cursor b)))\<rparr>, guard_drop vt pt, h\<lparr>hs_queue := q\<rparr>)))"

section \<open>Sending a reply\<close>

definition count_send :: "HubState \<Rightarrow> HubState" where
  "count_send h = h\<lparr>hs_metrics := (hs_metrics h)\<lparr>mt_send_total := mt_send_total (hs_metrics h) + 1\<rparr>\<rparr>"

definition count_send_error :: "HubState \<Rightarrow> HubState" where
  "count_send_error h = h\<lparr>hs_metrics := (hs_metrics h)\<lparr>mt_send_errors := mt_send_errors (hs_metrics h) + 1\<rparr>\<rparr>"

definition replied_session :: "string \<Rightarrow> WeixinMessage \<Rightarrow> string" where
  "replied_session db_session msg = unwrap_or db_session
     (opt_filter (\<lambda>s. s \<noteq> []) (map_option trim (Option.bind (ilink_hub_ext msg) ext_session_name)))"

definition persist_cli_session :: "DispatchEnv \<Rightarrow> vctx \<Rightarrow> vtoken \<Rightarrow> string \<Rightarrow> HubExt \<Rightarrow> HubState \<Rightarrow> HubState" where
  "persist_cli_session env v vt sn ext h = (case opt_filter (\<lambda>t. t \<noteq> []) (map_option trim (ext_cli_session_id ext)) of
     None \<Rightarrow> h
   | Some t \<Rightarrow> if de_fault env ''set_backend_session'' vt \<noteq> None then h
       else h\<lparr>hs_store := set_backend_session v vt sn t (hs_store h)\<rparr>)"

definition persist_usage :: "DispatchEnv \<Rightarrow> (json \<Rightarrow> string) \<Rightarrow> vctx \<Rightarrow> vtoken \<Rightarrow> string \<Rightarrow> HubExt \<Rightarrow> HubState \<Rightarrow> HubState" where
  "persist_usage env to_json v vt sn ext h = (case ext_usage ext of
     None \<Rightarrow> h
   | Some u \<Rightarrow> if de_fault env ''set_backend_session_usage'' vt \<noteq> None then h
       else h\<lparr>hs_store := set_backend_session_usage v vt sn (to_json u) (hs_store h)\<rparr>)"

definition resolve_call :: "WeixinMessage \<Rightarrow> HubExt \<Rightarrow> HubState \<Rightarrow> HubState" where
  "resolve_call msg ext h = (case (ext_a2a_call_id ext, msg_text msg) of
     (Some cid, Some t) \<Rightarrow> if cid \<noteq> [] \<and> t \<noteq> [] then h\<lparr>hs_waiter := snd (waiter_resolve cid t (hs_waiter h))\<rparr> else h
   | _ \<Rightarrow> h)"

definition read_hub_ext :: "DispatchEnv \<Rightarrow> (json \<Rightarrow> string) \<Rightarrow> vctx \<Rightarrow> vtoken \<Rightarrow> string \<Rightarrow> WeixinMessage \<Rightarrow> HubState \<Rightarrow> bool \<times> HubState" where
  "read_hub_ext env to_json v vt sn msg h = (case ilink_hub_ext msg of
     None \<Rightarrow> (False, h)
   | Some ext \<Rightarrow> (ext_a2a_call_id ext \<noteq> None,
       resolve_call msg ext (persist_usage env to_json v vt sn ext (persist_cli_session env v vt sn ext h))))"

definition translate_outbound :: "DispatchEnv \<Rightarrow> string \<Rightarrow> string \<Rightarrow> WeixinMessage \<Rightarrow> WeixinMessage" where
  "translate_outbound env rc peer msg =
     (let m1 = msg\<lparr>ilink_hub_ext := None, context_token := Some rc\<rparr>;
          m2 = (if to_user_id m1 = None \<and> peer \<noteq> [] then m1\<lparr>to_user_id := Some peer\<rparr> else m1)
      in ensure_outbound (de_uuid env ''client'' []) (de_msg_id env) m2)"

definition label_outbound :: "HubState \<Rightarrow> vtoken \<Rightarrow> string \<Rightarrow> WeixinMessage \<Rightarrow> WeixinMessage" where
  "label_outbound h vt sn msg =
     (if should_append_outbound_origin_label (length (online_clients (hs_registry h))) (outbound_origin_label (hs_admin h))
      then (case get_by_vtoken (hs_registry h) vt of
          Some c \<Rightarrow> apply_persona_and_footer_to_first_text_item (persona_name c) (persona_emoji c) (name c) (label c) (Some sn) msg
        | None \<Rightarrow> msg)
      else msg)"

definition save_reply :: "DispatchEnv \<Rightarrow> vctx \<Rightarrow> vtoken \<Rightarrow> string \<Rightarrow> string \<Rightarrow> WeixinMessage \<Rightarrow> HubState \<Rightarrow> HubState" where
  "save_reply env v vt sn peer msg h =
     (if (case message_state msg of None \<Rightarrow> False | Some s \<Rightarrow> s \<noteq> message_state_FINISH) then h
      else (case msg_text msg of
          None \<Rightarrow> h
        | Some t \<Rightarrow>
            if \<not> de_permit env
            then h\<lparr>hs_metrics := (hs_metrics h)\<lparr>mt_persist_dropped := mt_persist_dropped (hs_metrics h) + 1\<rparr>\<rparr>
            else if de_fault env ''save_message_with_msg_id'' vt \<noteq> None then h
            else h\<lparr>hs_messages := save_message_with_msg_id (de_now env) v (Some vt) sn peer ''assistant'' t (message_id msg) (hs_messages h)\<rparr>))"

definition upstream_reply :: "string + SendMessageResponse \<Rightarrow> SendMessageResponse" where
  "upstream_reply r = (case r of Inr resp \<Rightarrow> resp | Inl e \<Rightarrow> SendMessageResponse_err 500 (''upstream error: '' @ e))"

definition SendMessageResponse_default :: SendMessageResponse where
  "SendMessageResponse_default = \<lparr>sm_ret = None, sm_errmsg = None\<rparr>"

definition with_base_info :: "string \<Rightarrow> SendMessageRequest \<Rightarrow> SendMessageRequest" where
  "with_base_info pkg r = (if smr_base_info r = None then r\<lparr>smr_base_info := Some (BaseInfo_default pkg)\<rparr> else r)"

definition deliver_reply ::
  "DispatchEnv \<Rightarrow> string \<Rightarrow> (json \<Rightarrow> string) \<Rightarrow> (SendMessageRequest \<Rightarrow> string + SendMessageResponse) \<Rightarrow> vtoken \<Rightarrow> vctx \<Rightarrow> string \<times> string \<times> string \<Rightarrow>
     SendMessageRequest \<Rightarrow> WeixinMessage \<Rightarrow> HubState \<Rightarrow> SendMessageResponse \<times> HubState" where
  "deliver_reply env pkg to_json upstream vt v ctx req msg h = (case ctx of (rc, peer, db_session) \<Rightarrow>
     (let sn = replied_session db_session msg; (is_a2a, h1) = read_hub_ext env to_json v vt sn msg h
      in if is_a2a then (SendMessageResponse_ok, h1)
         else (let m = translate_outbound env rc peer msg
               in if (case msg_text m of None \<Rightarrow> True | Some t \<Rightarrow> trim t = []) \<and> \<not> has_media_content m
                  then (SendMessageResponse_default, h1)
                  else (let m' = label_outbound h1 vt sn m
                        in (upstream_reply (upstream (with_base_info pkg (req\<lparr>smr_msg := Some m'\<rparr>))), send_upstream m' (save_reply env v vt sn peer m' h1))))))"

definition sendmessage ::
  "(string \<Rightarrow> 8 word list) \<Rightarrow> DispatchEnv \<Rightarrow> string \<Rightarrow> (json \<Rightarrow> string) \<Rightarrow> (vtoken \<Rightarrow> nat option) \<Rightarrow> (SendMessageRequest \<Rightarrow> string + SendMessageResponse) \<Rightarrow>
     string option \<Rightarrow> SendMessageRequest \<Rightarrow> HubState \<Rightarrow> (nat \<times> SendMessageResponse) \<times> HubState" where
  "sendmessage sha env pkg to_json limiter upstream hdr req h0 =
     (let h = count_send h0 in
      case outbound_gate sha limiter hdr h of
        NoCredential \<Rightarrow> ((200, SendMessageResponse_err 401 ''Missing Authorization header''), count_send_error h)
      | UnknownToken \<Rightarrow> ((200, SendMessageResponse_err 401 UNKNOWN_VTOKEN_MSG), count_send_error h)
      | Limited s \<Rightarrow> ((429, SendMessageResponse_err 429 (limit_text s)), count_send_error h)
      | Admitted vt \<Rightarrow>
          (case smr_msg req of
             None \<Rightarrow> ((200, SendMessageResponse_err 400 ''Missing msg.context_token''), h)
           | Some msg \<Rightarrow>
               (case opt_filter (\<lambda>c. c \<noteq> []) (context_token msg) of
                  None \<Rightarrow> ((200, SendMessageResponse_err 400 ''Missing msg.context_token''), h)
                | Some v \<Rightarrow>
                    if de_fault env ''resolve_send_context'' vt \<noteq> None
                    then ((200, SendMessageResponse_err 500 ''context_token resolution error''), h)
                    else (case resolve_send_context (de_now env) (hs_store h) v vt of
                        None \<Rightarrow> ((200, SendMessageResponse_err 403 ''Unknown context_token or not authorized for this context''), h)
                      | Some ctx \<Rightarrow> (case deliver_reply env pkg to_json upstream vt v ctx req msg h of
                          (resp, h1) \<Rightarrow> ((200, resp), h1))))))"

section \<open>Typing, configuration, uploads\<close>

text \<open>The body of these answers is a status code and an optional message; success hands the upstream answer through.\<close>

definition sendtyping ::
  "(string \<Rightarrow> 8 word list) \<Rightarrow> (vtoken \<Rightarrow> nat option) \<Rightarrow> (SendTypingRequest \<Rightarrow> string + 'r) \<Rightarrow> string option \<Rightarrow> SendTypingRequest \<Rightarrow> HubState \<Rightarrow>
     nat \<times> int \<times> string option" where
  "sendtyping sha limiter upstream hdr req h = (case outbound_gate sha limiter hdr h of
     NoCredential \<Rightarrow> (200, 401, Some ''Missing Authorization'')
   | UnknownToken \<Rightarrow> (200, 401, Some UNKNOWN_VTOKEN_MSG)
   | Limited s \<Rightarrow> (429, 429, Some (limit_text s))
   | Admitted _ \<Rightarrow> (case upstream req of Inr _ \<Rightarrow> (200, 0, None) | Inl e \<Rightarrow> (200, 500, Some (''upstream error: '' @ e))))"

definition config_error :: "int \<Rightarrow> string \<Rightarrow> GetConfigResponse" where
  "config_error c t = \<lparr>gcs_ret = Some c, gcs_errmsg = Some t, gcs_typing_ticket = None\<rparr>"

text \<open>The request upstream receives, if any, and the refusal otherwise.\<close>

definition translate_config :: "DispatchEnv \<Rightarrow> string \<Rightarrow> vtoken \<Rightarrow> GetConfigRequest \<Rightarrow> HubState \<Rightarrow> GetConfigResponse + GetConfigRequest" where
  "translate_config env pkg vt req h =
     (let with_base = (\<lambda>r. if gcr_base_info r = None then r\<lparr>gcr_base_info := Some (BaseInfo_default pkg)\<rparr> else r)
      in case gcr_context_token req of
           None \<Rightarrow> Inr (with_base req)
         | Some t \<Rightarrow>
             if de_fault env ''resolve_context_token'' t \<noteq> None then Inl (config_error 500 ''context_token resolution error'')
             else (case resolve_context_token (hs_store h) t of
                 None \<Rightarrow> Inr (with_base req)
               | Some real \<Rightarrow>
                   if de_fault env ''vtoken_owns_vctx'' vt \<noteq> None then Inl (config_error 500 ''context ownership check error'')
                   else if vtoken_owns_vctx (de_now env) (hs_store h) t vt
                   then Inr (with_base (req\<lparr>gcr_context_token := Some real\<rparr>))
                   else Inl (config_error 403 ''context_token not authorized for this client'')))"

definition getconfig ::
  "(string \<Rightarrow> 8 word list) \<Rightarrow> DispatchEnv \<Rightarrow> string \<Rightarrow> (vtoken \<Rightarrow> nat option) \<Rightarrow> (GetConfigRequest \<Rightarrow> string + GetConfigResponse) \<Rightarrow>
     string option \<Rightarrow> GetConfigRequest \<Rightarrow> HubState \<Rightarrow> nat \<times> GetConfigResponse" where
  "getconfig sha env pkg limiter upstream hdr req h = (case outbound_gate sha limiter hdr h of
     NoCredential \<Rightarrow> (200, config_error 401 ''Missing Authorization'')
   | UnknownToken \<Rightarrow> (200, config_error 401 UNKNOWN_VTOKEN_MSG)
   | Limited s \<Rightarrow> (429, config_error 429 (limit_text s))
   | Admitted vt \<Rightarrow> (case translate_config env pkg vt req h of
        Inl refusal \<Rightarrow> (200, refusal)
      | Inr req' \<Rightarrow> (200, case upstream req' of Inr r \<Rightarrow> r | Inl e \<Rightarrow> config_error 500 (''upstream error: '' @ e))))"

record GetUploadUrlRequest =
  guq_filekey :: "string option"
  guq_media_type :: "int option"
  guq_to_user_id :: "string option"
  guq_rawsize :: "nat option"
  guq_rawfilemd5 :: "string option"
  guq_filesize :: "nat option"
  guq_thumb_rawsize :: "nat option"
  guq_thumb_rawfilemd5 :: "string option"
  guq_thumb_filesize :: "nat option"
  guq_no_need_thumb :: "bool option"
  guq_aeskey :: "string option"

record GetUploadUrlResponse =
  gus_ret :: "int option"
  gus_errmsg :: "string option"
  gus_upload_param :: "string option"
  gus_thumb_upload_param :: "string option"
  gus_upload_full_url :: "string option"

definition upload_error :: "int \<Rightarrow> string \<Rightarrow> GetUploadUrlResponse" where
  "upload_error c t = \<lparr>gus_ret = Some c, gus_errmsg = Some t, gus_upload_param = None, gus_thumb_upload_param = None, gus_upload_full_url = None\<rparr>"

definition getuploadurl ::
  "(string \<Rightarrow> 8 word list) \<Rightarrow> (vtoken \<Rightarrow> nat option) \<Rightarrow> (GetUploadUrlRequest \<Rightarrow> string + GetUploadUrlResponse) \<Rightarrow>
     string option \<Rightarrow> GetUploadUrlRequest \<Rightarrow> HubState \<Rightarrow> nat \<times> GetUploadUrlResponse" where
  "getuploadurl sha limiter upstream hdr req h = (case outbound_gate sha limiter hdr h of
     NoCredential \<Rightarrow> (200, upload_error 401 ''Missing Authorization'')
   | UnknownToken \<Rightarrow> (200, upload_error 401 UNKNOWN_VTOKEN_MSG)
   | Limited s \<Rightarrow> (429, upload_error 429 (limit_text s))
   | Admitted _ \<Rightarrow> (200, case upstream req of Inr r \<Rightarrow> r | Inl e \<Rightarrow> upload_error 500 (''upstream error: '' @ e)))"

section \<open>What the steps keep\<close>

lemma on_first_text_keeps [simp]:
  "context_token (on_first_text f m) = context_token m" "ilink_hub_ext (on_first_text f m) = ilink_hub_ext m"
  "to_user_id (on_first_text f m) = to_user_id m" "message_id (on_first_text f m) = message_id m"
  "message_state (on_first_text f m) = message_state m"
  by (simp_all add: on_first_text_def split: option.split list.split)

lemma on_first_text_text: "msg_text m \<noteq> None \<Longrightarrow> msg_text (on_first_text f m) \<noteq> None"
  by (auto simp: msg_text_def on_first_text_def item_text_def item_voice_text_def opt_or_def split: option.splits list.splits)

lemma label_outbound_keeps [simp]:
  "context_token (label_outbound h vt sn m) = context_token m" "ilink_hub_ext (label_outbound h vt sn m) = ilink_hub_ext m"
  "to_user_id (label_outbound h vt sn m) = to_user_id m" "message_id (label_outbound h vt sn m) = message_id m"
  "message_state (label_outbound h vt sn m) = message_state m"
  by (simp_all add: label_outbound_def apply_persona_and_footer_to_first_text_item_def split: option.split)

lemma label_outbound_text: "msg_text m \<noteq> None \<Longrightarrow> msg_text (label_outbound h vt sn m) \<noteq> None"
  by (simp add: label_outbound_def apply_persona_and_footer_to_first_text_item_def on_first_text_text
      del: not_None_eq split: option.split)

lemma ensure_outbound_state [simp]:
  "message_state (ensure_outbound u i m) = Some (unwrap_or message_state_FINISH (message_state m))"
  by (cases "message_state m") (simp_all add: ensure_outbound_def Let_def)

lemma translate_outbound_fields [simp]:
  "context_token (translate_outbound env rc peer m) = Some rc" "ilink_hub_ext (translate_outbound env rc peer m) = None"
  "item_list (translate_outbound env rc peer m) = item_list m" "msg_text (translate_outbound env rc peer m) = msg_text m"
  "message_id (translate_outbound env rc peer m) = Some (unwrap_or (de_msg_id env) (message_id m))"
  "message_state (translate_outbound env rc peer m) = Some (unwrap_or message_state_FINISH (message_state m))"
  "to_user_id (translate_outbound env rc peer m) = (if to_user_id m = None \<and> peer \<noteq> [] then Some peer else to_user_id m)"
  by (simp_all add: translate_outbound_def Let_def msg_text_def)

lemma persist_frames:
  "\<exists>st. persist_cli_session env v vt sn ext h = h\<lparr>hs_store := st\<rparr>"
  "\<exists>st. persist_usage env to_json v vt sn ext h = h\<lparr>hs_store := st\<rparr>"
  "\<exists>w. resolve_call msg ext h = h\<lparr>hs_waiter := w\<rparr>"
  by (auto simp: persist_cli_session_def persist_usage_def resolve_call_def split: option.split intro: exI [of _ "hs_store h"]
      exI [of _ "hs_waiter h"])

lemma read_hub_ext_frame: "\<exists>st w. snd (read_hub_ext env to_json v vt sn msg h) = h\<lparr>hs_store := st, hs_waiter := w\<rparr>"
proof (cases "ilink_hub_ext msg")
  case None
  then show ?thesis by (intro exI [of _ "hs_store h"] exI [of _ "hs_waiter h"]) (simp add: read_hub_ext_def)
next
  case (Some ext)
  obtain a where a: "persist_cli_session env v vt sn ext h = h\<lparr>hs_store := a\<rparr>" using persist_frames(1) by blast
  obtain b where b: "persist_usage env to_json v vt sn ext (h\<lparr>hs_store := a\<rparr>) = h\<lparr>hs_store := b\<rparr>"
    using persist_frames(2) [of env to_json v vt sn ext "h\<lparr>hs_store := a\<rparr>"] by auto
  obtain w where w: "resolve_call msg ext (h\<lparr>hs_store := b\<rparr>) = h\<lparr>hs_store := b, hs_waiter := w\<rparr>"
    using persist_frames(3) [of msg ext "h\<lparr>hs_store := b\<rparr>"] by auto
  show ?thesis using Some a b w by (simp add: read_hub_ext_def) blast
qed

lemma save_reply_frame: "\<exists>ms y. save_reply env v vt sn peer msg h = h\<lparr>hs_messages := ms, hs_metrics := y\<rparr>"
  by (intro exI [of _ "hs_messages (save_reply env v vt sn peer msg h)"] exI [of _ "hs_metrics (save_reply env v vt sn peer msg h)"])
    (simp add: save_reply_def split: option.split)

text \<open>A reply is delivered unless it answers a call of another agent or has neither text nor media.\<close>

definition deliverable :: "WeixinMessage \<Rightarrow> bool" where
  "deliverable msg \<longleftrightarrow> Option.bind (ilink_hub_ext msg) ext_a2a_call_id = None
     \<and> ((\<exists>t. msg_text msg = Some t \<and> trim t \<noteq> []) \<or> has_media_content msg)"

lemma has_media_translate [simp]: "has_media_content (translate_outbound env rc peer m) = has_media_content m"
  by (simp add: has_media_content_def)

lemma read_hub_ext_a2a: "fst (read_hub_ext env to_json v vt sn msg h) \<longleftrightarrow> Option.bind (ilink_hub_ext msg) ext_a2a_call_id \<noteq> None"
  by (simp add: read_hub_ext_def split: option.split)

lemma deliver_reply_undeliverable:
  assumes "\<not> deliverable msg"
  shows "snd (deliver_reply env pkg to_json upstream vt v (rc, peer, db) req msg h)
    = snd (read_hub_ext env to_json v vt (replied_session db msg) msg h)"
  using assms read_hub_ext_a2a [of env to_json v vt "replied_session db msg" msg h]
  by (auto simp: deliver_reply_def deliverable_def Let_def case_prod_unfold split: option.splits)

definition outgoing :: "DispatchEnv \<Rightarrow> HubState \<Rightarrow> vtoken \<Rightarrow> string \<times> string \<times> string \<Rightarrow> WeixinMessage \<Rightarrow> WeixinMessage" where
  "outgoing env h vt ctx msg = (case ctx of (rc, peer, db) \<Rightarrow>
     label_outbound h vt (replied_session db msg) (translate_outbound env rc peer msg))"

lemma label_outbound_frame [simp]: "label_outbound (h\<lparr>hs_store := st, hs_waiter := w\<rparr>) vt sn m = label_outbound h vt sn m"
  "label_outbound (count_send h) vt sn m = label_outbound h vt sn m"
  by (simp_all add: label_outbound_def count_send_def)

lemma deliver_reply_deliverable:
  assumes "deliverable msg"
  shows "\<exists>st w. deliver_reply env pkg to_json upstream vt v (rc, peer, db) req msg h =
    (upstream_reply (upstream (with_base_info pkg (req\<lparr>smr_msg := Some (outgoing env h vt (rc, peer, db) msg)\<rparr>))),
     send_upstream (outgoing env h vt (rc, peer, db) msg)
       (save_reply env v vt (replied_session db msg) peer (outgoing env h vt (rc, peer, db) msg) (h\<lparr>hs_store := st, hs_waiter := w\<rparr>)))"
proof -
  let ?sn = "replied_session db msg"
  obtain st w where f: "snd (read_hub_ext env to_json v vt ?sn msg h) = h\<lparr>hs_store := st, hs_waiter := w\<rparr>"
    using read_hub_ext_frame by blast
  have "read_hub_ext env to_json v vt ?sn msg h = (False, h\<lparr>hs_store := st, hs_waiter := w\<rparr>)"
    using f assms read_hub_ext_a2a [of env to_json v vt ?sn msg h] by (cases "read_hub_ext env to_json v vt ?sn msg h") (simp add: deliverable_def)
  then show ?thesis
    using assms by (intro exI [of _ st] exI [of _ w]) (auto simp: deliver_reply_def outgoing_def deliverable_def Let_def split: option.split)
qed

lemma outgoing_fields [simp]:
  "context_token (outgoing env h vt (rc, peer, db) msg) = Some rc" "ilink_hub_ext (outgoing env h vt (rc, peer, db) msg) = None"
  "message_id (outgoing env h vt (rc, peer, db) msg) = Some (unwrap_or (de_msg_id env) (message_id msg))"
  "message_state (outgoing env h vt (rc, peer, db) msg) = Some (unwrap_or message_state_FINISH (message_state msg))"
  "to_user_id (outgoing env h vt (rc, peer, db) msg) = (if to_user_id msg = None \<and> peer \<noteq> [] then Some peer else to_user_id msg)"
  by (simp_all add: outgoing_def)

lemma deliver_reply_sent:
  "hs_sent (snd (deliver_reply env pkg to_json upstream vt v (rc, peer, db) req msg h)) =
     hs_sent h @ (if deliverable msg then [outgoing env h vt (rc, peer, db) msg] else [])"
proof (cases "deliverable msg")
  case True
  from deliver_reply_deliverable [OF True, of env pkg to_json upstream vt v rc peer db req h] obtain st w where
    "snd (deliver_reply env pkg to_json upstream vt v (rc, peer, db) req msg h) =
      send_upstream (outgoing env h vt (rc, peer, db) msg)
       (save_reply env v vt (replied_session db msg) peer (outgoing env h vt (rc, peer, db) msg) (h\<lparr>hs_store := st, hs_waiter := w\<rparr>))"
    by auto
  then show ?thesis
    using True save_reply_frame [of env v vt "replied_session db msg" peer "outgoing env h vt (rc, peer, db) msg" "h\<lparr>hs_store := st, hs_waiter := w\<rparr>"]
    by (auto simp: send_upstream_def)
next
  case False
  then show ?thesis
    using deliver_reply_undeliverable [OF False, of env pkg to_json upstream vt v rc peer db req h]
      read_hub_ext_frame [of env to_json v vt "replied_session db msg" msg h] by auto
qed

lemma gate_admitted:
  "outbound_gate sha limiter hdr h = Admitted vt \<longleftrightarrow>
     extract_vtoken sha hdr = Some vt \<and> get_by_vtoken (hs_registry h) vt \<noteq> None \<and> limiter vt = None"
  by (auto simp: outbound_gate_def split: option.splits)

lemma count_send_keeps [simp]:
  "hs_store (count_send h) = hs_store h" "hs_registry (count_send h) = hs_registry h" "hs_sent (count_send h) = hs_sent h"
  "hs_messages (count_send h) = hs_messages h" "hs_sent (count_send_error h) = hs_sent h" "outbound_gate sha limiter hdr (count_send h) = outbound_gate sha limiter hdr h"
  by (simp_all add: count_send_def count_send_error_def outbound_gate_def cong: option.case_cong)

lemma sendmessage_accepted:
  assumes "outbound_gate sha limiter hdr h = Admitted vt" "smr_msg req = Some msg" "context_token msg = Some v" "v \<noteq> []"
    and "de_fault env ''resolve_send_context'' vt = None" "resolve_send_context (de_now env) (hs_store h) v vt = Some ctx"
  shows "sendmessage sha env pkg to_json limiter upstream hdr req h =
    ((200, fst (deliver_reply env pkg to_json upstream vt v ctx req msg (count_send h))),
     snd (deliver_reply env pkg to_json upstream vt v ctx req msg (count_send h)))"
  using assms by (simp add: sendmessage_def Let_def opt_filter_def case_prod_unfold)

lemma sendmessage_refused:
  "\<nexists>vt. outbound_gate sha limiter hdr h = Admitted vt \<Longrightarrow>
     snd (sendmessage sha env pkg to_json limiter upstream hdr req h) = count_send_error (count_send h)"
  by (cases "outbound_gate sha limiter hdr h") (auto simp: sendmessage_def Let_def)

lemma sendmessage_cases:
  obtains (refused) "hs_sent (snd (sendmessage sha env pkg to_json limiter upstream hdr req h)) = hs_sent h"
      "hs_store (snd (sendmessage sha env pkg to_json limiter upstream hdr req h)) = hs_store h"
  | (accepted) vt v msg ctx where "outbound_gate sha limiter hdr h = Admitted vt" "smr_msg req = Some msg"
      "context_token msg = Some v" "v \<noteq> []" "de_fault env ''resolve_send_context'' vt = None"
      "resolve_send_context (de_now env) (hs_store h) v vt = Some ctx"
proof (cases "\<exists>vt. outbound_gate sha limiter hdr h = Admitted vt")
  case True
  then obtain vt where Admitted: "outbound_gate sha limiter hdr h = Admitted vt" by blast
  show ?thesis
  proof (cases "Option.bind (smr_msg req) (\<lambda>m. opt_filter (\<lambda>c. c \<noteq> []) (context_token m))")
    case None
    then have "snd (sendmessage sha env pkg to_json limiter upstream hdr req h) = count_send h"
      using Admitted by (auto simp: sendmessage_def Let_def split: option.splits)
    then show ?thesis using refused by simp
  next
    case (Some v)
    then obtain msg where m: "smr_msg req = Some msg" "context_token msg = Some v" "v \<noteq> []"
      by (auto simp: bind_eq_Some_conv opt_filter_def split: option.splits if_splits)
    show ?thesis
    proof (cases "de_fault env ''resolve_send_context'' vt = None \<and> resolve_send_context (de_now env) (hs_store h) v vt \<noteq> None")
      case True
      then show ?thesis using accepted [OF Admitted m] by blast
    next
      case False
      then have "snd (sendmessage sha env pkg to_json limiter upstream hdr req h) = count_send h"
        using Admitted m by (auto simp: sendmessage_def Let_def opt_filter_def split: option.splits)
      then show ?thesis using refused by simp
    qed
  qed
next
  case False
  with sendmessage_refused [of sha limiter hdr h env pkg to_json upstream req] show ?thesis
    by (intro refused) (simp_all add: count_send_error_def)
qed

section \<open>Properties\<close>

text \<open>C2: What a backend may make the hub say.  Whatever a backend posts to the send route, at most one message
  goes upstream, and if one does then the caller presented a token that is registered and within its rate
  limit, the virtual context it named maps to a real one, and the caller holds a live grant on it; the message
  that leaves carries that real context and no trace of the extension field.
\<close>

theorem send_requires_registration_and_grant:
  "hs_sent (snd (sendmessage sha env pkg to_json limiter upstream hdr req h)) = hs_sent h \<or>
   (\<exists>vt msg v c out. extract_vtoken sha hdr = Some vt \<and> get_by_vtoken (hs_registry h) vt \<noteq> None \<and> limiter vt = None
      \<and> smr_msg req = Some msg \<and> context_token msg = Some v
      \<and> map_of (context_token_map (hs_store h)) v = Some c \<and> vtoken_owns_vctx (de_now env) (hs_store h) v vt
      \<and> hs_sent (snd (sendmessage sha env pkg to_json limiter upstream hdr req h)) = hs_sent h @ [out]
      \<and> context_token out = Some (real_ctx c) \<and> ilink_hub_ext out = None)"
proof (cases rule: sendmessage_cases [of sha env pkg to_json limiter upstream hdr req h])
  case (accepted vt v msg ctx)
  obtain rc peer db where ctx: "ctx = (rc, peer, db)" by (cases ctx)
  from accepted(6) obtain c where c: "map_of (context_token_map (hs_store h)) v = Some c" "rc = real_ctx c"
      "vtoken_owns_vctx (de_now env) (hs_store h) v vt"
    by (auto simp: ctx resolve_send_context_def vtoken_owns_vctx_def split: option.splits if_splits)
  have "hs_sent (snd (sendmessage sha env pkg to_json limiter upstream hdr req h)) =
      hs_sent h @ (if deliverable msg then [outgoing env (count_send h) vt ctx msg] else [])"
    using sendmessage_accepted [OF accepted] deliver_reply_sent [of env pkg to_json upstream vt v rc peer db req msg "count_send h"]
    by (simp add: ctx)
  with c accepted(1-3) show ?thesis
    by (cases "deliverable msg") (fastforce simp: ctx gate_admitted)+
qed simp


definition demo_sha :: "string \<Rightarrow> 8 word list" where
  "demo_sha plain = [0xa1]"

definition demo_bearer :: "string option" where
  "demo_bearer = Some ''Bearer vhub_00112233445566778899aabbccddeeff''"

lemma demo_credential: "extract_vtoken demo_sha demo_bearer = Some ''a1''"
proof -
  have "opt_filter is_valid_vtoken (bearer demo_bearer) = Some ''vhub_00112233445566778899aabbccddeeff''"
    unfolding demo_bearer_def by code_simp
  moreover have "hash_vtoken demo_sha t = ''a1''" for t by (simp add: hash_vtoken_def demo_sha_def hex_lower_def HEX_def)
  ultimately show ?thesis by (simp add: extract_vtoken_def)
qed

lemma demo_admitted:
  "hs_registry g = hs_registry demo_hub \<Longrightarrow> outbound_gate demo_sha (\<lambda>_. None) demo_bearer g = Admitted ''a1''"
  by (simp add: gate_admitted demo_credential) (simp add: demo_hub_def get_by_vtoken_def)

lemma demo_dispatch_row:
  "context_token_map (hs_store (dispatch_message demo_env (demo_msg ''hello'' JNull) demo_hub)) =
     [(''vctx_upsert'', \<lparr>real_ctx = ''ctx1'', ctx_peer = ''peer:ann''\<rparr>)]"
proof -
  obtain y where "dispatch_message demo_env (demo_msg ''hello'' JNull) demo_hub
      = forward_to demo_env ''a1'' None (demo_msg ''hello'' JNull) (demo_hub\<lparr>hs_metrics := y\<rparr>)"
    using dispatch_forward [OF _ demo_hello] by auto
  moreover have "context_token_map (hs_store demo_hub) = []" "db_kind (hs_store demo_hub) = Sqlite"
    by (simp_all add: demo_hub_def empty_hub_def HubState_new_def Store_new_def)
  ultimately show ?thesis
    by (simp add: forward_to_def Let_def opt_filter_def unwrap_or_def resolve_vctx_for_message_def find_or_create_vctx_def conv_key_def
        upsert_ctx_def row_of_peer_def real_ctx_taken_def insert_ctx_def split: prod.splits)
qed


text \<open>C9: A quoted reply finds its author.  When a backend's finished text reply is sent with history recording
  enabled, under a message id no earlier reply of the conversation carries, then a message of the same
  conversation that quotes that id resolves to that backend and to the session the reply belongs to, whatever
  else the quoting message contains.
\<close>

theorem quoted_reply_returns_to_its_author:
  assumes "outbound_gate sha limiter hdr h = Admitted vt" "vt \<noteq> []" "smr_msg req = Some msg" "context_token msg = Some v" "v \<noteq> []"
    and "no_faults env" "de_permit env" "resolve_send_context (de_now env) (hs_store h) v vt = Some (rc, peer, db)"
    and "deliverable msg" "msg_text msg \<noteq> None" "unwrap_or message_state_FINISH (message_state msg) = message_state_FINISH"
    and "mid = unwrap_or (de_msg_id env) (message_id msg)"
    and "\<forall>r \<in> set (assistant_rows peer (hs_messages h)). m_ilink_msg_id r \<noteq> Some mid"
    and "derive_peer_scope u = Some peer" "collect_quoted_msg_id u = Some raw" "parse_i64 (trim raw) = Some mid"
    and "no_faults env'" "\<And>r. de_tie env' [r] = r"
  shows "resolve_quote env' (snd (sendmessage sha env pkg to_json limiter upstream hdr req h)) u =
    Some (origin_of_client (hs_registry h) vt (Some (replied_session db msg)))"
proof -
  let ?h' = "snd (sendmessage sha env pkg to_json limiter upstream hdr req h)" and ?out = "outgoing env (count_send h) vt (rc, peer, db) msg"
  let ?sn = "replied_session db msg"
  have nf: "de_fault env ''resolve_send_context'' vt = None" "de_fault env ''save_message_with_msg_id'' vt = None"
    using assms(6) by (simp_all add: no_faults_def)
  obtain st w where "?h' = send_upstream ?out (save_reply env v vt ?sn peer ?out (count_send h\<lparr>hs_store := st, hs_waiter := w\<rparr>))"
    using sendmessage_accepted [OF assms(1,3-5) nf(1) assms(8)] deliver_reply_deliverable [OF assms(9), of env pkg to_json upstream vt v rc peer db req "count_send h"]
    by auto
  moreover obtain t where "msg_text ?out = Some t"
    using label_outbound_text assms(10) unfolding outgoing_def by fastforce
  ultimately have h': "hs_registry ?h' = hs_registry h" "hs_messages ?h' = save_message_with_msg_id (de_now env) v (Some vt) ?sn peer ''assistant'' t (Some mid) (hs_messages h)"
    using assms(7,11,12) nf(2) by (simp_all add: save_reply_def send_upstream_def)
  obtain r where r: "assistant_rows peer (hs_messages ?h') = assistant_rows peer (hs_messages h) @ [r]"
      "m_ilink_msg_id r = Some mid" "origin_of_row r = (vt, Some ?sn)"
    by (simp add: h' assistant_rows_def save_message_with_msg_id_def origin_of_row_def unwrap_or_def)
  have "filter (\<lambda>r. m_ilink_msg_id r = Some mid) (assistant_rows peer (hs_messages ?h')) = [r]"
    using assms(13) r(2) by (simp add: r(1) filter_empty_conv)
  then have "find_assistant_message_by_msg_id (de_tie env') (hs_messages ?h') peer mid = Some (vt, Some ?sn)"
    using r(3) assms(18) by (simp add: find_assistant_message_by_msg_id_def top_row_def)
  then have "resolve_quote_from_msg_id env' ?h' u = Some (origin_of_client (hs_registry h) vt (Some ?sn))"
    using assms(2,14-17) by (simp add: resolve_quote_from_msg_id_def origin_of_hit_def no_faults_def h')
  then show ?thesis by (simp add: resolve_quote_def opt_or_def)
qed

text \<open>C19: The recipient of a reply that names none.  When a backend leaves \<open>to_user_id\<close> out, the hub fills in
  the key of the conversation, which is the user's or the group's id behind a \<open>peer:\<close> or \<open>group:\<close> tag, so the
  message leaves addressed to an id the upstream service does not know.
\<close>

theorem missing_recipient_becomes_conversation_key:
  assumes "outbound_gate sha limiter hdr h = Admitted vt" "smr_msg req = Some msg" "context_token msg = Some v" "v \<noteq> []"
    and "no_faults env" "resolve_send_context (de_now env) (hs_store h) v vt = Some (rc, conv_key uid None, db)"
    and "deliverable msg" "to_user_id msg = None" "uid \<noteq> []"
  shows "\<exists>out. hs_sent (snd (sendmessage sha env pkg to_json limiter upstream hdr req h)) = hs_sent h @ [out]
    \<and> to_user_id out = Some (''peer:'' @ uid) \<and> to_user_id out \<noteq> Some uid"
proof -
  have k: "conv_key uid None = ''peer:'' @ uid" using assms(9) by (simp add: conv_key_def opt_filter_def)
  have "de_fault env ''resolve_send_context'' vt = None" using assms(5) by (simp add: no_faults_def)
  from sendmessage_accepted [OF assms(1-4) this assms(6)] show ?thesis
    using assms(7,8) deliver_reply_sent [of env pkg to_json upstream vt v rc "conv_key uid None" db req msg "count_send h"] by (simp add: k)
qed

section \<open>Polling\<close>

lemma enter_guard_drop:
  assumes "enter vt pt = (o', pt1)" "outcome_guard o' \<noteq> None" "hm_wf (counts pt)" "\<And>u. map_of (counts pt) u \<noteq> Some 0"
  shows "total (guard_drop vt pt1) = total pt" "map_of (counts (guard_drop vt pt1)) = map_of (counts pt)"
proof -
  have "total (guard_drop vt pt1) = total pt \<and> map_of (counts (guard_drop vt pt1)) = map_of (counts pt)"
    using assms by (auto simp: enter_def gate_add_def count_in_def guard_drop_def total_sub_def count_out_def Let_def
        unwrap_or_def update_conv' delete_conv' fun_eq_iff split: if_splits option.splits)
  then show "total (guard_drop vt pt1) = total pt" "map_of (counts (guard_drop vt pt1)) = map_of (counts pt)" by simp_all
qed

lemma enter_refused: "enter vt pt = (HubLimitReached a b, pt1) \<Longrightarrow> pt1 = pt"
  by (auto simp: enter_def gate_add_def total_sub_def Let_def split: if_splits prod.splits)

text \<open>C18: A refused poll leaves no mark.  When the long poll answers at once (no credential, a token that is not
  registered, too many polls of this token or of the hub) the answer is an error without messages and without a
  cursor, the hub's state is what it was, and the poll counters are back at their values: an unknown
  caller can neither mark a client online nor use up poll capacity.
\<close>

theorem refused_poll_leaves_no_mark:
  assumes "getupdates_begin sha now_secs sd hdr req (pt, h) = (PollDone st resp, pt', h')"
    and "hm_wf (counts pt)" "\<And>u. map_of (counts pt) u \<noteq> Some 0"
  shows "h' = h \<and> total pt' = total pt \<and> map_of (counts pt') = map_of (counts pt)
    \<and> st \<in> {401, 429, 503} \<and> gu_ret resp = Some (int st) \<and> gu_msgs resp = None \<and> gu_buf resp = None"
proof (cases "extract_vtoken sha hdr")
  case None
  then show ?thesis using assms(1) by (auto simp: getupdates_begin_def poll_error_def)
next
  case (Some vt)
  obtain o' pt1 where e: "enter vt pt = (o', pt1)" by fastforce
  note drop = enter_guard_drop [OF e _ assms(2,3)]
  show ?thesis
  proof (cases o')
    case (HubLimitReached a b)
    then show ?thesis using assms(1) Some e enter_refused [of vt pt a b pt1] by (auto simp: getupdates_begin_def poll_error_def)
  next
    case (EnterOk c w)
    then show ?thesis using assms(1) Some e drop
      by (auto simp: getupdates_begin_def poll_error_def Let_def split: if_splits option.splits prod.splits)
  next
    case (Poisoned w)
    then show ?thesis using assms(1) Some e drop
      by (auto simp: getupdates_begin_def poll_error_def Let_def split: if_splits option.splits prod.splits)
  qed
qed

text \<open>C15: Echoing \<open>get_updates_buf\<close> acknowledges exactly the batch it came with.  After a poll has answered, any
  pushes for the client, and a poll that sends the answer's buffer string back, the second answer holds what
  was pushed in between: nothing delivered is repeated and nothing new is lost.
\<close>

theorem echoed_buffer_acknowledges_exactly_its_batch:
  assumes "queue_ok (hs_queue h)" "allocated (hs_queue h) vt + length ms < 2 ^ 63 - 1"
    and "getupdates_finish vt req (pt, h) = (resp, pt1, h1)"
    and "hs_queue h2 = queue_run (hs_queue h1) (map (OpPush vt) ms)"
    and "gu_buf resp = Some (get_updates_buf req2)" "last_ack_id req2 = None"
    and "getupdates_finish vt req2 (pt2, h2) = (resp2, pt3, h3)"
  shows "unwrap_or [] (gu_msgs resp2) = drop (length (unwrap_or [] (gu_msgs resp))) (pending (hs_queue h2) vt)"
proof -
  let ?a = "map_option word_of_nat (ack_watermark req)"
  obtain b q where p: "queue_poll (hs_queue h) vt ?a = (b, q)" by fastforce
  have r: "unwrap_or [] (gu_msgs resp) = pb_msgs b" "get_updates_buf req2 = show_nat (unat (pb_cursor b))" "hs_queue h1 = q"
    using assms(3,5) p by (auto simp: getupdates_finish_def unwrap_or_def)
  have "unat (pb_cursor b) < 2 ^ 64" using unsigned_less [of "pb_cursor b", where ?'a = nat] by simp
  then have "ack_watermark req2 = Some (unat (pb_cursor b))" by (rule ack_watermark_echo [OF _ r(2) assms(6)])
  then have "unwrap_or [] (gu_msgs resp2) = pb_msgs (fst (queue_poll (hs_queue h2) vt (Some (pb_cursor b))))"
    using assms(7) by (auto simp: getupdates_finish_def unwrap_or_def split: prod.splits)
  also have "\<dots> = drop (length (pb_msgs b)) (pending (hs_queue h2) vt)"
    using queue_echo_exact [OF assms(1,2), of ?a] unfolding assms(4) r(3) p by simp
  finally show ?thesis by (simp only: r(1))
qed

section \<open>A concrete conversation\<close>

definition demo_granted_hub :: HubState where
  "demo_granted_hub = demo_hub\<lparr>hs_store := (hs_store demo_hub)\<lparr>
     context_token_map := [(''v1'', \<lparr>real_ctx = ''ctx1'', ctx_peer = ''peer:ann''\<rparr>)],
     active_sessions := [((''v1'', ''a1''), \<lparr>as_session = ''work'', as_depth = 0, as_expires = 200, as_updated = 90\<rparr>)]\<rparr>\<rparr>"

definition demo_reply :: WeixinMessage where
  "demo_reply = WeixinMessage_default\<lparr>context_token := Some ''v1'',
     item_list := Some [MessageItem_default\<lparr>text_item := Some \<lparr>ti_text = Some ''done''\<rparr>\<rparr>]\<rparr>"

lemma demo_reply_fields:
  "context_token demo_reply = Some ''v1''" "to_user_id demo_reply = None" "message_state demo_reply = None" "message_id demo_reply = None"
  "msg_text demo_reply = Some ''done''" "ilink_hub_ext demo_reply = None" "deliverable demo_reply"
proof -
  have "trim ''done'' \<noteq> []" by code_simp
  then show "context_token demo_reply = Some ''v1''" "to_user_id demo_reply = None" "message_state demo_reply = None" "message_id demo_reply = None"
    "msg_text demo_reply = Some ''done''" "ilink_hub_ext demo_reply = None" "deliverable demo_reply"
    by (simp_all add: demo_reply_def type_defaults msg_text_def item_text_def deliverable_def opt_or_def)
qed

lemma demo_granted:
  "outbound_gate demo_sha (\<lambda>_. None) demo_bearer demo_granted_hub = Admitted ''a1''"
  "resolve_send_context (de_now demo_env) (hs_store demo_granted_hub) ''v1'' ''a1'' = Some (''ctx1'', ''peer:ann'', ''work'')"
  "no_faults demo_env" "de_permit demo_env" "assistant_rows p (hs_messages demo_granted_hub) = []"
  by (rule demo_admitted, simp add: demo_granted_hub_def)
    (simp_all add: demo_granted_hub_def resolve_send_context_def active_grant_def no_faults_def demo_env_def assistant_rows_def
      demo_hub_def empty_hub_def HubState_new_def MessageTable_new_def)

abbreviation demo_send :: "HubState \<Rightarrow> (nat \<times> SendMessageResponse) \<times> HubState" where
  "demo_send h \<equiv> sendmessage demo_sha demo_env ''1'' (\<lambda>_. []) (\<lambda>_. None) (\<lambda>_. Inr SendMessageResponse_ok) demo_bearer
     \<lparr>smr_msg = Some demo_reply, smr_base_info = None\<rparr> h"

theorem missing_recipient_becomes_conversation_key_witness:
  "\<exists>out. hs_sent (snd (demo_send demo_granted_hub)) = hs_sent demo_granted_hub @ [out]
    \<and> to_user_id out = Some (''peer:ann'') \<and> to_user_id out \<noteq> Some ''ann''"
proof -
  have 1: "smr_msg \<lparr>smr_msg = Some demo_reply, smr_base_info = None\<rparr> = Some demo_reply" "''v1'' \<noteq> []" "''ann'' \<noteq> []" by simp_all
  have 2: "resolve_send_context (de_now demo_env) (hs_store demo_granted_hub) ''v1'' ''a1'' = Some (''ctx1'', conv_key ''ann'' None, ''work'')"
    using demo_granted(2) by (simp add: conv_key_def opt_filter_def)
  show ?thesis
    using missing_recipient_becomes_conversation_key [OF demo_granted(1) 1(1) demo_reply_fields(1) 1(2) demo_granted(3) 2
        demo_reply_fields(7,2) 1(3), of "''1''" "\<lambda>_. []" "\<lambda>_. Inr SendMessageResponse_ok"] by simp
qed

theorem refused_poll_leaves_no_mark_witness:
  "fst (snd (getupdates_begin demo_sha 5 False demo_bearer \<lparr>get_updates_buf = [], last_ack_id = None, timeout = None\<rparr> (PollTracker_new 0, demo_hub)))
     = PollTracker_new 0 \<and>
   snd (snd (getupdates_begin demo_sha 5 False demo_bearer \<lparr>get_updates_buf = [], last_ack_id = None, timeout = None\<rparr> (PollTracker_new 0, demo_hub)))
     = demo_hub"
proof -
  let ?req = "\<lparr>get_updates_buf = [], last_ack_id = None, timeout = None\<rparr>" and ?p = "PollTracker_new 0"
  have e: "enter ''a1'' ?p = (HubLimitReached 0 0, ?p)" by (simp add: enter_def gate_add_def total_sub_def PollTracker_new_def)
  then obtain resp where 1: "getupdates_begin demo_sha 5 False demo_bearer ?req (?p, demo_hub) = (PollDone 503 resp, ?p, demo_hub)"
    by (simp add: getupdates_begin_def demo_credential)
  have 2: "hm_wf (counts ?p)" "\<And>u. map_of (counts ?p) u \<noteq> Some 0" by (simp_all add: PollTracker_new_def)
  show ?thesis using refused_poll_leaves_no_mark [OF 1 2] 1 by simp
qed

theorem echoed_buffer_acknowledges_exactly_its_batch_witness:
  "unwrap_or [] (gu_msgs (fst (getupdates_finish ''a1'' \<lparr>get_updates_buf = ''0'', last_ack_id = None, timeout = None\<rparr>
      (PollTracker_new 1, demo_hub\<lparr>hs_queue := queue_run (hs_queue demo_hub) [OpPush ''a1'' demo_reply]\<rparr>))))
    = [demo_reply\<lparr>seq := Some 1\<rparr>]"
proof -
  let ?req = "\<lparr>get_updates_buf = [], last_ack_id = None, timeout = None\<rparr>" and ?req2 = "\<lparr>get_updates_buf = ''0'', last_ack_id = None, timeout = None\<rparr>"
  let ?h2 = "demo_hub\<lparr>hs_queue := queue_run (hs_queue demo_hub) [OpPush ''a1'' demo_reply]\<rparr>" and ?p = "PollTracker_new 1"
  have q: "slots (hs_queue demo_hub) = []" "queue_limit (hs_queue demo_hub) > 0"
    by (simp_all add: demo_hub_def empty_hub_def HubState_new_def with_limit_def)
  have 1: "queue_ok (hs_queue demo_hub)" "allocated (hs_queue demo_hub) ''a1'' + length [demo_reply] < 2 ^ 63 - 1"
    using demo_ready(1) q unfolding hub_ready_def by (simp_all add: allocated_def)
  have z: "show_nat 0 = ''0''" by code_simp
  have 2: "getupdates_finish ''a1'' ?req (?p, demo_hub) = (\<lparr>gu_ret = Some 0, gu_errcode = None, gu_errmsg = None, gu_msgs = None, gu_buf = Some ''0''\<rparr>, guard_drop ''a1'' ?p, demo_hub)"
    by (simp add: getupdates_finish_def queue_poll_def q PollBatch_default_def z del: show_nat.simps)
  obtain resp2 p3 h3 where 3: "getupdates_finish ''a1'' ?req2 (?p, ?h2) = (resp2, p3, h3)" by (metis prod_cases3)
  have 4: "hs_queue ?h2 = queue_run (hs_queue demo_hub) (map (OpPush ''a1'') [demo_reply])" by simp
  have 5: "pending (hs_queue ?h2) ''a1'' = [demo_reply\<lparr>seq := Some 1\<rparr>]"
    using q by (simp add: queue_run_def queue_push_def get_or_create_def slot_push_def pending_def notify_one_def Let_def)
  show ?thesis
    using echoed_buffer_acknowledges_exactly_its_batch [OF 1 2 4 _ _ 3] 3 5 by (simp add: unwrap_or_def)
qed

theorem quoted_reply_returns_to_its_author_witness:
  "resolve_quote demo_env (snd (demo_send demo_granted_hub)) (demo_msg ''hi'' (id_quote ''1'')) =
    Some (origin_of_client (hs_registry demo_granted_hub) ''a1'' (Some ''work''))"
proof -
  let ?m = "demo_msg ''hi'' (id_quote ''1'')" and ?req = "\<lparr>smr_msg = Some demo_reply, smr_base_info = None\<rparr>"
  have 1: "''a1'' \<noteq> []" "smr_msg ?req = Some demo_reply" "''v1'' \<noteq> []" by simp_all
  have 2: "msg_text demo_reply \<noteq> None" "unwrap_or message_state_FINISH (message_state demo_reply) = message_state_FINISH"
    "1 = unwrap_or (de_msg_id demo_env) (message_id demo_reply)"
    by (simp_all add: demo_reply_fields unwrap_or_def)
  have 3: "\<forall>r \<in> set (assistant_rows ''peer:ann'' (hs_messages demo_granted_hub)). m_ilink_msg_id r \<noteq> Some 1" by (simp add: demo_granted)
  have i: "trim ''1'' = ''1''" "parse_i64 ''1'' = Some 1"
    by (simp_all add: trim_graphic graphic_def parse_i64_def parse_unsigned_def digit_val_def)
  have 4: "derive_peer_scope ?m = Some ''peer:ann''" by (simp add: derive_peer_scope_def unwrap_or_def)
  have 5: "collect_quoted_msg_id ?m = Some ''1''"
    by (simp add: collect_quoted_msg_id_def over_quotes_def quoted_item_def demo_msg_def id_quote_def json_get_def opt_filter_def i)
  have 6: "parse_i64 (trim ''1'') = Some 1" by (simp add: i)
  have 7: "de_tie demo_env [r] = r" for r by simp
  have 8: "replied_session ''work'' demo_reply = ''work''" by (simp add: replied_session_def demo_reply_fields opt_filter_def unwrap_or_def)
  show ?thesis
    using quoted_reply_returns_to_its_author [OF demo_granted(1) 1(1,2) demo_reply_fields(1) 1(3) demo_granted(3,4,2)
        demo_reply_fields(7) 2 3 4 5 6 demo_granted(3) 7] by (simp only: 8)
qed

end
