(* ===== verification/Mcp_Tools.thy ===== *)
theory Mcp_Tools
  imports Bot_Api Agent_Acl
begin

text \<open>
  Calls between agents (\<open>mcp/protocol.rs\<close>, \<open>mcp/router.rs\<close>, \<open>mcp/tools.rs\<close>): the JSON-RPC envelope, the two
  tools with the allowlist and depth checks, and the one-shot authorization a call gives its target.  A call is two
  steps around its wait for the target's reply; what the second step needs is the record \<open>PendingCall\<close>.  The
  fields of a JSON object are listed in the order of the source; the pretty printer of JSON values is an argument.
\<close>

section \<open>The JSON-RPC envelope\<close>

record JsonRpcRequest =
  rq_jsonrpc :: string
  rq_id :: "json option"
  rq_method :: string
  rq_params :: json

record JsonRpcError =
  je_code :: int
  je_message :: string

record JsonRpcResponse =
  rs_jsonrpc :: string
  rs_id :: "json option"
  rs_result :: "json option"
  rs_error :: "JsonRpcError option"

definition JsonRpcResponse_ok :: "json option \<Rightarrow> json \<Rightarrow> JsonRpcResponse" where
  "JsonRpcResponse_ok i r = \<lparr>rs_jsonrpc = ''2.0'', rs_id = i, rs_result = Some r, rs_error = None\<rparr>"

definition JsonRpcResponse_err :: "json option \<Rightarrow> int \<Rightarrow> string \<Rightarrow> JsonRpcResponse" where
  "JsonRpcResponse_err i c m = \<lparr>rs_jsonrpc = ''2.0'', rs_id = i, rs_result = None, rs_error = Some \<lparr>je_code = c, je_message = m\<rparr>\<rparr>"

definition list_agents_def_json :: json where
  "list_agents_def_json = JObj [(''name'', JStr ''list_agents''),
     (''description'', JStr ''List all registered Agent backends and their online status.''),
     (''inputSchema'', JObj [(''type'', JStr ''object''), (''properties'', JObj []), (''required'', JArr [])])]"

definition call_agent_def_json :: json where
  "call_agent_def_json = JObj [(''name'', JStr ''call_agent''),
     (''description'', JStr (''Send a message to another Agent backend and wait for its reply.'' @ [CHR 0x0A] @
        ''The Hub will display the call and the reply to the WeChat user.'' @ [CHR 0x0A] @
        ''Pass `session` to continue a previous conversation with the same Agent; '' @
        ''omit it (or pass null) to start a fresh session.'')),
     (''inputSchema'', JObj [(''type'', JStr ''object''),
        (''properties'', JObj [
          (''name'', JObj [(''type'', JStr ''string''), (''description'', JStr ''Registered name of the target Agent backend.'')]),
          (''message'', JObj [(''type'', JStr ''string''), (''description'', JStr ''The message to send to the target Agent.'')]),
          (''session'', JObj [(''type'', JArr [JStr ''string'', JStr ''null'']),
             (''description'', JStr ''Session name to resume; null/omitted starts a new session.'')])]),
        (''required'', JArr [JStr ''name'', JStr ''message''])])]"

definition server_info :: "string \<Rightarrow> json" where
  "server_info pkg = JObj [(''protocolVersion'', JStr ''2024-11-05''), (''capabilities'', JObj [(''tools'', JObj [])]),
     (''serverInfo'', JObj [(''name'', JStr ''ilink-hub''), (''version'', JStr pkg)])]"

section \<open>Listing agents\<close>

definition json_opt :: "string option \<Rightarrow> json" where
  "json_opt s = (case s of None \<Rightarrow> JNull | Some t \<Rightarrow> JStr t)"

definition agent_entry :: "ClientInfo \<Rightarrow> json" where
  "agent_entry c = JObj ([(''name'', JStr (name c)), (''online'', JBool (online c)), (''label'', json_opt (label c))] @
     (case description c of None \<Rightarrow> [] | Some d \<Rightarrow> [(''description'', JStr d)]) @
     [(''persona'', JObj [(''name'', json_opt (persona_name c)), (''emoji'', json_opt (persona_emoji c))])])"

definition agents_content :: "(json \<Rightarrow> string) \<Rightarrow> json list \<Rightarrow> json" where
  "agents_content pretty agents = JObj [(''content'', JArr [JObj [(''type'', JStr ''text''), (''text'', JStr (pretty (JArr agents)))]])]"

definition listed_agents :: "HubState \<Rightarrow> vtoken \<Rightarrow> ClientInfo list" where
  "listed_agents h caller = (case get_by_vtoken (hs_registry h) caller of
     None \<Rightarrow> []
   | Some c \<Rightarrow> sort_key name (all_clients_in (hs_registry h) (visible_targets_for_agent (hs_acl h) (name c))))"

definition list_agents :: "(json \<Rightarrow> string) \<Rightarrow> HubState \<Rightarrow> vtoken \<Rightarrow> json" where
  "list_agents pretty h caller = agents_content pretty (map agent_entry (listed_agents h caller))"

section \<open>Calling an agent\<close>

record CallAgentParams =
  cp_target_name :: string
  cp_message :: string
  cp_session :: "string option"

record CallAgentContext =
  cc_caller_vtoken :: vtoken
  cc_vctx :: vctx
  cc_real_ctx :: string
  cc_peer_user_id :: string
  cc_depth :: "8 word"

definition MAX_A2A_DEPTH :: "8 word" where
  "MAX_A2A_DEPTH = 5"

definition error_content :: "string \<Rightarrow> json" where
  "error_content t = JObj [(''content'', JArr [JObj [(''type'', JStr ''text''), (''text'', JStr t)]]), (''isError'', JBool True)]"

definition persona_handle :: "string \<Rightarrow> string option \<Rightarrow> string option \<Rightarrow> string" where
  "persona_handle backend pn pe = (case (pe, pn) of
     (Some e, Some n) \<Rightarrow> e @ '' '' @ n | (None, Some n) \<Rightarrow> n | _ \<Rightarrow> backend)"

definition build_display_text :: "string \<Rightarrow> string \<Rightarrow> string option \<Rightarrow> string option \<Rightarrow> string" where
  "build_display_text t sender pn pe = persona_handle sender pn pe @ [CHR 0x0A] @ t"

text \<open>The outcome of the upstream call is only logged.\<close>

definition push_wechat_message :: "DispatchEnv \<Rightarrow> string \<Rightarrow> string \<Rightarrow> string \<Rightarrow> string \<Rightarrow> string option \<Rightarrow> string option \<Rightarrow> HubState \<Rightarrow> HubState" where
  "push_wechat_message env rc to t sender pn pe h =
     send_upstream (reply_text (de_uuid env ''client'' []) (de_msg_id env) rc (build_display_text t sender pn pe) to None) h"

definition build_hub_ext_for_a2a :: "DispatchEnv \<Rightarrow> Store \<Rightarrow> vctx \<Rightarrow> vtoken \<Rightarrow> string \<Rightarrow> string \<Rightarrow> 8 word \<Rightarrow> HubExt option" where
  "build_hub_ext_for_a2a env st v vt sn cid d =
     map_option (\<lambda>e. e\<lparr>ext_a2a_call_id := Some cid, ext_a2a_depth := Some (unat d)\<rparr>) (build_hub_ext_for_vctx env st v vt (Some sn))"

definition build_synthetic_message :: "vctx \<Rightarrow> string \<Rightarrow> string \<Rightarrow> HubExt option \<Rightarrow> WeixinMessage" where
  "build_synthetic_message v peer t ext = WeixinMessage_default\<lparr>context_token := Some v, from_user_id := Some peer,
     message_type := Some 1,
     item_list := Some [MessageItem_default\<lparr>item_type := Some 1, text_item := Some \<lparr>ti_text = Some t\<rparr>\<rparr>],
     ilink_hub_ext := ext\<rparr>"

definition saturating_succ :: "8 word \<Rightarrow> 8 word" where
  "saturating_succ d = (if d = 255 then 255 else d + 1)"

record PendingCall =
  pc_call_id :: string
  pc_ctx :: CallAgentContext
  pc_target :: ClientInfo
  pc_caller_name :: string
  pc_caller_persona :: "string option \<times> string option"
  pc_reply_session :: string
  pc_prev_active :: "(string \<times> 8 word) option"
  pc_pre_sessions :: "string list option"

definition grant_key :: "string \<Rightarrow> string" where
  "grant_key cid = ''a2a-'' @ cid"

definition caller_identity :: "HubState \<Rightarrow> vtoken \<Rightarrow> string \<times> string option \<times> string option" where
  "caller_identity h caller = (case get_by_vtoken (hs_registry h) caller of
     Some c \<Rightarrow> (name c, persona_name c, persona_emoji c) | None \<Rightarrow> (''unknown'', None, None))"

definition open_call :: "DispatchEnv \<Rightarrow> string \<Rightarrow> CallAgentContext \<Rightarrow> CallAgentParams \<Rightarrow> ClientInfo \<Rightarrow> string \<times> string option \<times> string option \<Rightarrow> HubState \<Rightarrow> PendingCall \<times> HubState" where
  "open_call env cid ctx params target caller h = (case caller of (cname, cpn, cpe) \<Rightarrow>
     (let v = cc_vctx ctx; vt = vtoken target;
          h1 = h\<lparr>hs_waiter := waiter_register cid (hs_waiter h)\<rparr>;
          sn = unwrap_or (grant_key cid) (cp_session params);
          prev = (if de_fault env ''get_active_session_row'' vt \<noteq> None then None else get_active_session_row (hs_store h1) v vt);
          pre = (if de_fault env ''list_backend_sessions'' vt \<noteq> None then None
                 else Some (map fst (list_backend_sessions (hs_store h1) v vt)));
          depth = saturating_succ (cc_depth ctx);
          h2 = (if de_fault env ''set_active_session_with_depth'' vt \<noteq> None then h1
                else h1\<lparr>hs_store := set_active_session_with_depth (de_now env) v vt (grant_key cid) depth (hs_store h1)\<rparr>);
          ext = build_hub_ext_for_a2a env (hs_store h2) v vt sn cid depth;
          h3 = push_to_queue vt (build_synthetic_message v (cc_peer_user_id ctx) (cp_message params) ext) h2;
          note = ''@'' @ persona_handle (name target) (persona_name target) (persona_emoji target) @ [CHR 0x0A] @ cp_message params;
          h4 = push_wechat_message env (cc_real_ctx ctx) (cc_peer_user_id ctx) note cname cpn cpe h3
      in (\<lparr>pc_call_id = cid, pc_ctx = ctx, pc_target = target, pc_caller_name = cname, pc_caller_persona = (cpn, cpe),
           pc_reply_session = sn, pc_prev_active = prev, pc_pre_sessions = pre\<rparr>, h4)))"

definition call_agent_begin :: "DispatchEnv \<Rightarrow> string \<Rightarrow> CallAgentContext \<Rightarrow> CallAgentParams \<Rightarrow> HubState \<Rightarrow> (json + PendingCall) \<times> HubState" where
  "call_agent_begin env cid ctx params h = (case get_by_alias (hs_registry h) (cp_target_name params) of
     None \<Rightarrow> (Inl (error_content (''Agent '' @ [CHR 0x27] @ cp_target_name params @ [CHR 0x27] @ '' not found or not registered.'')), h)
   | Some target \<Rightarrow>
       (let caller = caller_identity h (cc_caller_vtoken ctx) in
        if \<not> allows_a2a (hs_acl h) (fst caller) (name target)
        then (Inl (error_content (''403: agent '' @ [CHR 0x27] @ name target @ [CHR 0x27] @ '' is not authorized for A2A calls from '' @
                [CHR 0x27] @ fst caller @ [CHR 0x27])), h)
        else (case open_call env cid ctx params target caller h of (pc, h') \<Rightarrow> (Inr pc, h'))))"

definition drop_session :: "DispatchEnv \<Rightarrow> vctx \<Rightarrow> vtoken \<Rightarrow> string list \<Rightarrow> string \<times> string \<Rightarrow> Store \<Rightarrow> Store" where
  "drop_session env v vt pre row st = (if fst row \<in> set pre then st
     else if de_fault env ''delete_backend_session'' (fst row) \<noteq> None then st
     else snd (delete_backend_session v vt (fst row) st))"

definition release_a2a_grant ::
  "DispatchEnv \<Rightarrow> vctx \<Rightarrow> vtoken \<Rightarrow> string \<Rightarrow> (string \<times> 8 word) option \<Rightarrow> string list option \<Rightarrow> Store \<Rightarrow> Store" where
  "release_a2a_grant env v vt key prev pre st =
     (let st1 = (if de_fault env ''delete_active_session_if_name'' vt \<noteq> None then st else snd (delete_active_session_if_name v vt key st));
          st2 = (if de_fault env ''get_active_session_row'' vt \<noteq> None then st1
                 else (case get_active_session_row st1 v vt of
                     Some _ \<Rightarrow> st1
                   | None \<Rightarrow> (case prev of None \<Rightarrow> st1
                       | Some (n, d) \<Rightarrow> if de_fault env ''set_active_session_with_depth'' vt \<noteq> None then st1
                           else set_active_session_with_depth (de_now env) v vt n d st1)))
      in case pre of None \<Rightarrow> st2
         | Some names \<Rightarrow> if de_fault env ''list_backend_sessions'' vt \<noteq> None then st2
             else fold (drop_session env v vt names) (list_backend_sessions st2 v vt) st2)"

definition release_call :: "DispatchEnv \<Rightarrow> PendingCall \<Rightarrow> HubState \<Rightarrow> HubState" where
  "release_call env pc h = h\<lparr>hs_store := release_a2a_grant env (cc_vctx (pc_ctx pc)) (vtoken (pc_target pc)) (grant_key (pc_call_id pc))
     (pc_prev_active pc) (pc_pre_sessions pc) (hs_store h)\<rparr>"

text \<open>The step after the wait; \<open>None\<close> while the reply is still outstanding.\<close>

definition close_call :: "DispatchEnv \<Rightarrow> PendingCall \<Rightarrow> rx_outcome \<Rightarrow> HubState \<Rightarrow> json \<times> HubState" where
  "close_call env pc outcome h =
     (let target = pc_target pc; ctx = pc_ctx pc;
          cancelled = h\<lparr>hs_waiter := waiter_cancel (pc_call_id pc) (hs_waiter h)\<rparr>
      in case outcome of
           RxReply reply \<Rightarrow>
             (let h1 = release_call env pc h;
                  note = ''@'' @ persona_handle (pc_caller_name pc) (fst (pc_caller_persona pc)) (snd (pc_caller_persona pc)) @ [CHR 0x0A] @ reply;
                  h2 = push_wechat_message env (cc_real_ctx ctx) (cc_peer_user_id ctx) note (name target) (persona_name target) (persona_emoji target) h1
              in (JObj [(''content'', JArr [JObj [(''type'', JStr ''text''), (''text'', JStr reply)]]), (''session'', JStr (pc_reply_session pc))], h2))
         | RxDisconnected \<Rightarrow> (error_content (''Agent '' @ [CHR 0x27] @ name target @ [CHR 0x27] @ '' disconnected before replying.''), release_call env pc cancelled)
         | RxTimeout \<Rightarrow> (error_content (''Agent '' @ [CHR 0x27] @ name target @ [CHR 0x27] @ '' did not reply within 120 seconds.''), release_call env pc cancelled))"

definition call_agent_finish :: "DispatchEnv \<Rightarrow> bool \<Rightarrow> PendingCall \<Rightarrow> HubState \<Rightarrow> (json \<times> HubState) option" where
  "call_agent_finish env elapsed_timeout pc h = (case waiter_await elapsed_timeout (pc_call_id pc) (hs_waiter h) of
     (None, _) \<Rightarrow> None
   | (Some outcome, w) \<Rightarrow> Some (close_call env pc outcome (h\<lparr>hs_waiter := w\<rparr>)))"

section \<open>The endpoint\<close>

datatype tool_result = ToolError string | ToolValue json | ToolPending PendingCall

definition call_arguments :: "json \<Rightarrow> string + CallAgentParams" where
  "call_arguments args = (case Option.bind (json_get ''name'' args) as_str of
     None \<Rightarrow> Inl (''Missing '' @ [CHR 0x27] @ ''name'' @ [CHR 0x27] @ '' in call_agent arguments'')
   | Some n \<Rightarrow> (case Option.bind (json_get ''message'' args) as_str of
       None \<Rightarrow> Inl (''Missing '' @ [CHR 0x27] @ ''message'' @ [CHR 0x27] @ '' in call_agent arguments'')
     | Some m \<Rightarrow> Inr \<lparr>cp_target_name = n, cp_message = m, cp_session = Option.bind (json_get ''session'' args) as_str\<rparr>))"

definition no_conversation_text :: string where
  "no_conversation_text = ''No active conversation found for caller; the Hub must have delivered at least one message to this Agent first.''"

definition depth_text :: string where
  "depth_text = ''A2A call rejected: maximum call depth (5) reached. This prevents runaway recursive agent loops.''"

definition tool_call_agent ::
  "DispatchEnv \<Rightarrow> (vtoken \<Rightarrow> nat option) \<Rightarrow> string \<Rightarrow> vtoken \<Rightarrow> json \<Rightarrow> HubState \<Rightarrow> tool_result \<times> HubState" where
  "tool_call_agent env limiter cid caller args h = (case limiter caller of
     Some ns \<Rightarrow> (ToolError (limit_text (retry_after_secs ns)), h)
   | None \<Rightarrow> (case call_arguments args of
       Inl e \<Rightarrow> (ToolError e, h)
     | Inr params \<Rightarrow> (case de_fault env ''get_active_ctx_for_vtoken'' caller of
         Some e \<Rightarrow> (ToolError (''DB error resolving caller context: '' @ e), h)
       | None \<Rightarrow> (case get_active_ctx_for_vtoken (de_now env) (hs_store h) caller of
           None \<Rightarrow> (ToolError no_conversation_text, h)
         | Some i \<Rightarrow> if ac_depth i \<ge> MAX_A2A_DEPTH then (ToolError depth_text, h)
             else (case call_agent_begin env cid \<lparr>cc_caller_vtoken = caller, cc_vctx = ac_vctx i, cc_real_ctx = ac_real_ctx i,
                       cc_peer_user_id = ac_peer i, cc_depth = ac_depth i\<rparr> params h of
                 (Inl j, h') \<Rightarrow> (ToolValue j, h') | (Inr pc, h') \<Rightarrow> (ToolPending pc, h'))))))"

definition handle_tools_call ::
  "DispatchEnv \<Rightarrow> (json \<Rightarrow> string) \<Rightarrow> (vtoken \<Rightarrow> nat option) \<Rightarrow> string \<Rightarrow> vtoken \<Rightarrow> json \<Rightarrow> HubState \<Rightarrow> tool_result \<times> HubState" where
  "handle_tools_call env pretty limiter cid caller params h = (case Option.bind (json_get ''name'' params) as_str of
     None \<Rightarrow> (ToolError (''Missing '' @ [CHR 0x27] @ ''name'' @ [CHR 0x27] @ '' field in tools/call params''), h)
   | Some tool \<Rightarrow>
       (let args = unwrap_or (JObj []) (json_get ''arguments'' params) in
        if tool = ''list_agents'' then (ToolValue (list_agents pretty h caller), h)
        else if tool = ''call_agent'' then tool_call_agent env limiter cid caller args h
        else (ToolError (''Unknown tool: '' @ tool), h)))"

datatype mcp_answer = McpReply nat JsonRpcResponse | McpPending "json option" PendingCall

definition handle_mcp ::
  "(string \<Rightarrow> 8 word list) \<Rightarrow> DispatchEnv \<Rightarrow> string \<Rightarrow> (json \<Rightarrow> string) \<Rightarrow> (vtoken \<Rightarrow> nat option) \<Rightarrow> string \<Rightarrow> string option \<Rightarrow> JsonRpcRequest \<Rightarrow> HubState \<Rightarrow>
     mcp_answer \<times> HubState" where
  "handle_mcp sha env pkg pretty limiter cid hdr req h =
     (if rq_jsonrpc req \<noteq> ''2.0''
      then (McpReply 400 (JsonRpcResponse_err (rq_id req) (- 32600) (''Invalid Request: jsonrpc must be '' @ [CHR 0x22] @ ''2.0'' @ [CHR 0x22])), h)
      else if rq_method req = ''initialize'' then (McpReply 200 (JsonRpcResponse_ok (rq_id req) (server_info pkg)), h)
      else if rq_method req = ''notifications/initialized'' then (McpReply 200 (JsonRpcResponse_ok (rq_id req) (JObj [])), h)
      else (case extract_vtoken sha hdr of
          None \<Rightarrow> (McpReply 401 (JsonRpcResponse_err (rq_id req) (- 32001) ''Missing or invalid Authorization header''), h)
        | Some caller \<Rightarrow>
            if get_by_vtoken (hs_registry h) caller = None
            then (McpReply 401 (JsonRpcResponse_err (rq_id req) (- 32001) UNKNOWN_VTOKEN_MSG), h)
            else if rq_method req = ''tools/list''
            then (McpReply 200 (JsonRpcResponse_ok (rq_id req) (JObj [(''tools'', JArr [list_agents_def_json, call_agent_def_json])])), h)
            else if rq_method req = ''tools/call''
            then (case handle_tools_call env pretty limiter cid caller (rq_params req) h of
                (ToolError e, h') \<Rightarrow> (McpReply 200 (JsonRpcResponse_err (rq_id req) (- 32602) e), h')
              | (ToolValue v, h') \<Rightarrow> (McpReply 200 (JsonRpcResponse_ok (rq_id req) v), h')
              | (ToolPending pc, h') \<Rightarrow> (McpPending (rq_id req) pc, h'))
            else (McpReply 200 (JsonRpcResponse_err (rq_id req) (- 32601) (''Method not found: '' @ rq_method req)), h)))"

definition handle_mcp_finish :: "DispatchEnv \<Rightarrow> bool \<Rightarrow> json option \<Rightarrow> PendingCall \<Rightarrow> HubState \<Rightarrow> (JsonRpcResponse \<times> HubState) option" where
  "handle_mcp_finish env elapsed_timeout i pc h =
     map_option (\<lambda>(j, h'). (JsonRpcResponse_ok i j, h')) (call_agent_finish env elapsed_timeout pc h)"

section \<open>What the steps change\<close>

lemma push_wechat_fields [simp]:
  "hs_store (push_wechat_message env rc to t s pn pe h) = hs_store h" "hs_queue (push_wechat_message env rc to t s pn pe h) = hs_queue h"
  "hs_waiter (push_wechat_message env rc to t s pn pe h) = hs_waiter h" "hs_registry (push_wechat_message env rc to t s pn pe h) = hs_registry h"
  by (simp_all add: push_wechat_message_def send_upstream_def)

lemma open_call_fields:
  assumes "open_call env cid ctx params target caller h = (pc, h')"
  shows "pc_call_id pc = cid" "pc_ctx pc = ctx" "pc_target pc = target" "pc_reply_session pc = unwrap_or (grant_key cid) (cp_session params)"
    and "hs_waiter h' = waiter_register cid (hs_waiter h)"
  using assms by (auto simp: open_call_def Let_def split: prod.splits)

lemma open_call_store:
  assumes "open_call env cid ctx params target caller h = (pc, h')" "no_faults env"
  shows "hs_store h' = set_active_session_with_depth (de_now env) (cc_vctx ctx) (vtoken target) (grant_key cid) (saturating_succ (cc_depth ctx)) (hs_store h)"
    and "pc_prev_active pc = get_active_session_row (hs_store h) (cc_vctx ctx) (vtoken target)"
    and "pc_pre_sessions pc = Some (map fst (list_backend_sessions (hs_store h) (cc_vctx ctx) (vtoken target)))"
  using assms by (auto simp: open_call_def Let_def no_faults_def split: prod.splits)

lemma begin_opens:
  assumes "call_agent_begin env cid ctx params h = (Inr pc, h')"
  shows "\<exists>target. get_by_alias (hs_registry h) (cp_target_name params) = Some target
    \<and> allows_a2a (hs_acl h) (fst (caller_identity h (cc_caller_vtoken ctx))) (name target)
    \<and> open_call env cid ctx params target (caller_identity h (cc_caller_vtoken ctx)) h = (pc, h')"
  using assms by (auto simp: call_agent_begin_def Let_def split: option.splits if_splits prod.splits)

lemma begin_fields:
  assumes "call_agent_begin env cid ctx params h = (Inr pc, h')"
  shows "pc_call_id pc = cid" "pc_ctx pc = ctx" "hs_waiter h' = waiter_register cid (hs_waiter h)"
    "pc_reply_session pc = unwrap_or (grant_key cid) (cp_session params)"
  using begin_opens [OF assms] by (auto dest: open_call_fields)

lemma begin_store:
  assumes "call_agent_begin env cid ctx params h = (Inr pc, h')" "no_faults env"
  shows "hs_store h' = set_active_session_with_depth (de_now env) (cc_vctx ctx) (vtoken (pc_target pc)) (grant_key cid) (saturating_succ (cc_depth ctx)) (hs_store h)"
    and "pc_prev_active pc = get_active_session_row (hs_store h) (cc_vctx ctx) (vtoken (pc_target pc))"
    and "pc_pre_sessions pc = Some (map fst (list_backend_sessions (hs_store h) (cc_vctx ctx) (vtoken (pc_target pc))))"
  using begin_opens [OF assms(1)] open_call_fields(3) open_call_store [OF _ assms(2)] by metis+

lemma close_call_store: "hs_store (snd (close_call env pc outcome h)) = release_a2a_grant env (cc_vctx (pc_ctx pc)) (vtoken (pc_target pc))
    (grant_key (pc_call_id pc)) (pc_prev_active pc) (pc_pre_sessions pc) (hs_store h)"
  by (simp add: close_call_def release_call_def Let_def split: rx_outcome.split)

lemma finish_store:
  assumes "call_agent_finish env el pc h = Some (j, h')"
  shows "hs_store h' = release_a2a_grant env (cc_vctx (pc_ctx pc)) (vtoken (pc_target pc))
    (grant_key (pc_call_id pc)) (pc_prev_active pc) (pc_pre_sessions pc) (hs_store h)"
proof -
  obtain outcome w where "close_call env pc outcome (h\<lparr>hs_waiter := w\<rparr>) = (j, h')"
    using assms by (auto simp: call_agent_finish_def split: prod.splits option.splits)
  then show ?thesis using close_call_store [of env pc outcome "h\<lparr>hs_waiter := w\<rparr>"] by simp
qed

lemma fold_drop_frame: "\<exists>bs. fold (drop_session env v vt pre) rows st = st\<lparr>backend_sessions_v2 := bs\<rparr>"
proof (induction rows arbitrary: st)
  case Nil
  then show ?case by (intro exI [of _ "backend_sessions_v2 st"]) simp
next
  case (Cons row rows)
  obtain bs where "drop_session env v vt pre row st = st\<lparr>backend_sessions_v2 := bs\<rparr>"
    by (rule that [of "backend_sessions_v2 (drop_session env v vt pre row st)"]) (simp add: drop_session_def delete_backend_session_def)
  then show ?case using Cons.IH [of "st\<lparr>backend_sessions_v2 := bs\<rparr>"] by auto
qed

lemma fold_drop_fields:
  "active_sessions (fold (drop_session env v vt pre) rows st) = active_sessions st"
  "context_token_map (fold (drop_session env v vt pre) rows st) = context_token_map st"
  "grant_ttl_secs (fold (drop_session env v vt pre) rows st) = grant_ttl_secs st"
  using fold_drop_frame [of env v vt pre rows st] by auto

lemma fold_drop_sessions:
  assumes "no_faults env"
  shows "backend_sessions_v2 (fold (drop_session env v vt pre) rows st) =
    filter (\<lambda>((v', vt', n), _). \<not> (v' = v \<and> vt' = vt \<and> n \<in> fst ` set rows \<and> n \<notin> set pre)) (backend_sessions_v2 st)"
proof (induction rows arbitrary: st)
  case Nil
  then show ?case by (simp add: case_prod_unfold)
next
  case (Cons row rows)
  show ?case using assms unfolding fold_simps Cons.IH
    by (auto simp: drop_session_def delete_backend_session_def no_faults_def AList.delete_eq case_prod_unfold intro!: filter_cong)
qed

lemma release_fields:
  "context_token_map (release_a2a_grant env v vt key prev pre st) = context_token_map st"
  by (simp add: release_a2a_grant_def Let_def fold_drop_fields set_active_session_with_depth_def delete_active_session_if_name_def
      split: option.split)

definition restored_row :: "DispatchEnv \<Rightarrow> (string \<times> 8 word) option \<Rightarrow> Store \<Rightarrow> ActiveRow option" where
  "restored_row env prev st = map_option (\<lambda>(n, d). \<lparr>as_session = n, as_depth = uint d, as_expires = grant_expires_at (de_now env) st,
     as_updated = de_now env\<rparr>) prev"

lemma release_active:
  assumes "no_faults env"
  shows "map_of (active_sessions (release_a2a_grant env v vt key prev pre st)) (v, vt) =
    (case map_of (active_sessions st) (v, vt) of
       Some r \<Rightarrow> if as_session r = key then restored_row env prev st else Some r | None \<Rightarrow> restored_row env prev st)"
  using assms by (auto simp: release_a2a_grant_def Let_def fold_drop_fields no_faults_def set_active_session_with_depth_def
      delete_active_session_if_name_def get_active_session_row_def restored_row_def grant_expires_at_def delete_conv' update_conv'
      split: option.split)

lemma list_backend_names: "fst ` set (list_backend_sessions st v vt) = {n. \<exists>r. ((v, vt, n), r) \<in> set (backend_sessions_v2 st)}"
  by (force simp: list_backend_sessions_def)

lemma named_grant_listed: "named_grant st v vt \<longleftrightarrow> list_backend_sessions st v vt \<noteq> []"
proof -
  have "named_grant st v vt \<longleftrightarrow> fst ` set (list_backend_sessions st v vt) \<noteq> {}"
    unfolding list_backend_names by (force simp: named_grant_def list_ex_iff)
  then show ?thesis by simp
qed

lemma release_named:
  assumes "no_faults env"
  shows "\<not> named_grant (release_a2a_grant env v vt key prev (Some []) st) v vt"
proof -
  define st2 where "st2 = release_a2a_grant env v vt key prev None st"
  have "release_a2a_grant env v vt key prev (Some []) st = fold (drop_session env v vt []) (list_backend_sessions st2 v vt) st2"
    using assms by (simp add: release_a2a_grant_def st2_def Let_def no_faults_def)
  then have "backend_sessions_v2 (release_a2a_grant env v vt key prev (Some []) st) =
      filter (\<lambda>((v', vt', n), _). \<not> (v' = v \<and> vt' = vt \<and> n \<in> fst ` set (list_backend_sessions st2 v vt) \<and> n \<notin> set [])) (backend_sessions_v2 st2)"
    by (simp only: fold_drop_sessions [OF assms])
  then show ?thesis unfolding list_backend_names by (auto simp: named_grant_def list_ex_iff)
qed

lemma push_to_queue_one:
  "\<exists>ms. pending (hs_queue (push_to_queue vt m h)) = (pending (hs_queue h))(vt := pending (hs_queue h) vt @ ms)
     \<and> (\<forall>x \<in> set ms. \<exists>i. x = m\<lparr>seq := i\<rparr>)"
proof (cases "queue_push (hs_queue h) vt m")
  case (Pair rejected q)
  then obtain i where "pending q = (if rejected then pending (hs_queue h)
      else (pending (hs_queue h))(vt := pending (hs_queue h) vt @ [m\<lparr>seq := i\<rparr>]))"
    using queue_push_pending [of "hs_queue h" vt m] by auto
  with Pair show ?thesis
    by (intro exI [of _ "if rejected then [] else [m\<lparr>seq := i\<rparr>]"]) (auto simp: push_to_queue_def)
qed

text \<open>The messages a call adds to queues: to the target's alone, carrying the call's depth.\<close>

lemma open_call_queue:
  assumes "open_call env cid ctx params target caller h = (pc, h')"
  shows "\<exists>ms. pending (hs_queue h') = (pending (hs_queue h))(vtoken target := pending (hs_queue h) (vtoken target) @ ms)
    \<and> (\<forall>m \<in> set ms. \<exists>e. ilink_hub_ext m = Some e \<and> ext_a2a_call_id e = Some cid \<and> ext_a2a_depth e = Some (unat (saturating_succ (cc_depth ctx)))
         \<and> context_token m = Some (cc_vctx ctx))"
proof -
  obtain cname cpn cpe where c: "caller = (cname, cpn, cpe)" by (cases caller)
  obtain st ext n where h': "hs_queue h' = hs_queue (push_to_queue (vtoken target) (build_synthetic_message (cc_vctx ctx) (cc_peer_user_id ctx) (cp_message params)
      (build_hub_ext_for_a2a env st (cc_vctx ctx) (vtoken target) n cid (saturating_succ (cc_depth ctx)))) (h\<lparr>hs_waiter := waiter_register cid (hs_waiter h), hs_store := st\<rparr>))"
  proof (cases "de_fault env ''set_active_session_with_depth'' (vtoken target)")
    case None
    then show ?thesis using assms c
      by (intro that [of "set_active_session_with_depth (de_now env) (cc_vctx ctx) (vtoken target) (grant_key cid) (saturating_succ (cc_depth ctx)) (hs_store h)"
            "unwrap_or (grant_key cid) (cp_session params)"]) (auto simp: open_call_def Let_def)
  next
    case (Some e)
    then show ?thesis using assms c
      by (intro that [of "hs_store h" "unwrap_or (grant_key cid) (cp_session params)"]) (auto simp: open_call_def Let_def)
  qed
  obtain e where e: "build_hub_ext_for_vctx env st (cc_vctx ctx) (vtoken target) (Some n) = Some e" using build_hub_ext_Some by blast
  let ?m = "build_synthetic_message (cc_vctx ctx) (cc_peer_user_id ctx) (cp_message params)
      (build_hub_ext_for_a2a env st (cc_vctx ctx) (vtoken target) n cid (saturating_succ (cc_depth ctx)))"
  have "\<exists>e. ilink_hub_ext (?m\<lparr>seq := i\<rparr>) = Some e \<and> ext_a2a_call_id e = Some cid \<and> ext_a2a_depth e = Some (unat (saturating_succ (cc_depth ctx)))
         \<and> context_token (?m\<lparr>seq := i\<rparr>) = Some (cc_vctx ctx)" for i
    by (simp add: build_synthetic_message_def build_hub_ext_for_a2a_def e)
  then show ?thesis
    using push_to_queue_one [of "vtoken target" ?m "h\<lparr>hs_waiter := waiter_register cid (hs_waiter h), hs_store := st\<rparr>"] unfolding h' by fastforce
qed

lemma begin_error: "call_agent_begin env cid ctx params h = (Inl j, h') \<Longrightarrow> h' = h"
  by (auto simp: call_agent_begin_def Let_def split: option.splits if_splits prod.splits)

lemma tool_call_pending:
  assumes "tool_call_agent env limiter cid caller args h = (ToolPending pc, h')"
  obtains i params where "limiter caller = None" "get_active_ctx_for_vtoken (de_now env) (hs_store h) caller = Some i" "ac_depth i < MAX_A2A_DEPTH"
    "call_agent_begin env cid \<lparr>cc_caller_vtoken = caller, cc_vctx = ac_vctx i, cc_real_ctx = ac_real_ctx i,
       cc_peer_user_id = ac_peer i, cc_depth = ac_depth i\<rparr> params h = (Inr pc, h')"
  using assms by (auto simp: tool_call_agent_def split: if_splits option.splits prod.splits sum.splits)

lemma tool_call_settled:
  assumes "tool_call_agent env limiter cid caller args h = (r, h')" "\<And>pc. r \<noteq> ToolPending pc"
  shows "h' = h"
  using assms by (auto simp: tool_call_agent_def split: if_splits option.splits prod.splits sum.splits dest: begin_error)

lemma tools_call_settled:
  assumes "handle_tools_call env pretty limiter cid caller params h = (r, h')" "\<And>pc. r \<noteq> ToolPending pc"
  shows "h' = h"
  using assms tool_call_settled by (auto simp: handle_tools_call_def Let_def split: if_splits option.splits)

lemma tools_call_pending:
  "handle_tools_call env pretty limiter cid caller params h = (ToolPending pc, h') \<Longrightarrow>
     \<exists>args. tool_call_agent env limiter cid caller args h = (ToolPending pc, h')"
  by (auto simp: handle_tools_call_def Let_def split: if_splits option.splits)

lemma mcp_pending:
  assumes "handle_mcp sha env pkg pretty limiter cid hdr req h = (McpPending j pc, h')"
  obtains caller c where "extract_vtoken sha hdr = Some caller" "get_by_vtoken (hs_registry h) caller = Some c" "j = rq_id req"
    "handle_tools_call env pretty limiter cid caller (rq_params req) h = (ToolPending pc, h')"
  using assms by (auto simp: handle_mcp_def split: if_splits option.splits prod.splits tool_result.splits)

lemma mcp_settled:
  assumes "\<And>j pc. fst (handle_mcp sha env pkg pretty limiter cid hdr req h) \<noteq> McpPending j pc"
  shows "snd (handle_mcp sha env pkg pretty limiter cid hdr req h) = h"
proof (cases "extract_vtoken sha hdr")
  case None
  then show ?thesis by (simp add: handle_mcp_def)
next
  case (Some caller)
  obtain r h' where t: "handle_tools_call env pretty limiter cid caller (rq_params req) h = (r, h')" by fastforce
  show ?thesis using assms Some t tools_call_settled [OF t] by (cases r) (auto simp: handle_mcp_def split: if_splits)
qed

lemma depth_step:
  assumes "d < MAX_A2A_DEPTH"
  shows "unat (saturating_succ d) = Suc (unat d)" "Suc (unat d) \<le> 5"
proof -
  have n: "unat d < 5" using assms by (simp add: MAX_A2A_DEPTH_def word_less_nat_alt)
  then have "d \<noteq> 255" by auto
  with n show "unat (saturating_succ d) = Suc (unat d)" by (simp add: saturating_succ_def unat_word_ariths)
  from n show "Suc (unat d) \<le> 5" by simp
qed

section \<open>Properties\<close>

text \<open>C4: Who can act through the agent endpoint.  Whatever request arrives, the hub's state is unchanged unless the
  caller's token is registered and within its rate limit, the caller has a live conversation less than five
  calls deep, and the allowlist has an edge from the caller's name to the target's name, which is registered.
  Then only the target's queue can grow, and what it gains is marked with this call, belongs to the caller's
  conversation and is one call deeper, at most five.
\<close>

theorem mcp_acts_only_for_an_allowed_call:
  "snd (handle_mcp sha env pkg pretty limiter cid hdr req h) = h \<or>
   (\<exists>caller c i pc ms. extract_vtoken sha hdr = Some caller \<and> get_by_vtoken (hs_registry h) caller = Some c \<and> limiter caller = None
     \<and> get_active_ctx_for_vtoken (de_now env) (hs_store h) caller = Some i
     \<and> fst (handle_mcp sha env pkg pretty limiter cid hdr req h) = McpPending (rq_id req) pc
     \<and> pc_target pc \<in> set (all_clients (hs_registry h)) \<and> allows_a2a (hs_acl h) (name c) (name (pc_target pc))
     \<and> pending (hs_queue (snd (handle_mcp sha env pkg pretty limiter cid hdr req h))) =
         (pending (hs_queue h))(vtoken (pc_target pc) := pending (hs_queue h) (vtoken (pc_target pc)) @ ms)
     \<and> (\<forall>m \<in> set ms. \<exists>e. ilink_hub_ext m = Some e \<and> ext_a2a_call_id e = Some cid \<and> context_token m = Some (ac_vctx i)
           \<and> ext_a2a_depth e = Some (Suc (unat (ac_depth i))) \<and> Suc (unat (ac_depth i)) \<le> 5))"
proof (cases "\<exists>j pc. fst (handle_mcp sha env pkg pretty limiter cid hdr req h) = McpPending j pc")
  case True
  then obtain j pc h' where p: "handle_mcp sha env pkg pretty limiter cid hdr req h = (McpPending j pc, h')" by (metis prod.collapse)
  then obtain caller c where c: "extract_vtoken sha hdr = Some caller" "get_by_vtoken (hs_registry h) caller = Some c" "j = rq_id req"
      "handle_tools_call env pretty limiter cid caller (rq_params req) h = (ToolPending pc, h')"
    by (rule mcp_pending)
  from tools_call_pending [OF c(4)] obtain args where "tool_call_agent env limiter cid caller args h = (ToolPending pc, h')" by blast
  then obtain i params where i: "limiter caller = None" "get_active_ctx_for_vtoken (de_now env) (hs_store h) caller = Some i"
      "ac_depth i < MAX_A2A_DEPTH" and b: "call_agent_begin env cid \<lparr>cc_caller_vtoken = caller, cc_vctx = ac_vctx i, cc_real_ctx = ac_real_ctx i,
         cc_peer_user_id = ac_peer i, cc_depth = ac_depth i\<rparr> params h = (Inr pc, h')"
    by (rule tool_call_pending)
  let ?ctx = "\<lparr>cc_caller_vtoken = caller, cc_vctx = ac_vctx i, cc_real_ctx = ac_real_ctx i, cc_peer_user_id = ac_peer i, cc_depth = ac_depth i\<rparr>"
  from begin_opens [OF b] obtain target where t: "get_by_alias (hs_registry h) (cp_target_name params) = Some target"
      "allows_a2a (hs_acl h) (name c) (name target)" and o: "open_call env cid ?ctx params target (caller_identity h caller) h = (pc, h')"
    using c(2) by (auto simp: caller_identity_def)
  have pt: "pc_target pc = target" using open_call_fields(3) [OF o] .
  have m: "target \<in> set (all_clients (hs_registry h))" using alias_in_listing(1) t(1) unfolding get_by_alias_def by blast
  from open_call_queue [OF o] obtain ms where
    q: "pending (hs_queue h') = (pending (hs_queue h))(vtoken target := pending (hs_queue h) (vtoken target) @ ms)"
    and "\<forall>m \<in> set ms. \<exists>e. ilink_hub_ext m = Some e \<and> ext_a2a_call_id e = Some cid
           \<and> ext_a2a_depth e = Some (unat (saturating_succ (cc_depth ?ctx))) \<and> context_token m = Some (cc_vctx ?ctx)" by blast
  then have d: "\<forall>m \<in> set ms. \<exists>e. ilink_hub_ext m = Some e \<and> ext_a2a_call_id e = Some cid \<and> context_token m = Some (ac_vctx i)
           \<and> ext_a2a_depth e = Some (Suc (unat (ac_depth i))) \<and> Suc (unat (ac_depth i)) \<le> 5"
    using depth_step [OF i(3)] by (simp add: conj_ac)
  show ?thesis unfolding p fst_conv snd_conv
    by (rule disjI2, intro exI [of _ caller] exI [of _ c] exI [of _ i] exI [of _ pc] exI [of _ ms] conjI)
      (use c i t m q d in \<open>simp_all only: pt\<close>)
next
  case False
  then have "snd (handle_mcp sha env pkg pretty limiter cid hdr req h) = h" by (intro mcp_settled) simp
  then show ?thesis ..
qed

lemma begin_grants:
  assumes "call_agent_begin env cid ctx params h = (Inr pc, h1)" "no_faults env" "t < grant_expires_at (de_now env) (hs_store h)"
  shows "active_grant t (hs_store h1) (cc_vctx ctx) (vtoken (pc_target pc))"
  using assms(3) unfolding begin_store(1) [OF assms(1,2)] by (simp add: active_grant_def set_active_session_with_depth_def)

text \<open>C10: A call that is answered returns the answer.  An agent calls another; while the call's grant is live the
  target posts a non-empty text that carries the call's id, in the caller's conversation, through the ordinary send
  route.  Then nothing goes upstream for that post; the call ends with exactly that text and the name of the
  session, and what the user sees is one notification in the conversation's real context.
\<close>

theorem answered_call_returns_the_answer:
  assumes "call_agent_begin env cid ctx params h = (Inr pc, h1)" "no_faults env" "cid \<noteq> []"
    and "map_of (context_token_map (hs_store h)) (cc_vctx ctx) = Some row" "cc_vctx ctx \<noteq> []"
    and "hs_store h2 = hs_store h1" "hs_waiter h2 = hs_waiter h1"
    and "outbound_gate sha limiter hdr h2 = Admitted (vtoken (pc_target pc))" "no_faults env2"
    and "de_now env2 < grant_expires_at (de_now env) (hs_store h)"
    and "smr_msg req = Some msg" "context_token msg = Some (cc_vctx ctx)" "ilink_hub_ext msg = Some ext"
    and "ext_a2a_call_id ext = Some cid" "msg_text msg = Some answer" "answer \<noteq> []"
  shows "hs_sent (snd (sendmessage sha env2 pkg to_json limiter upstream hdr req h2)) = hs_sent h2
    \<and> (\<exists>h4 note. call_agent_finish env3 elapsed_timeout pc (snd (sendmessage sha env2 pkg to_json limiter upstream hdr req h2)) =
        Some (JObj [(''content'', JArr [JObj [(''type'', JStr ''text''), (''text'', JStr answer)]]), (''session'', JStr (pc_reply_session pc))], h4)
        \<and> hs_sent h4 = hs_sent h2 @ [note] \<and> context_token note = Some (cc_real_ctx ctx))"
proof -
  let ?v = "cc_vctx ctx" and ?vt = "vtoken (pc_target pc)" and ?h3 = "snd (sendmessage sha env2 pkg to_json limiter upstream hdr req h2)"
  have "map_of (context_token_map (hs_store h2)) ?v = Some row"
    using assms(4,6) unfolding begin_store(1) [OF assms(1,2)] by (simp add: set_active_session_with_depth_def)
  then obtain rc peer db where s: "resolve_send_context (de_now env2) (hs_store h2) ?v ?vt = Some (rc, peer, db)"
    using begin_grants [OF assms(1,2,10)] assms(6) by (auto simp: resolve_send_context_def)
  have f: "de_fault env2 ''resolve_send_context'' ?vt = None" using assms(9) by (simp add: no_faults_def)
  have nd: "\<not> deliverable msg" using assms(13,14) by (simp add: deliverable_def)
  have h3: "?h3 = snd (read_hub_ext env2 to_json ?v ?vt (replied_session db msg) msg (count_send h2))"
    using sendmessage_accepted [OF assms(8,11,12,5) f s] deliver_reply_undeliverable [OF nd] by simp
  obtain st where st: "persist_usage env2 to_json ?v ?vt (replied_session db msg) ext
      (persist_cli_session env2 ?v ?vt (replied_session db msg) ext (count_send h2)) = count_send h2\<lparr>hs_store := st\<rparr>"
  proof -
    obtain a where a: "persist_cli_session env2 ?v ?vt (replied_session db msg) ext (count_send h2) = count_send h2\<lparr>hs_store := a\<rparr>"
      using persist_frames(1) by blast
    show ?thesis using persist_frames(2) [of env2 to_json ?v ?vt "replied_session db msg" ext "count_send h2\<lparr>hs_store := a\<rparr>"] that
      unfolding a by auto
  qed
  have w: "cid \<in> set (aw_pending (hs_waiter h2))" "cid \<in> set (aw_receivers (hs_waiter h2))"
    using begin_fields(3) [OF assms(1)] assms(7) by (simp_all add: waiter_register_def)
  have e: "?h3 = count_send h2\<lparr>hs_store := st, hs_waiter := snd (waiter_resolve cid answer (hs_waiter h2))\<rparr>"
    using assms(3,13-16) st by (simp add: h3 read_hub_ext_def resolve_call_def count_send_def)
  moreover have "\<exists>w'. waiter_await elapsed_timeout cid (snd (waiter_resolve cid answer (hs_waiter h2))) = (Some (RxReply answer), w')"
    using w by (simp add: waiter_resolve_def waiter_await_def Let_def)
  moreover have "pc_call_id pc = cid" "pc_ctx pc = ctx" using begin_fields [OF assms(1)] by simp_all
  ultimately show ?thesis
    by (auto simp: call_agent_finish_def close_call_def release_call_def push_wechat_message_def send_upstream_def Let_def reply_text_def
        build_text_reply_def)
qed

text \<open>C5: The authorization a call gives its target ends with the call.  If the target had no grant in the caller's
  conversation before, it has one from the start of the call, and none at any time after the call has ended (with
  the target's answer, by a lost channel or by timeout), whatever named sessions were created for it
  meanwhile, provided no other dispatch or call granted it the conversation in between.
\<close>

theorem one_shot_grant_ends_with_the_call:
  assumes "call_agent_begin env cid ctx params h = (Inr pc, h1)" "no_faults env" "no_faults env2"
    and "map_of (active_sessions (hs_store h)) (cc_vctx ctx, vtoken (pc_target pc)) = None"
    and "\<not> named_grant (hs_store h) (cc_vctx ctx) (vtoken (pc_target pc))"
    and "map_of (active_sessions (hs_store h2)) (cc_vctx ctx, vtoken (pc_target pc))
       = map_of (active_sessions (hs_store h1)) (cc_vctx ctx, vtoken (pc_target pc))"
    and "call_agent_finish env2 elapsed_timeout pc h2 = Some (j, h3)"
  shows "(\<forall>t < grant_expires_at (de_now env) (hs_store h). vtoken_owns_vctx t (hs_store h1) (cc_vctx ctx) (vtoken (pc_target pc)))
    \<and> (\<forall>t. \<not> vtoken_owns_vctx t (hs_store h3) (cc_vctx ctx) (vtoken (pc_target pc)))"
proof -
  note b = begin_store [OF assms(1,2)] and f = begin_fields(1,2) [OF assms(1)]
  have "pc_prev_active pc = None" using assms(4) by (simp add: b(2) get_active_session_row_def)
  moreover have "pc_pre_sessions pc = Some []" using assms(5) by (simp add: b(3) named_grant_listed)
  ultimately have h3: "hs_store h3 = release_a2a_grant env2 (cc_vctx ctx) (vtoken (pc_target pc)) (grant_key cid) None (Some []) (hs_store h2)"
    using finish_store [OF assms(7)] f by simp
  have "map_of (active_sessions (hs_store h3)) (cc_vctx ctx, vtoken (pc_target pc)) = None"
    unfolding h3 release_active [OF assms(3)] assms(6) b(1) by (simp add: set_active_session_with_depth_def restored_row_def)
  moreover have "\<not> named_grant (hs_store h3) (cc_vctx ctx) (vtoken (pc_target pc))" unfolding h3 by (rule release_named [OF assms(3)])
  ultimately show ?thesis using begin_grants [OF assms(1,2)] by (auto simp: vtoken_owns_vctx_def active_grant_def)
qed



section \<open>A concrete call\<close>

definition demo_call_hub :: HubState where
  "demo_call_hub = demo_granted_hub\<lparr>hs_acl := (hs_acl demo_hub)\<lparr>a2a := [(''claude'', {''codex''})]\<rparr>\<rparr>"

definition demo_call :: CallAgentContext where
  "demo_call = \<lparr>cc_caller_vtoken = ''a1'', cc_vctx = ''v1'', cc_real_ctx = ''ctx1'', cc_peer_user_id = ''peer:ann'', cc_depth = 0\<rparr>"

definition demo_params :: CallAgentParams where
  "demo_params = \<lparr>cp_target_name = ''codex'', cp_message = ''help'', cp_session = None\<rparr>"

lemma open_call_keeps:
  assumes "open_call env cid ctx params target caller h = (pc, h')"
  shows "hs_registry h' = hs_registry h" "hs_acl h' = hs_acl h"
  using assms by (auto simp: open_call_def Let_def push_wechat_message_def send_upstream_def split: prod.splits)

lemma demo_begin:
  assumes "hs_registry g = hs_registry demo_hub" "hs_acl g = hs_acl demo_call_hub"
  shows "\<exists>pc g'. call_agent_begin env c demo_call demo_params g = (Inr pc, g') \<and> pc_target pc = demo_client ''codex'' ''b2''
    \<and> hs_registry g' = hs_registry demo_hub \<and> hs_acl g' = hs_acl demo_call_hub"
proof -
  let ?t = "demo_client ''codex'' ''b2''"
  have r: "get_by_alias (hs_registry g) ''codex'' = Some ?t" "fst (caller_identity g ''a1'') = ''claude''" "name ?t = ''codex''"
    using assms(1) by (simp_all add: get_by_alias_def get_by_alias_in_def get_by_name_def caller_identity_def get_by_vtoken_def demo_hub_def demo_client_def)
  have a: "allows_a2a (hs_acl g) ''claude'' ''codex''" using assms(2) by (simp add: allows_a2a_def demo_call_hub_def Let_def)
  obtain pc g' where o: "open_call env c demo_call demo_params ?t (caller_identity g ''a1'') g = (pc, g')" by fastforce
  then show ?thesis
    using r a open_call_fields(3) [OF o] open_call_keeps [OF o] assms
    by (simp add: call_agent_begin_def demo_params_def demo_call_def Let_def)
qed

lemma finish_at_deadline: "\<exists>j h'. call_agent_finish env True pc h = Some (j, h')"
  by (auto simp: call_agent_finish_def waiter_await_def Let_def split: option.split)

lemma demo_call_hub_fields:
  "hs_registry demo_call_hub = hs_registry demo_hub" "cc_vctx demo_call = ''v1''" "vtoken (demo_client n vt) = vt"
  "map_of (active_sessions (hs_store demo_call_hub)) (''v1'', ''b2'') = None" "\<not> named_grant (hs_store demo_call_hub) ''v1'' ''b2''"
  "map_of (context_token_map (hs_store demo_call_hub)) ''v1'' = Some \<lparr>real_ctx = ''ctx1'', ctx_peer = ''peer:ann''\<rparr>"
  "de_now demo_env < grant_expires_at (de_now demo_env) (hs_store demo_call_hub)"
  by (simp_all add: demo_call_hub_def demo_granted_hub_def demo_call_def demo_client_def demo_hub_def empty_hub_def HubState_new_def
      Store_new_def named_grant_def grant_expires_at_def i64_max_def)

theorem one_shot_grant_ends_with_the_call_witness:
  "\<exists>pc h1 j h3. call_agent_begin demo_env ''c1'' demo_call demo_params demo_call_hub = (Inr pc, h1)
    \<and> call_agent_finish demo_env True pc h1 = Some (j, h3)
    \<and> vtoken_owns_vctx 100 (hs_store h1) ''v1'' ''b2'' \<and> (\<forall>t. \<not> vtoken_owns_vctx t (hs_store h3) ''v1'' ''b2'')"
proof -
  obtain pc h1 where b: "call_agent_begin demo_env ''c1'' demo_call demo_params demo_call_hub = (Inr pc, h1)" and t: "pc_target pc = demo_client ''codex'' ''b2''"
    using demo_begin [of demo_call_hub] demo_call_hub_fields(1) by blast
  obtain j h3 where f: "call_agent_finish demo_env True pc h1 = Some (j, h3)" using finish_at_deadline by blast
  note d = demo_call_hub_fields
  have 1: "map_of (active_sessions (hs_store demo_call_hub)) (cc_vctx demo_call, vtoken (pc_target pc)) = None"
    "\<not> named_grant (hs_store demo_call_hub) (cc_vctx demo_call) (vtoken (pc_target pc))" by (simp_all add: t d)
  show ?thesis
    using one_shot_grant_ends_with_the_call [OF b demo_granted(3,3) 1 refl f] b f d(7) by (auto simp: t d)
qed



theorem answered_call_returns_the_answer_witness:
  "\<exists>pc h1 h4. call_agent_begin demo_env ''c1'' demo_call demo_params demo_call_hub = (Inr pc, h1)
    \<and> call_agent_finish demo_env False pc (snd (sendmessage (\<lambda>_. [0xb2]) demo_env ''1'' (\<lambda>_. []) (\<lambda>_. None) (\<lambda>_. Inr SendMessageResponse_ok) demo_bearer
        \<lparr>smr_msg = Some (demo_reply\<lparr>ilink_hub_ext := Some (HubExt_default\<lparr>ext_a2a_call_id := Some ''c1''\<rparr>)\<rparr>), smr_base_info = None\<rparr> h1)) =
      Some (JObj [(''content'', JArr [JObj [(''type'', JStr ''text''), (''text'', JStr ''done'')]]), (''session'', JStr ''a2a-c1'')], h4)"
proof -
  note d = demo_call_hub_fields
  let ?m = "demo_reply\<lparr>ilink_hub_ext := Some (HubExt_default\<lparr>ext_a2a_call_id := Some ''c1''\<rparr>)\<rparr>"
  obtain pc h1 where b: "call_agent_begin demo_env ''c1'' demo_call demo_params demo_call_hub = (Inr pc, h1)" and t: "pc_target pc = demo_client ''codex'' ''b2''"
    and k: "hs_registry h1 = hs_registry demo_hub"
    using demo_begin [of demo_call_hub] d(1) by blast
  have s: "pc_reply_session pc = ''a2a-c1''" using begin_fields(4) [OF b] by (simp add: demo_params_def grant_key_def unwrap_or_def)
  have 1: "''c1'' \<noteq> []" "cc_vctx demo_call \<noteq> []" by (simp_all add: d)
  have 2: "map_of (context_token_map (hs_store demo_call_hub)) (cc_vctx demo_call) = Some \<lparr>real_ctx = ''ctx1'', ctx_peer = ''peer:ann''\<rparr>" by (simp add: d)
  have v: "opt_filter is_valid_vtoken (bearer demo_bearer) = Some ''vhub_00112233445566778899aabbccddeeff''" unfolding demo_bearer_def by code_simp
  have 3: "outbound_gate (\<lambda>_. [0xb2]) (\<lambda>_. None) demo_bearer h1 = Admitted (vtoken (pc_target pc))"
    by (simp add: gate_admitted extract_vtoken_def v hash_vtoken_def hex_lower_def HEX_def t d k) (simp add: demo_hub_def get_by_vtoken_def)
  have 4: "smr_msg \<lparr>smr_msg = Some ?m, smr_base_info = None\<rparr> = Some ?m" "context_token ?m = Some (cc_vctx demo_call)"
    "ilink_hub_ext ?m = Some (HubExt_default\<lparr>ext_a2a_call_id := Some ''c1''\<rparr>)" "ext_a2a_call_id (HubExt_default\<lparr>ext_a2a_call_id := Some ''c1''\<rparr>) = Some ''c1''"
    "msg_text ?m = Some ''done''" "''done'' \<noteq> []"
    using demo_reply_fields by (simp_all add: d msg_text_def)
  show ?thesis
    using answered_call_returns_the_answer [OF b demo_granted(3) 1(1) 2 1(2) refl refl 3 demo_granted(3) d(7) 4,
        of "''1''" "\<lambda>_. []" "\<lambda>_. Inr SendMessageResponse_ok" demo_env False] b s by auto
qed

definition demo_request :: JsonRpcRequest where
  "demo_request = \<lparr>rq_jsonrpc = ''2.0'', rq_id = None, rq_method = ''tools/call'', rq_params = JObj [(''name'', JStr ''call_agent''),
     (''arguments'', JObj [(''name'', JStr ''codex''), (''message'', JStr ''help'')])]\<rparr>"

lemma demo_active_ctx:
  "get_active_ctx_for_vtoken (de_now demo_env) (hs_store demo_call_hub) ''a1'' =
     Some \<lparr>ac_vctx = ''v1'', ac_real_ctx = ''ctx1'', ac_peer = ''peer:ann'', ac_depth = 0\<rparr>"
  by (simp add: get_active_ctx_for_vtoken_def demo_call_hub_def demo_granted_hub_def depth_of_row_def)

theorem mcp_acts_only_for_an_allowed_call_witness:
  "\<exists>pc h'. handle_mcp demo_sha demo_env ''1'' (\<lambda>_. []) (\<lambda>_. None) ''c1'' demo_bearer demo_request demo_call_hub = (McpPending None pc, h')
     \<and> h' \<noteq> demo_call_hub \<and> pc_target pc \<in> set (all_clients (hs_registry demo_call_hub))
     \<and> allows_a2a (hs_acl demo_call_hub) ''claude'' (name (pc_target pc))"
proof -
  let ?r = "handle_mcp demo_sha demo_env ''1'' (\<lambda>_. []) (\<lambda>_. None) ''c1'' demo_bearer demo_request demo_call_hub"
  obtain pc h' where b: "call_agent_begin demo_env ''c1'' demo_call demo_params demo_call_hub = (Inr pc, h')"
    using demo_begin [of demo_call_hub] demo_call_hub_fields(1) by blast
  have reg: "get_by_vtoken (hs_registry demo_call_hub) ''a1'' = Some (demo_client ''claude'' ''a1'')"
    by (simp add: demo_call_hub_fields get_by_vtoken_def demo_hub_def)
  have "handle_tools_call demo_env (\<lambda>_. []) (\<lambda>_. None) ''c1'' ''a1'' (rq_params demo_request) demo_call_hub = (ToolPending pc, h')"
    using b demo_active_ctx
    by (simp add: handle_tools_call_def tool_call_agent_def call_arguments_def demo_request_def json_get_def demo_call_def demo_params_def
        MAX_A2A_DEPTH_def unwrap_or_def)
  then have e: "?r = (McpPending None pc, h')"
    using reg by (simp add: handle_mcp_def demo_request_def demo_credential)
  have "h' \<noteq> demo_call_hub"
    using begin_fields(3) [OF b] by (auto simp: waiter_register_def demo_call_hub_def demo_granted_hub_def demo_hub_def empty_hub_def
        HubState_new_def A2aWaiter_new_def)
  then show ?thesis
    using mcp_acts_only_for_an_allowed_call [of demo_sha demo_env "''1''" "\<lambda>_. []" "\<lambda>_. None" "''c1''" demo_bearer demo_request demo_call_hub]
      e reg demo_credential by (auto simp: demo_client_def)
qed

end
