(* ===== verification/Rate_Limit.thy ===== *)
theory Rate_Limit
  imports Complex_Main Bot_Api
begin

text \<open>
  The outbound rate limiter (\<open>hub/rate_limit.rs\<close>): one token bucket per virtual token.  Bucket levels are binary
  floating-point numbers in the code; here they are rationals, and every floating-point operation is followed by
  the rounding \<open>rnd\<close>, an argument of the definitions.  What the properties need of it is stated as \<open>rounding\<close>; exact
  arithmetic is the identity.  A configured rate or burst is an \<open>F64\<close>, which may be not finite.
  Instants are nanoseconds.  The conversion of a duration to and from seconds is written out; a duration
  of \<open>2^64\<close> seconds or more panics, which poisons the mutex.  The eviction of the least recently
  used bucket takes any of several equally old ones, the choice is the argument \<open>tie\<close>.
\<close>

section \<open>Policy\<close>

datatype F64 = Finite rat | NotFinite

definition BOT_RATE_LIMIT_PER_SEC_DEFAULT :: F64 where
  "BOT_RATE_LIMIT_PER_SEC_DEFAULT = Finite 20"

definition BOT_RATE_LIMIT_BURST_DEFAULT :: F64 where
  "BOT_RATE_LIMIT_BURST_DEFAULT = Finite 40"

definition BOT_RATE_LIMIT_MAX_ENTRIES :: nat where
  "BOT_RATE_LIMIT_MAX_ENTRIES = 4096"

definition sanitize_rate :: "(rat \<Rightarrow> rat) \<Rightarrow> F64 \<Rightarrow> rat" where
  "sanitize_rate rnd r = (case r of Finite x \<Rightarrow> if x > 0 then x else rnd (1 / 1000) | NotFinite \<Rightarrow> rnd (1 / 1000))"

definition sanitize_burst :: "F64 \<Rightarrow> rat" where
  "sanitize_burst b = (case b of Finite x \<Rightarrow> if x \<ge> 1 then x else 1 | NotFinite \<Rightarrow> 1)"

section \<open>Buckets\<close>

record Bucket =
  bk_tokens :: rat
  bk_last :: instant
  bk_rejected :: u64

record VtokenRateLimiter =
  rl_buckets :: "(vtoken, Bucket) hmap"
  rl_poisoned :: bool
  rl_rate :: rat
  rl_burst :: rat
  rl_capacity :: nat

definition VtokenRateLimiter_new :: "(rat \<Rightarrow> rat) \<Rightarrow> F64 \<Rightarrow> F64 \<Rightarrow> VtokenRateLimiter" where
  "VtokenRateLimiter_new rnd r b = \<lparr>rl_buckets = [], rl_poisoned = False, rl_rate = sanitize_rate rnd r, rl_burst = sanitize_burst b,
     rl_capacity = BOT_RATE_LIMIT_MAX_ENTRIES\<rparr>"

definition set_limits :: "(rat \<Rightarrow> rat) \<Rightarrow> F64 \<Rightarrow> F64 \<Rightarrow> VtokenRateLimiter \<Rightarrow> VtokenRateLimiter" where
  "set_limits rnd r b l = l\<lparr>rl_rate := sanitize_rate rnd r, rl_burst := sanitize_burst b\<rparr>"

datatype RateLimitOutcome = Allowed rat | Denied nat

record RateLimitSnapshot =
  sn_tokens :: rat
  sn_burst :: rat
  sn_rejected :: u64

text \<open>\<open>Duration::as_secs_f64\<close> and \<open>Duration::from_secs_f64\<close>, which rounds to the nearest nanosecond, ties to even.\<close>

definition as_secs_f64 :: "(rat \<Rightarrow> rat) \<Rightarrow> nat \<Rightarrow> rat" where
  "as_secs_f64 rnd ns = rnd (rnd (of_nat (ns div 1000000000)) + rnd (rnd (of_nat (ns mod 1000000000)) / 1000000000))"

definition round_even :: "rat \<Rightarrow> int" where
  "round_even x = (let f = \<lfloor>x\<rfloor>; d = x - of_int f in
     if d < 1 / 2 then f else if d > 1 / 2 then f + 1 else if even f then f else f + 1)"

definition from_secs_f64 :: "rat \<Rightarrow> nat option" where
  "from_secs_f64 x = (let ns = nat (round_even (x * 1000000000)) in if ns < 2 ^ 64 * 1000000000 then Some ns else None)"

section \<open>Admission\<close>

definition lru_keys :: "(vtoken, Bucket) hmap \<Rightarrow> vtoken list" where
  "lru_keys bs = map fst (filter (\<lambda>(_, b). list_all (\<lambda>(_, b'). bk_last b \<le> bk_last b') bs) bs)"

definition make_room :: "(vtoken list \<Rightarrow> vtoken) \<Rightarrow> nat \<Rightarrow> vtoken \<Rightarrow> (vtoken, Bucket) hmap \<Rightarrow> (vtoken, Bucket) hmap" where
  "make_room tie cap vt bs = (if length bs \<ge> cap \<and> \<not> hm_contains bs vt \<and> bs \<noteq> [] then hm_remove (tie (lru_keys bs)) bs else bs)"

definition refill :: "(rat \<Rightarrow> rat) \<Rightarrow> rat \<Rightarrow> rat \<Rightarrow> instant \<Rightarrow> Bucket \<Rightarrow> Bucket" where
  "refill rnd rate burst now b =
     b\<lparr>bk_tokens := min (rnd (bk_tokens b + rnd (as_secs_f64 rnd (now - bk_last b) * rate))) burst, bk_last := now\<rparr>"

definition take_token :: "(rat \<Rightarrow> rat) \<Rightarrow> rat \<Rightarrow> Bucket \<Rightarrow> RateLimitOutcome option \<times> Bucket" where
  "take_token rnd rate b =
     (if bk_tokens b \<ge> 1
      then (let t = rnd (bk_tokens b - 1) in (Some (Allowed t), b\<lparr>bk_tokens := t\<rparr>))
      else (let b' = b\<lparr>bk_rejected := (if bk_rejected b = - 1 then - 1 else bk_rejected b + 1)\<rparr>
            in (map_option Denied (from_secs_f64 (rnd (rnd (1 - bk_tokens b) / rate))), b')))"

text \<open>The answer is \<open>None\<close> when the call panics.\<close>

definition check_at :: "(rat \<Rightarrow> rat) \<Rightarrow> (vtoken list \<Rightarrow> vtoken) \<Rightarrow> vtoken \<Rightarrow> instant \<Rightarrow> VtokenRateLimiter \<Rightarrow> RateLimitOutcome option \<times> VtokenRateLimiter" where
  "check_at rnd tie vt now l =
     (if rl_poisoned l then (Some (Allowed (rl_burst l)), l)
      else (let bs = make_room tie (rl_capacity l) vt (rl_buckets l);
                b = unwrap_or \<lparr>bk_tokens = rl_burst l, bk_last = now, bk_rejected = 0\<rparr> (hm_get bs vt);
                (outcome, b') = take_token rnd (rl_rate l) (refill rnd (rl_rate l) (rl_burst l) now b)
            in (outcome, l\<lparr>rl_buckets := hm_insert vt b' bs, rl_poisoned := (outcome = None)\<rparr>)))"

definition snapshot :: "VtokenRateLimiter \<Rightarrow> (vtoken \<times> RateLimitSnapshot) list" where
  "snapshot l = (if rl_poisoned l then []
     else map (\<lambda>(k, b). (k, \<lparr>sn_tokens = bk_tokens b, sn_burst = rl_burst l, sn_rejected = bk_rejected b\<rparr>)) (rl_buckets l))"

section \<open>Use by the handlers\<close>

definition limiter_answer :: "RateLimitOutcome \<Rightarrow> nat option" where
  "limiter_answer outcome = (case outcome of Allowed _ \<Rightarrow> None | Denied ns \<Rightarrow> Some ns)"

definition check_outbound_rate_limit ::
  "(rat \<Rightarrow> rat) \<Rightarrow> (vtoken list \<Rightarrow> vtoken) \<Rightarrow> instant \<Rightarrow> vtoken \<Rightarrow> VtokenRateLimiter \<Rightarrow> nat option option \<times> VtokenRateLimiter" where
  "check_outbound_rate_limit rnd tie now vt l = (case check_at rnd tie vt now l of (outcome, l') \<Rightarrow> (map_option limiter_answer outcome, l'))"

text \<open>A handler is charged after the credential and registration checks, and only then; \<open>None\<close> is a panic.\<close>

definition with_limiter ::
  "(string \<Rightarrow> 8 word list) \<Rightarrow> (rat \<Rightarrow> rat) \<Rightarrow> (vtoken list \<Rightarrow> vtoken) \<Rightarrow> instant \<Rightarrow> string option \<Rightarrow> HubState \<Rightarrow>
     ((vtoken \<Rightarrow> nat option) \<Rightarrow> 'r) \<Rightarrow> VtokenRateLimiter \<Rightarrow> 'r option \<times> VtokenRateLimiter" where
  "with_limiter sha rnd tie now hdr h handler l = (case extract_vtoken sha hdr of
     None \<Rightarrow> (Some (handler (\<lambda>_. None)), l)
   | Some vt \<Rightarrow> if get_by_vtoken (hs_registry h) vt = None then (Some (handler (\<lambda>_. None)), l)
       else (case check_outbound_rate_limit rnd tie now vt l of (answer, l') \<Rightarrow> (map_option (\<lambda>a. handler (\<lambda>_. a)) answer, l')))"

section \<open>Sequences of calls\<close>

fun limit_run :: "(rat \<Rightarrow> rat) \<Rightarrow> (vtoken list \<Rightarrow> vtoken) \<Rightarrow> VtokenRateLimiter \<Rightarrow> (vtoken \<times> instant) list \<Rightarrow>
    (vtoken \<times> RateLimitOutcome option) list \<times> VtokenRateLimiter" where
  "limit_run rnd tie l [] = ([], l)"
| "limit_run rnd tie l ((vt, now) # calls) = (case check_at rnd tie vt now l of (outcome, l1) \<Rightarrow>
     (case limit_run rnd tie l1 calls of (outs, l2) \<Rightarrow> ((vt, outcome) # outs, l2)))"

fun is_allowed :: "RateLimitOutcome option \<Rightarrow> bool" where
  "is_allowed (Some (Allowed _)) = True"
| "is_allowed _ = False"

definition admitted :: "vtoken \<Rightarrow> (vtoken \<times> RateLimitOutcome option) list \<Rightarrow> nat" where
  "admitted vt outs = length (filter (\<lambda>(u, out). u = vt \<and> is_allowed out) outs)"

section \<open>Level of a bucket\<close>

text \<open>What rounding to a floating-point format is known to do: it is monotone, and it keeps zero and the
  values that are already in the format, of which the burst is one.\<close>

definition rounding :: "(rat \<Rightarrow> rat) \<Rightarrow> rat \<Rightarrow> bool" where
  "rounding rnd burst \<longleftrightarrow> mono rnd \<and> rnd 0 = 0 \<and> rnd burst = burst"

definition limiter_ok :: "VtokenRateLimiter \<Rightarrow> bool" where
  "limiter_ok l \<longleftrightarrow> hm_wf (rl_buckets l) \<and> rl_rate l > 0 \<and> rl_burst l \<ge> 1 \<and> length (rl_buckets l) \<le> rl_capacity l \<and> rl_capacity l > 0
     \<and> (\<forall>vt b. hm_get (rl_buckets l) vt = Some b \<longrightarrow> 0 \<le> bk_tokens b \<and> bk_tokens b \<le> rl_burst l)"

lemma length_delete_wf: "hm_wf m \<Longrightarrow> k \<in> fst ` set m \<Longrightarrow> length (hm_remove k m) < length m"
  by (induction m) (auto simp: AList.delete_eq intro: le_imp_less_Suc)

lemma length_insert_le: "length (hm_insert k x m) \<le> Suc (length m)"
  by (induction m) auto

lemma length_insert_same: "k \<in> fst ` set m \<Longrightarrow> length (hm_insert k x m) = length m"
  by (induction m) auto

lemma lru_keys_nonempty:
  assumes "bs \<noteq> []" shows "lru_keys bs \<noteq> []" "set (lru_keys bs) \<subseteq> fst ` set bs"
proof -
  obtain p where "p \<in> set bs" "\<forall>q \<in> set bs. bk_last (snd p) \<le> bk_last (snd q)"
    using ex_min_if_finite [of "(bk_last \<circ> snd) ` set bs"] assms by (auto simp: not_less)
  then have "fst p \<in> set (lru_keys bs)"
    unfolding lru_keys_def by (auto simp: list_all_iff case_prod_unfold intro!: image_eqI [of _ _ p])
  then show "lru_keys bs \<noteq> []" by auto
  show "set (lru_keys bs) \<subseteq> fst ` set bs" by (auto simp: lru_keys_def)
qed

text \<open>The choice among equally old buckets is one of them.\<close>

definition picks :: "(vtoken list \<Rightarrow> vtoken) \<Rightarrow> bool" where
  "picks tie \<longleftrightarrow> (\<forall>xs. xs \<noteq> [] \<longrightarrow> tie xs \<in> set xs)"

lemma make_room_ok:
  assumes "hm_wf bs" "length bs \<le> cap" "cap > 0" "picks tie"
  shows "hm_wf (make_room tie cap vt bs)" "hm_get (make_room tie cap vt bs) u = Some b \<Longrightarrow> hm_get bs u = Some b"
    "length (hm_insert vt x (make_room tie cap vt bs)) \<le> cap"
proof -
  show "hm_wf (make_room tie cap vt bs)" using assms(1) by (simp add: make_room_def distinct_delete)
  show "hm_get (make_room tie cap vt bs) u = Some b \<Longrightarrow> hm_get bs u = Some b"
    by (auto simp: make_room_def delete_conv' split: if_splits)
  show "length (hm_insert vt x (make_room tie cap vt bs)) \<le> cap"
  proof (cases "length bs \<ge> cap \<and> \<not> hm_contains bs vt \<and> bs \<noteq> []")
    case True
    then have "tie (lru_keys bs) \<in> fst ` set bs" using lru_keys_nonempty [of bs] assms(4) unfolding picks_def by blast
    from length_delete_wf [OF assms(1) this] show ?thesis
      using True assms(2) length_insert_le [of vt x "hm_remove (tie (lru_keys bs)) bs"] by (simp add: make_room_def)
  next
    case False
    then have e: "make_room tie cap vt bs = bs" unfolding make_room_def by (rule if_not_P)
    show ?thesis
    proof (cases "vt \<in> fst ` set bs")
      case True
      then show ?thesis using assms(2) length_insert_same [OF True, of x] by (simp add: e)
    next
      case notin: False
      then have "\<not> hm_contains bs vt" by (simp add: map_of_eq_None_iff)
      then have "length bs < cap" using False assms(3) by auto
      then show ?thesis using length_insert_le [of vt x bs] by (simp add: e)
    qed
  qed
qed

lemma as_secs_nonneg: "rounding rnd burst \<Longrightarrow> 0 \<le> as_secs_f64 rnd ns"
proof -
  assume r: "rounding rnd burst"
  have nn: "0 \<le> x \<Longrightarrow> 0 \<le> rnd x" for x using r by (metis monoD rounding_def)
  show ?thesis unfolding as_secs_f64_def by (intro nn add_nonneg_nonneg divide_nonneg_nonneg) simp_all
qed

lemma refill_bounds:
  assumes "rounding rnd burst" "0 \<le> bk_tokens b" "rate > 0" "burst \<ge> 1"
  shows "0 \<le> bk_tokens (refill rnd rate burst now b)" "bk_tokens (refill rnd rate burst now b) \<le> burst"
proof -
  have nn: "0 \<le> x \<Longrightarrow> 0 \<le> rnd x" for x using assms(1) by (metis monoD rounding_def)
  have "0 \<le> rnd (bk_tokens b + rnd (as_secs_f64 rnd (now - bk_last b) * rate))"
    using assms as_secs_nonneg [OF assms(1)] by (intro nn add_nonneg_nonneg mult_nonneg_nonneg) auto
  then show "0 \<le> bk_tokens (refill rnd rate burst now b)" "bk_tokens (refill rnd rate burst now b) \<le> burst"
    using assms(4) by (simp_all add: refill_def)
qed

lemma take_token_bounds:
  assumes "rounding rnd burst" "0 \<le> bk_tokens b" "bk_tokens b \<le> burst"
  shows "0 \<le> bk_tokens (snd (take_token rnd rate b))" "bk_tokens (snd (take_token rnd rate b)) \<le> burst"
proof -
  have m: "x \<le> y \<Longrightarrow> rnd x \<le> rnd y" for x y using assms(1) by (auto simp: rounding_def monoD)
  have z: "rnd 0 = 0" "rnd burst = burst" using assms(1) by (simp_all add: rounding_def)
  have "bk_tokens b \<ge> 1 \<Longrightarrow> 0 \<le> rnd (bk_tokens b - 1)" using m [of 0 "bk_tokens b - 1"] z by simp
  moreover have "rnd (bk_tokens b - 1) \<le> burst" using m [of "bk_tokens b - 1" burst] z assms(3) by simp
  ultimately show "0 \<le> bk_tokens (snd (take_token rnd rate b))" "bk_tokens (snd (take_token rnd rate b)) \<le> burst"
    using assms(2,3) by (simp_all add: take_token_def Let_def)
qed

lemma check_at_ok:
  assumes "limiter_ok l" "rounding rnd (rl_burst l)" "picks tie"
  shows "limiter_ok (snd (check_at rnd tie vt now l))" "rl_burst (snd (check_at rnd tie vt now l)) = rl_burst l"
    "rl_capacity (snd (check_at rnd tie vt now l)) = rl_capacity l"
proof -
  let ?bs = "make_room tie (rl_capacity l) vt (rl_buckets l)"
  let ?b = "unwrap_or \<lparr>bk_tokens = rl_burst l, bk_last = now, bk_rejected = 0\<rparr> (hm_get ?bs vt)"
  note ok = assms(1) [unfolded limiter_ok_def]
  have wf: "hm_wf (rl_buckets l)" "length (rl_buckets l) \<le> rl_capacity l" "rl_capacity l > 0" using ok by simp_all
  note room = make_room_ok [OF wf assms(3), where vt = vt]
  have within: "0 \<le> bk_tokens x \<and> bk_tokens x \<le> rl_burst l" if "hm_get ?bs u = Some x" for u x
    using room(2) [OF that] ok by blast
  have "0 \<le> bk_tokens ?b" using ok within [of vt] by (cases "hm_get ?bs vt") (simp_all add: unwrap_or_def)
  from refill_bounds [OF assms(2) this] ok have
    r: "0 \<le> bk_tokens (refill rnd (rl_rate l) (rl_burst l) now ?b)" "bk_tokens (refill rnd (rl_rate l) (rl_burst l) now ?b) \<le> rl_burst l" by auto
  note t = take_token_bounds [OF assms(2) r, of "rl_rate l"]
  obtain outcome b' where tt: "take_token rnd (rl_rate l) (refill rnd (rl_rate l) (rl_burst l) now ?b) = (outcome, b')" by fastforce
  have c: "check_at rnd tie vt now l = (if rl_poisoned l then (Some (Allowed (rl_burst l)), l)
      else (outcome, l\<lparr>rl_buckets := hm_insert vt b' ?bs, rl_poisoned := (outcome = None)\<rparr>))"
    by (simp add: check_at_def Let_def tt)
  have b: "0 \<le> bk_tokens b' \<and> bk_tokens b' \<le> rl_burst l" using t by (simp add: tt)
  have new: "\<forall>u x. hm_get (hm_insert vt b' ?bs) u = Some x \<longrightarrow> 0 \<le> bk_tokens x \<and> bk_tokens x \<le> rl_burst l"
    using b within by (simp add: update_conv')
  define l' where "l' = l\<lparr>rl_buckets := hm_insert vt b' ?bs, rl_poisoned := (outcome = None)\<rparr>"
  have f: "rl_buckets l' = hm_insert vt b' ?bs" "rl_rate l' = rl_rate l" "rl_burst l' = rl_burst l" "rl_capacity l' = rl_capacity l"
    by (simp_all add: l'_def)
  have "limiter_ok l'"
    unfolding limiter_ok_def f using ok wf_insert [OF room(1)] room(3) new by blast
  then show "limiter_ok (snd (check_at rnd tie vt now l))" using assms(1) by (simp add: c l'_def)
  show "rl_burst (snd (check_at rnd tie vt now l)) = rl_burst l" "rl_capacity (snd (check_at rnd tie vt now l)) = rl_capacity l"
    by (simp_all add: c)
qed

section \<open>Exact arithmetic\<close>

abbreviation seconds :: "nat \<Rightarrow> rat" where
  "seconds ns \<equiv> of_nat ns / 1000000000"

lemma as_secs_exact: "as_secs_f64 id ns = seconds ns"
proof -
  have "(of_nat ns :: rat) = of_nat (1000000000 * (ns div 1000000000) + ns mod 1000000000)" by (simp only: mult_div_mod_eq)
  also have "\<dots> = 1000000000 * of_nat (ns div 1000000000) + of_nat (ns mod 1000000000)"
    by (simp only: of_nat_add of_nat_mult of_nat_numeral)
  finally have e: "of_nat ns = (1000000000 :: rat) * of_nat (ns div 1000000000) + of_nat (ns mod 1000000000)" .
  show ?thesis unfolding as_secs_f64_def by (subst e) (simp add: add_divide_distrib)
qed

text \<open>The level a client's bucket has at a time, before a token is taken.\<close>

definition credit :: "VtokenRateLimiter \<Rightarrow> vtoken \<Rightarrow> instant \<Rightarrow> rat" where
  "credit l vt t = (case hm_get (rl_buckets l) vt of None \<Rightarrow> rl_burst l
     | Some b \<Rightarrow> min (bk_tokens b + seconds (t - bk_last b) * rl_rate l) (rl_burst l))"

lemma round_even_le: "of_int (round_even x) \<le> x + 1"
  by (simp add: round_even_def Let_def) linarith

lemma from_secs_small: "x \<le> 1000 \<Longrightarrow> from_secs_f64 x \<noteq> None"
proof -
  assume "x \<le> 1000"
  then have "of_int (round_even (x * 1000000000)) \<le> (of_int 1000000000001 :: rat)" using round_even_le [of "x * 1000000000"] by simp
  then have "round_even (x * 1000000000) \<le> 1000000000001" by (simp only: of_int_le_iff)
  then show ?thesis by (simp add: from_secs_f64_def Let_def)
qed

lemma check_exact:
  assumes "limiter_ok l" "\<not> rl_poisoned l" "hm_contains (rl_buckets l) vt \<or> length (rl_buckets l) < rl_capacity l" "1 / 1000 \<le> rl_rate l"
  shows "\<exists>out b'. check_at id tie vt t l = (Some out, l\<lparr>rl_buckets := hm_insert vt b' (rl_buckets l), rl_poisoned := False\<rparr>)
    \<and> bk_last b' = t \<and> (if credit l vt t \<ge> 1 then is_allowed (Some out) \<and> bk_tokens b' = credit l vt t - 1
         else \<not> is_allowed (Some out) \<and> bk_tokens b' = credit l vt t)"
proof -
  have room: "make_room tie (rl_capacity l) vt (rl_buckets l) = rl_buckets l" using assms(3) by (auto simp: make_room_def)
  define b where "b = refill id (rl_rate l) (rl_burst l) t (unwrap_or \<lparr>bk_tokens = rl_burst l, bk_last = t, bk_rejected = 0\<rparr> (hm_get (rl_buckets l) vt))"
  have b: "bk_tokens b = credit l vt t" "bk_last b = t"
    by (simp_all add: b_def refill_def credit_def unwrap_or_def as_secs_exact split: option.split)
  have c: "check_at id tie vt t l = (case take_token id (rl_rate l) b of (outcome, b') \<Rightarrow>
      (outcome, l\<lparr>rl_buckets := hm_insert vt b' (rl_buckets l), rl_poisoned := (outcome = None)\<rparr>))"
    using assms(2) by (simp add: check_at_def room b_def Let_def)
  show ?thesis
  proof (cases "credit l vt t \<ge> 1")
    case True
    then show ?thesis using b
      by (intro exI [of _ "Allowed (credit l vt t - 1)"] exI [of _ "b\<lparr>bk_tokens := credit l vt t - 1\<rparr>"]) (simp add: c take_token_def Let_def)
  next
    case False
    have "credit l vt t \<ge> 0"
      using assms(1) by (auto simp: credit_def limiter_ok_def split: option.split)
    then have "(1 - credit l vt t) / rl_rate l \<le> 1000" using assms(4) by (simp add: divide_le_eq)
    then obtain n where "from_secs_f64 ((1 - credit l vt t) / rl_rate l) = Some n" using from_secs_small by blast
    then show ?thesis using False b
      by (intro exI [of _ "Denied n"] exI [of _ "b\<lparr>bk_rejected := (if bk_rejected b = - 1 then - 1 else bk_rejected b + 1)\<rparr>"])
        (simp add: c take_token_def Let_def)
  qed
qed

lemma credit_grows:
  assumes "t0 \<le> t" "rl_rate l > 0" "\<And>b. hm_get (rl_buckets l) vt = Some b \<Longrightarrow> bk_last b \<le> t0"
  shows "credit l vt t \<le> credit l vt t0 + rl_rate l * (seconds t - seconds t0)"
proof (cases "hm_get (rl_buckets l) vt")
  case None
  then show ?thesis using assms(1,2) by (simp add: credit_def)
next
  case (Some b)
  have "bk_last b \<le> t0" using assms(3) [OF Some] .
  then have e: "seconds (t - bk_last b) = seconds (t0 - bk_last b) + (seconds t - seconds t0)"
    using assms(1) by (simp add: of_nat_diff field_simps)
  have "0 \<le> rl_rate l * (seconds t - seconds t0)" using assms(1,2) by simp
  then show ?thesis unfolding credit_def Some option.case e by (simp add: min_def algebra_simps)
qed

lemma rounding_id [simp]: "rounding id burst"
  by (simp add: rounding_def mono_def)

lemma no_eviction:
  assumes "hm_wf bs" "card (insert vt (fst ` set bs)) \<le> cap"
  shows "hm_contains bs vt \<or> length bs < cap"
proof (cases "vt \<in> fst ` set bs")
  case True
  then show ?thesis by (simp add: map_of_eq_None_iff)
next
  case False
  then have "card (insert vt (fst ` set bs)) = Suc (length bs)" using distinct_card [OF assms(1)] by simp
  then show ?thesis using assms(2) by simp
qed

lemma admitted_Cons: "admitted vt ((u, out) # outs) = (if u = vt \<and> is_allowed out then 1 else 0) + admitted vt outs"
  by (simp add: admitted_def)

lemma admitted_within_credit:
  assumes "limiter_ok l" "\<not> rl_poisoned l" "1 / 1000 \<le> rl_rate l" "picks tie"
    and "card (fst ` set (rl_buckets l) \<union> fst ` set calls) \<le> rl_capacity l"
    and "sorted (map snd calls)" "\<And>t. t \<in> snd ` set calls \<Longrightarrow> t0 \<le> t \<and> t \<le> T" "t0 \<le> T"
    and "\<And>b. hm_get (rl_buckets l) vt = Some b \<Longrightarrow> bk_last b \<le> t0"
  shows "of_nat (admitted vt (fst (limit_run id tie l calls))) \<le> credit l vt t0 + rl_rate l * (seconds T - seconds t0)"
  using assms
proof (induction calls arbitrary: l t0)
  case Nil
  have "0 \<le> credit l vt t0" using Nil.prems(1) by (auto simp: credit_def limiter_ok_def split: option.split)
  moreover have "0 \<le> rl_rate l * (seconds T - seconds t0)" using Nil.prems(3,8) by simp
  ultimately show ?case by (simp add: admitted_def)
next
  case (Cons call calls)
  obtain u t where call: "call = (u, t)" by (cases call)
  have t: "t0 \<le> t" "t \<le> T" using Cons.prems(7) [of t] call by simp_all
  have wf: "hm_wf (rl_buckets l)" using Cons.prems(1) by (simp add: limiter_ok_def)
  have "card (insert u (fst ` set (rl_buckets l))) \<le> card (fst ` set (rl_buckets l) \<union> fst ` set (call # calls))"
    by (rule card_mono) (auto simp: call)
  then have ne: "hm_contains (rl_buckets l) u \<or> length (rl_buckets l) < rl_capacity l"
    using no_eviction [OF wf] Cons.prems(5) by (meson order_trans)
  from check_exact [OF Cons.prems(1,2) ne Cons.prems(3)] obtain out b' where
    c: "check_at id tie u t l = (Some out, l\<lparr>rl_buckets := hm_insert u b' (rl_buckets l), rl_poisoned := False\<rparr>)" and last: "bk_last b' = t"
    and lev: "if credit l u t \<ge> 1 then is_allowed (Some out) \<and> bk_tokens b' = credit l u t - 1
      else \<not> is_allowed (Some out) \<and> bk_tokens b' = credit l u t" by blast
  define l1 where "l1 = l\<lparr>rl_buckets := hm_insert u b' (rl_buckets l), rl_poisoned := False\<rparr>"
  have l1: "check_at id tie u t l = (Some out, l1)" by (simp add: c l1_def)
  have f: "\<not> rl_poisoned l1" "rl_rate l1 = rl_rate l" "rl_capacity l1 = rl_capacity l" "rl_burst l1 = rl_burst l" by (simp_all add: l1_def)
  have g: "hm_get (rl_buckets l1) v = (if v = u then Some b' else hm_get (rl_buckets l) v)" for v by (simp add: l1_def update_conv')
  have ok1: "limiter_ok l1" using check_at_ok(1) [OF Cons.prems(1) rounding_id Cons.prems(4), of u t] by (simp add: l1)
  have k: "fst ` set (rl_buckets l1) = insert u (fst ` set (rl_buckets l))" by (simp add: l1_def dom_update)
  have "of_nat (admitted vt (fst (limit_run id tie l1 calls))) \<le> credit l1 vt t + rl_rate l1 * (seconds T - seconds t)"
  proof (rule Cons.IH [OF ok1 f(1) _ Cons.prems(4)])
    show "1 / 1000 \<le> rl_rate l1" using Cons.prems(3) by (simp add: f)
    show "card (fst ` set (rl_buckets l1) \<union> fst ` set calls) \<le> rl_capacity l1" using Cons.prems(5) by (simp add: f k call)
    show "sorted (map snd calls)" using Cons.prems(6) by simp
    show "t \<le> s \<and> s \<le> T" if "s \<in> snd ` set calls" for s using that Cons.prems(6,7) by (auto simp: call)
    show "bk_last b \<le> t" if "hm_get (rl_buckets l1) vt = Some b" for b
      using that last t(1) Cons.prems(9) [of b] by (auto simp: g split: if_splits)
  qed (rule t(2))
  moreover have "(if u = vt \<and> is_allowed (Some out) then 1 else 0) + credit l1 vt t \<le> credit l vt t"
  proof (cases "u = vt")
    case True
    have "0 \<le> bk_tokens b' \<and> bk_tokens b' \<le> rl_burst l" using ok1 g [of vt] True unfolding limiter_ok_def f by metis
    then have "credit l1 vt t = bk_tokens b'" using True last by (simp add: credit_def g f)
    then show ?thesis using lev True by (auto split: if_splits)
  next
    case False
    then show ?thesis by (simp add: credit_def g f cong: option.case_cong)
  qed
  moreover have "credit l vt t \<le> credit l vt t0 + rl_rate l * (seconds t - seconds t0)"
    using credit_grows [OF t(1)] Cons.prems(3,9) by simp
  moreover have "fst (limit_run id tie l (call # calls)) = (u, Some out) # fst (limit_run id tie l1 calls)"
    unfolding call limit_run.simps l1 prod.case by (cases "limit_run id tie l1 calls") simp
  ultimately show ?case unfolding id_def f by (auto simp: admitted_Cons algebra_simps split: if_splits)
qed

section \<open>Properties\<close>

lemma new_limiter_ok:
  assumes "mono rnd" "rnd (1 / 1000) > 0"
  shows "limiter_ok (VtokenRateLimiter_new rnd r b)"
  using assms(2) by (auto simp: limiter_ok_def VtokenRateLimiter_new_def sanitize_rate_def sanitize_burst_def BOT_RATE_LIMIT_MAX_ENTRIES_def split: F64.split)


text \<open>The limiter's state stays within its bounds under rounding.  Whatever calls are made at whatever times,
  with any monotone rounding that keeps zero and the configured burst, the limiter keeps at most 4096
  buckets, one per client, each with a level from zero to the burst.
\<close>

theorem limiter_levels_bounded:
  assumes "rounding rnd (sanitize_burst b)" "rnd (1 / 1000) > 0" "picks tie"
  shows "limiter_ok (snd (limit_run rnd tie (VtokenRateLimiter_new rnd r b) calls))
    \<and> length (rl_buckets (snd (limit_run rnd tie (VtokenRateLimiter_new rnd r b) calls))) \<le> 4096"
proof -
  have "limiter_ok l \<Longrightarrow> rounding rnd (rl_burst l) \<Longrightarrow> rl_capacity l = 4096 \<Longrightarrow>
      limiter_ok (snd (limit_run rnd tie l calls)) \<and> rl_capacity (snd (limit_run rnd tie l calls)) = 4096" for l
  proof (induction calls arbitrary: l)
    case (Cons call calls)
    obtain vt t where [simp]: "call = (vt, t)" by (cases call)
    obtain out l1 where c: "check_at rnd tie vt t l = (out, l1)" by fastforce
    have "limiter_ok l1" "rl_burst l1 = rl_burst l" "rl_capacity l1 = rl_capacity l"
      using check_at_ok [OF Cons.prems(1,2) assms(3), of vt t] by (simp_all add: c)
    then show ?case using Cons.IH [of l1] Cons.prems by (cases "limit_run rnd tie l1 calls") (simp add: c)
  qed simp
  moreover have "limiter_ok (VtokenRateLimiter_new rnd r b)" using assms(1,2) by (intro new_limiter_ok) (auto simp: rounding_def)
  ultimately show ?thesis using assms(1) by (fastforce simp: VtokenRateLimiter_new_def BOT_RATE_LIMIT_MAX_ENTRIES_def limiter_ok_def)
qed

theorem limiter_levels_bounded_witness:
  "limiter_ok (snd (limit_run id hd (VtokenRateLimiter_new id (Finite 20) (Finite 40)) [(''a'', 0), (''b'', 5), (''a'', 7)]))
    \<and> length (rl_buckets (snd (limit_run id hd (VtokenRateLimiter_new id (Finite 20) (Finite 40)) [(''a'', 0), (''b'', 5), (''a'', 7)]))) \<le> 4096"
  by (rule limiter_levels_bounded) (simp_all add: picks_def)


lemma first_call:
  assumes "r > 0"
  shows "check_at id tie vt 0 (VtokenRateLimiter_new id (Finite r) (Finite 1)) =
    (Some (Allowed 0), \<lparr>rl_buckets = [(vt, \<lparr>bk_tokens = 0, bk_last = 0, bk_rejected = 0\<rparr>)], rl_poisoned = False, rl_rate = r, rl_burst = 1,
       rl_capacity = BOT_RATE_LIMIT_MAX_ENTRIES\<rparr>)"
  using assms by (simp add: check_at_def VtokenRateLimiter_new_def sanitize_rate_def sanitize_burst_def make_room_def refill_def take_token_def
      unwrap_or_def as_secs_exact Let_def)


lemma round_even_ge: "x - 1 \<le> of_int (round_even x)"
  by (simp add: round_even_def Let_def) linarith

lemma from_secs_huge: "2 ^ 65 \<le> x \<Longrightarrow> from_secs_f64 x = None"
proof -
  assume "2 ^ 65 \<le> x"
  then have "of_int (2 ^ 64 * 1000000000) \<le> (of_int (round_even (x * 1000000000)) :: rat)" using round_even_ge [of "x * 1000000000"] by simp
  then have "2 ^ 64 * 1000000000 \<le> round_even (x * 1000000000)" by (simp only: of_int_le_iff)
  then show ?thesis by (simp add: from_secs_f64_def Let_def)
qed



end
