(* ===== verification/Spec2Isabelle.thy ===== *)
theory Spec2Isabelle
  imports Message_Queue Agent_Acl Client_Registry Hub_Router Pairing Poll_Tracker Migrations Hub_Crypto Mcp_Tools Rate_Limit
begin

text \<open>
  \<^bold>\<open>A verification development of iLink Hub.\<close>  iLink Hub multiplexes one WeChat bot account over many AI
  backends.  Messages from WeChat users enter through the upstream poll, are routed to a backend's queue, fetched
  by the backend with \<open>getupdates\<close>, and answered with \<open>sendmessage\<close>; backends register by an admin call or by
  scanning a pairing code, and may call each other through an MCP endpoint.

  \<^bold>\<open>Theories and sources\<close> (paths below \<open>src/src\<close>).
  \<^item> \<open>Hub_Prelude\<close>, \<open>Rust_Str\<close>: hash maps as association lists with distinct keys, the map contract as a
    locale, Rust string functions on UTF-8 bytes, number parsing.
  \<^item> \<open>Ilink_Types\<close>: wire types of \<open>ilink/types.rs\<close>.
  \<^item> \<open>Message_Queue\<close>: \<open>hub/queue.rs\<close>, with its contract as a locale that the in-memory queue interprets.
  \<^item> \<open>Agent_Acl\<close>: \<open>hub/acl.rs\<close>.  \<open>Hub_Auth\<close>: \<open>hub/vtoken_hash.rs\<close>, \<open>server/routes/auth.rs\<close>.
  \<^item> \<open>Client_Registry\<close>: \<open>hub/registry.rs\<close>.  \<open>Hub_Router\<close>: \<open>hub/router.rs\<close>.
  \<^item> \<open>Pairing\<close>: \<open>hub/pairing.rs\<close>.  \<open>Poll_Tracker\<close>: poll admission and histograms of \<open>hub/state.rs\<close>.
  \<^item> \<open>Hub_Store\<close>: \<open>store/context.rs\<close>, \<open>store/sessions.rs\<close>, \<open>store/clients.rs\<close>, \<open>store/mod.rs\<close>; tables are
    association lists on their primary keys, unique violations are error values.
  \<^item> \<open>Message_Store\<close>: \<open>store/messages.rs\<close>, \<open>store/retention.rs\<close>.  \<open>Migrations\<close>: \<open>store/migrations.rs\<close>.
  \<^item> \<open>Hub_Crypto\<close>: \<open>runtime/crypto.rs\<close>, \<open>store/credentials.rs\<close>.
  \<^item> \<open>Hub_State\<close>: the process state of \<open>hub/state.rs\<close>, \<open>mcp/waiter.rs\<close>, \<open>server/sse_ticket.rs\<close>,
    \<open>hub/health.rs\<close>.
  \<^item> \<open>Client_Lifecycle\<close>: registration, removal, revocation and renaming of \<open>server/pairing.rs\<close>, their handlers in
    \<open>server/routes/bot.rs\<close> and \<open>server/routes/admin.rs\<close>, and the loading of \<open>runtime/serve.rs\<close>.
  \<^item> \<open>Quote_Route\<close>: \<open>hub/quote_route.rs\<close>, \<open>hub/outbound_label.rs\<close>.  \<open>Hub_Messages\<close>: \<open>hub/messages.rs\<close>.
  \<^item> \<open>Dispatch_Core\<close>, \<open>Hub_Commands\<close>, \<open>Hub_Dispatch\<close>: \<open>hub/dispatch/*.rs\<close> and \<open>hub/commands.rs\<close>; store calls may
    fail as the environment of the call says.  \<open>Dispatch_Flows\<close>: what users observe over several messages.
  \<^item> \<open>Bot_Api\<close>: the handlers backends call, \<open>server/routes/bot.rs\<close> and \<open>server/routes/wait.rs\<close>.  \<open>Mcp_Tools\<close>: calls
    between agents, \<open>mcp/*.rs\<close>.  \<open>Rate_Limit\<close>: the token buckets of \<open>hub/rate_limit.rs\<close> and their use by the handlers.

  \<^bold>\<open>Conventions.\<close>  Strings are byte lists.  Clock readings, drawn UUIDs, nonces and CSRF values are arguments.
  SHA-256, AES-GCM, base64, the constant-time comparison and the row order of SQL ties are parameters with the
  laws used as named hypotheses.  Calls that an await point separates are separate steps; statements about
  histories quantify over all lists of calls, and \<open>Poll_Tracker\<close> interleaves the atomic steps of concurrent polls.

  \<^bold>\<open>Bounds.\<close>  \<open>u64\<close> delivery ids are \<open>64 word\<close>; the queue theorems assume fewer than \<open>2^63\<close> pushes per client,
  which is where the code's cast to \<open>i64\<close> turns negative.  No theorem uses fuel: the one loop that may run forever,
  the retention sweep, is a \<open>partial_function\<close>, and it is shown to return when its batch size is positive.

  \<^bold>\<open>Not modelled.\<close>  Network and process glue (HTTP framing, the upstream client, relay sockets, QR login, logging,
  metrics output), the desktop shell, database I/O failures other than
  constraint violations outside the dispatcher, and the dispatcher's latency histogram.  The bit patterns of \<open>f64\<close> are not modelled:
  the token bucket computes with reals and passes each result through a rounding that is a parameter.
\<close>

end
